theory Spec2Isabelle
  imports Main "HOL-Library.AList"
begin

section \<open>Tool-name sanitization (src/plugin/transform/gemini.ts)\<close>

text \<open>
  The regular expression \<^verbatim>\<open>/^[0-9]/\<close> of \<^verbatim>\<open>sanitizeToolNameForGemini\<close> tests the first
  character of the name; the empty name has none.
\<close>

definition is_digit :: "char \<Rightarrow> bool" where
  "is_digit c = (c \<in> set ''0123456789'')"

definition is_letter :: "char \<Rightarrow> bool" where
  "is_letter c = (c \<in> set ''abcdefghijklmnopqrstuvwxyzABCDEFGHIJKLMNOPQRSTUVWXYZ'')"

definition starts_with_digit :: "string \<Rightarrow> bool" where
  "starts_with_digit name = (case name of [] \<Rightarrow> False | c # _ \<Rightarrow> is_digit c)"

definition sanitizeToolNameForGemini :: "string \<Rightarrow> string" where
  "sanitizeToolNameForGemini name =
     (if starts_with_digit name then ''t_'' @ name else name)"

text \<open>
  The pattern \<^verbatim>\<open>^[A-Za-z_][A-Za-z0-9_-]*$\<close> that the specification and the doc comment
  of the function name, as a predicate on strings.
\<close>

definition name_head_char :: "char \<Rightarrow> bool" where
  "name_head_char c = (is_letter c \<or> c = CHR ''_'')"

definition name_tail_char :: "char \<Rightarrow> bool" where
  "name_tail_char c = (is_letter c \<or> is_digit c \<or> c = CHR ''_'' \<or> c = CHR ''-'')"

definition matches_tool_name_pattern :: "string \<Rightarrow> bool" where
  "matches_tool_name_pattern s =
     (case s of [] \<Rightarrow> False | c # cs \<Rightarrow> name_head_char c \<and> list_all name_tail_char cs)"


section \<open>The account pool (src/plugin/accounts.ts)\<close>

text \<open>
  \<^verbatim>\<open>ManagedAccount\<close> and the three private fields of \<^verbatim>\<open>AccountManager\<close>. Optional
  fields are options; JavaScript numbers that hold indices and millisecond time stamps
  are integers. The methods hand out references to the account objects stored in
  \<^verbatim>\<open>accounts\<close>; a reference is modelled as the position of the object in that list, and
  a method that mutates an account through a reference updates the list at that position.
  \<^verbatim>\<open>Date.now()\<close> is the parameter \<open>now\<close> of each method that reads the clock.
\<close>

record RefreshParts =
  refreshToken :: string
  projectId :: "string option"
  managedProjectId :: "string option"

datatype SwitchReason = RateLimitReason | InitialReason | RotationReason

record ManagedAccount =
  index :: int
  parts :: RefreshParts
  access :: "string option"
  expires :: "int option"
  isRateLimited :: bool
  rateLimitResetTime :: int
  lastUsed :: int
  email :: "string option"
  lastSwitchReason :: "SwitchReason option"

record AccountManager =
  accounts :: "ManagedAccount list"
  currentIndex :: int
  currentAccountIndex :: int

text \<open>The stored snapshot (\<^verbatim>\<open>AccountStorage\<close>, version 1) the constructor reads.\<close>

record AccountMetadata =
  st_email :: "string option"
  st_refreshToken :: string
  st_projectId :: "string option"
  st_managedProjectId :: "string option"
  st_addedAt :: int
  st_lastUsed :: int
  st_lastSwitchReason :: "SwitchReason option"
  st_isRateLimited :: "bool option"
  st_rateLimitResetTime :: "int option"

record AccountStorage =
  st_accounts :: "AccountMetadata list"
  st_activeIndex :: int

record OAuthAuthDetails =
  auth_refresh :: string
  auth_access :: "string option"
  auth_expires :: "int option"

definition account_of_metadata :: "OAuthAuthDetails \<Rightarrow> nat \<Rightarrow> AccountMetadata \<Rightarrow> ManagedAccount" where
  "account_of_metadata auth i acc =
     \<lparr> index = int i,
       parts = \<lparr> refreshToken = st_refreshToken acc, projectId = st_projectId acc,
                 managedProjectId = st_managedProjectId acc \<rparr>,
       access = (if i = 0 then auth_access auth else None),
       expires = (if i = 0 then auth_expires auth else None),
       isRateLimited = (case st_isRateLimited acc of Some b \<Rightarrow> b | None \<Rightarrow> False),
       rateLimitResetTime = (case st_rateLimitResetTime acc of Some t \<Rightarrow> t | None \<Rightarrow> 0),
       lastUsed = st_lastUsed acc,
       email = st_email acc,
       lastSwitchReason = st_lastSwitchReason acc \<rparr>"

definition account_of_parts :: "OAuthAuthDetails \<Rightarrow> nat \<Rightarrow> RefreshParts \<Rightarrow> ManagedAccount" where
  "account_of_parts auth i p =
     \<lparr> index = int i, parts = p,
       access = (if i = 0 then auth_access auth else None),
       expires = (if i = 0 then auth_expires auth else None),
       isRateLimited = False, rateLimitResetTime = 0, lastUsed = 0,
       email = None, lastSwitchReason = None \<rparr>"

text \<open>
  The constructor. \<^verbatim>\<open>parseMultiAccountRefresh\<close> and \<^verbatim>\<open>parseRefreshParts\<close> live in
  \<^verbatim>\<open>auth.ts\<close>; their results on \<^verbatim>\<open>auth.refresh\<close> are the parameters \<open>multi\<close>
  and \<open>single\<close>.
\<close>

definition new_AccountManager ::
  "OAuthAuthDetails \<Rightarrow> AccountStorage option \<Rightarrow> RefreshParts list \<Rightarrow> RefreshParts \<Rightarrow> AccountManager" where
  "new_AccountManager auth storedAccounts multi single =
     (case storedAccounts of
        Some st \<Rightarrow>
          if length (st_accounts st) > 0 then
            \<lparr> accounts = map (\<lambda>(i, acc). account_of_metadata auth i acc)
                             (enumerate 0 (st_accounts st)),
              currentIndex = st_activeIndex st,
              currentAccountIndex = -1 \<rparr>
          else if length multi > 0 then
            \<lparr> accounts = map (\<lambda>(i, p). account_of_parts auth i p) (enumerate 0 multi),
              currentIndex = 0, currentAccountIndex = -1 \<rparr>
          else
            \<lparr> accounts = [account_of_parts auth 0 single],
              currentIndex = 0, currentAccountIndex = -1 \<rparr>
      | None \<Rightarrow>
          if length multi > 0 then
            \<lparr> accounts = map (\<lambda>(i, p). account_of_parts auth i p) (enumerate 0 multi),
              currentIndex = 0, currentAccountIndex = -1 \<rparr>
          else
            \<lparr> accounts = [account_of_parts auth 0 single],
              currentIndex = 0, currentAccountIndex = -1 \<rparr>)"

definition getCurrentAccount :: "AccountManager \<Rightarrow> nat option" where
  "getCurrentAccount m =
     (if currentAccountIndex m \<ge> 0 \<and> currentAccountIndex m < int (length (accounts m))
      then Some (nat (currentAccountIndex m)) else None)"

definition markSwitched :: "nat \<Rightarrow> SwitchReason \<Rightarrow> AccountManager \<Rightarrow> AccountManager" where
  "markSwitched p reason m =
     m\<lparr> accounts := (accounts m)[p := (accounts m ! p)\<lparr> lastSwitchReason := Some reason \<rparr>],
        currentAccountIndex := index (accounts m ! p) \<rparr>"

definition getAccountCount :: "AccountManager \<Rightarrow> int" where
  "getAccountCount m = int (length (accounts m))"

text \<open>
  The remainder operator \<^verbatim>\<open>%\<close> of JavaScript truncates towards zero: the result has the
  sign of the dividend.
\<close>

definition js_rem :: "int \<Rightarrow> int \<Rightarrow> int" where
  "js_rem a b = sgn a * (\<bar>a\<bar> mod \<bar>b\<bar>)"

text \<open>
  The callback of the \<^verbatim>\<open>filter\<close> in \<^verbatim>\<open>getNext\<close> clears the flag of an account whose
  reset time has passed; \<open>clear_expired\<close> is that side effect on one account, and the
  accounts that pass the filter are those not rate-limited afterwards.
\<close>

definition clear_expired :: "int \<Rightarrow> ManagedAccount \<Rightarrow> ManagedAccount" where
  "clear_expired now a =
     (if \<not> isRateLimited a then a
      else if now > rateLimitResetTime a then a\<lparr> isRateLimited := False \<rparr>
      else a)"

definition available_positions :: "ManagedAccount list \<Rightarrow> nat list" where
  "available_positions as = filter (\<lambda>i. \<not> isRateLimited (as ! i)) [0..<length as]"

definition getNext :: "int \<Rightarrow> AccountManager \<Rightarrow> nat option \<times> AccountManager" where
  "getNext now m =
     (let as = map (clear_expired now) (accounts m);
          available = available_positions as;
          m1 = m\<lparr> accounts := as \<rparr>
      in if length available = 0 then (None, m1)
         else
           let k = js_rem (currentIndex m) (int (length available))
           in if k < 0 then (None, m1)
              else
                let p = available ! nat k
                in (Some p,
                    m1\<lparr> accounts := as[p := (as ! p)\<lparr> lastUsed := now \<rparr>],
                        currentIndex := currentIndex m + 1 \<rparr>))"

definition getCurrentOrNext :: "int \<Rightarrow> AccountManager \<Rightarrow> nat option \<times> AccountManager" where
  "getCurrentOrNext now m =
     (case getCurrentAccount m of
        Some c \<Rightarrow>
          if \<not> isRateLimited (accounts m ! c) then
            (Some c, m\<lparr> accounts := (accounts m)[c := (accounts m ! c)\<lparr> lastUsed := now \<rparr>] \<rparr>)
          else if now > rateLimitResetTime (accounts m ! c) then
            (Some c, m\<lparr> accounts := (accounts m)[c := (accounts m ! c)
                                          \<lparr> isRateLimited := False, lastUsed := now \<rparr>] \<rparr>)
          else
            (case getNext now m of
               (Some p, m') \<Rightarrow> (Some p, m'\<lparr> currentAccountIndex := index (accounts m' ! p) \<rparr>)
             | (None, m') \<Rightarrow> (None, m'))
      | None \<Rightarrow>
          (case getNext now m of
             (Some p, m') \<Rightarrow> (Some p, m'\<lparr> currentAccountIndex := index (accounts m' ! p) \<rparr>)
           | (None, m') \<Rightarrow> (None, m')))"

definition markRateLimited :: "int \<Rightarrow> nat \<Rightarrow> int \<Rightarrow> AccountManager \<Rightarrow> AccountManager" where
  "markRateLimited now p retryAfterMs m =
     m\<lparr> accounts := (accounts m)[p := (accounts m ! p)
           \<lparr> isRateLimited := True, rateLimitResetTime := now + retryAfterMs \<rparr>] \<rparr>"

definition addAccount ::
  "RefreshParts \<Rightarrow> string option \<Rightarrow> int option \<Rightarrow> string option \<Rightarrow> AccountManager \<Rightarrow> AccountManager" where
  "addAccount p acc_access acc_expires acc_email m =
     m\<lparr> accounts := accounts m @
           [\<lparr> index = int (length (accounts m)), parts = p, access = acc_access,
              expires = acc_expires, isRateLimited = False, rateLimitResetTime = 0,
              lastUsed = 0, email = acc_email, lastSwitchReason = None \<rparr>] \<rparr>"

text \<open>
  \<^verbatim>\<open>removeAccount\<close>: \<^verbatim>\<open>splice(index, 1)\<close> deletes one element, then every remaining
  account gets its position as \<^verbatim>\<open>index\<close>. The result pairs the returned boolean with the
  manager afterwards.
\<close>

definition reindex :: "ManagedAccount list \<Rightarrow> ManagedAccount list" where
  "reindex as = map (\<lambda>(idx, acc). acc\<lparr> index := int idx \<rparr>) (enumerate 0 as)"

definition removeAccount :: "int \<Rightarrow> AccountManager \<Rightarrow> bool \<times> AccountManager" where
  "removeAccount i m =
     (if i < 0 \<or> i \<ge> int (length (accounts m)) then (False, m)
      else (True, m\<lparr> accounts := reindex (take (nat i) (accounts m) @ drop (nat i + 1) (accounts m)) \<rparr>))"

definition getMinWaitTime :: "int \<Rightarrow> AccountManager \<Rightarrow> int" where
  "getMinWaitTime now m =
     (let available = filter (\<lambda>a. \<not> isRateLimited a \<or> now > rateLimitResetTime a) (accounts m)
      in if length available > 0 then 0
         else
           let waitTimes = map (\<lambda>a. max 0 (rateLimitResetTime a - now))
                               (filter isRateLimited (accounts m))
           in if length waitTimes > 0 then Min (set waitTimes) else 0)"

text \<open>Consecutive calls of \<^verbatim>\<open>getNext\<close>, one at each of the given clock readings.\<close>

fun getNext_calls :: "int list \<Rightarrow> AccountManager \<Rightarrow> nat option list \<times> AccountManager" where
  "getNext_calls [] m = ([], m)"
| "getNext_calls (now # ts) m =
     (case getNext now m of (r, m') \<Rightarrow>
        (case getNext_calls ts m' of (rs, m'') \<Rightarrow> (r # rs, m'')))"

definition none_limited :: "AccountManager \<Rightarrow> bool" where
  "none_limited m = list_all (\<lambda>a. \<not> isRateLimited a) (accounts m)"

subsection \<open>Example pools\<close>

definition example_auth :: OAuthAuthDetails where
  "example_auth = \<lparr> auth_refresh = ''r0|p0'', auth_access = Some ''tok'', auth_expires = Some 5000000 \<rparr>"

definition example_metadata :: "string \<Rightarrow> AccountMetadata" where
  "example_metadata e =
     \<lparr> st_email = Some e, st_refreshToken = ''r-'' @ e, st_projectId = None,
       st_managedProjectId = None, st_addedAt = 1, st_lastUsed = 0,
       st_lastSwitchReason = None, st_isRateLimited = None, st_rateLimitResetTime = None \<rparr>"

definition example_parts :: RefreshParts where
  "example_parts = \<lparr> refreshToken = ''r0'', projectId = Some ''p0'', managedProjectId = None \<rparr>"

text \<open>Two stored accounts, the second one active when the snapshot was saved.\<close>

definition pool2 :: AccountManager where
  "pool2 = new_AccountManager example_auth
     (Some \<lparr> st_accounts = [example_metadata ''a'', example_metadata ''b''], st_activeIndex = 1 \<rparr>)
     [] example_parts"

text \<open>Three stored accounts; one sticky selection at time 1000 makes account ``b'' current.\<close>

definition pool3 :: AccountManager where
  "pool3 = snd (getCurrentOrNext 1000 (new_AccountManager example_auth
     (Some \<lparr> st_accounts = [example_metadata ''a'', example_metadata ''b'', example_metadata ''c''],
            st_activeIndex = 1 \<rparr>)
     [] example_parts))"

section \<open>JSON values and JavaScript property access\<close>

text \<open>
  Request and response payloads are the values \<^verbatim>\<open>JSON.parse\<close> produces. An object is the
  list of its properties in insertion order. Numbers are integers: the payload fields the
  code reads as numbers are token counts and budgets.
  A property that is absent reads as \<^verbatim>\<open>undefined\<close>, which is \<open>None\<close>.
\<close>

datatype json =
    JNull
  | JBool bool
  | JNum int
  | JStr string
  | JArr "json list"
  | JObj "(string \<times> json) list"

datatype js_error = TypeError

text \<open>Truthiness of a value read from a property.\<close>

fun truthy :: "json option \<Rightarrow> bool" where
  "truthy None = False"
| "truthy (Some JNull) = False"
| "truthy (Some (JBool b)) = b"
| "truthy (Some (JNum n)) = (n \<noteq> 0)"
| "truthy (Some (JStr s)) = (s \<noteq> [])"
| "truthy (Some (JArr _)) = True"
| "truthy (Some (JObj _)) = True"

text \<open>
  Reading property \<open>k\<close> of a value that is not \<^verbatim>\<open>null\<close>: objects have the properties
  they were parsed with, every other value has none of the property names the code reads.
  Reading a property of \<^verbatim>\<open>null\<close> throws; the callers test for it first.
\<close>

fun field :: "string \<Rightarrow> json \<Rightarrow> json option" where
  "field k (JObj kvs) = map_of kvs k"
| "field k _ = None"

text \<open>
  Assigning property \<open>k\<close> of an object: an existing property keeps its place, a new one
  goes last. Only objects are assigned to.
\<close>

fun set_field :: "string \<Rightarrow> json \<Rightarrow> json \<Rightarrow> json" where
  "set_field k v (JObj kvs) = JObj (AList.update k v kvs)"
| "set_field k v j = j"

fun startsWith :: "string \<Rightarrow> string \<Rightarrow> bool" where
  "startsWith s p = (take (length p) s = p)"

fun str_includes :: "string \<Rightarrow> string \<Rightarrow> bool" where
  "str_includes [] sub = (sub = [])"
| "str_includes (c # cs) sub = (startsWith (c # cs) sub \<or> str_includes cs sub)"

section \<open>The signature cache (src/plugin/cache.ts, lines 68 to 96)\<close>

text \<open>
  \<^verbatim>\<open>signatureCache\<close> is a \<^verbatim>\<open>Map\<close> from strings to strings. A key is the SHA-256 digest of
  \<^verbatim>\<open>sessionId\<close>, a colon and \<^verbatim>\<open>thoughtText\<close>; the digest is taken as free of collisions,
  so a key of the model is the string that is hashed.
\<close>

type_synonym signature_cache = "string \<rightharpoonup> string"

definition getSignatureKey :: "string \<Rightarrow> string \<Rightarrow> string" where
  "getSignatureKey sessionId thoughtText = sessionId @ '':'' @ thoughtText"

definition cacheSignature :: "string \<Rightarrow> string \<Rightarrow> string \<Rightarrow> signature_cache \<Rightarrow> signature_cache" where
  "cacheSignature sessionId thoughtText signature cache =
     cache(getSignatureKey sessionId thoughtText \<mapsto> signature)"

definition getCachedSignature :: "string \<Rightarrow> string \<Rightarrow> signature_cache \<Rightarrow> string option" where
  "getCachedSignature sessionId thoughtText cache = cache (getSignatureKey sessionId thoughtText)"

text \<open>
  \<^verbatim>\<open>type ModelFamily = "claude" | "gemini"\<close> (as \<^verbatim>\<open>storage.ts\<close> declares it): a family is
  one of two strings.
\<close>

datatype ModelFamily = Claude | Gemini

fun family_string :: "ModelFamily \<Rightarrow> string" where
  "family_string Claude = ''claude''"
| "family_string Gemini = ''gemini''"

text \<open>
  The two transformers call the cache with the model family as first argument, one argument
  more than \<^verbatim>\<open>cache.ts\<close> declares:
  \<^verbatim>\<open>getCachedSignature(context.family, context.sessionId, text)\<close> and
  \<^verbatim>\<open>cacheSignature(context.family, context.sessionId, text, signature)\<close>.
  A JavaScript call binds arguments to parameters by position and ignores a surplus argument:
  the family is bound to \<^verbatim>\<open>sessionId\<close>, the session identifier to \<^verbatim>\<open>thoughtText\<close> and, in
  \<^verbatim>\<open>cacheSignature\<close>, the text to \<^verbatim>\<open>signature\<close>.
\<close>

definition call_getCachedSignature ::
  "ModelFamily \<Rightarrow> string \<Rightarrow> 'a \<Rightarrow> signature_cache \<Rightarrow> string option" where
  "call_getCachedSignature family sessionId thoughtText cache =
     getCachedSignature (family_string family) sessionId cache"

definition call_cacheSignature ::
  "ModelFamily \<Rightarrow> string \<Rightarrow> string \<Rightarrow> string \<Rightarrow> signature_cache \<Rightarrow> signature_cache" where
  "call_cacheSignature family sessionId thoughtText signature cache =
     cacheSignature (family_string family) sessionId thoughtText cache"

section \<open>Request transformers: the walk over conversation turns\<close>

record TransformContext =
  ctx_model :: string
  ctx_family :: ModelFamily
  ctx_projectId :: string
  ctx_streaming :: bool
  ctx_requestId :: string
  ctx_sessionId :: string

definition THOUGHT_SIGNATURE_BYPASS :: string where
  "THOUGHT_SIGNATURE_BYPASS = ''skip_thought_signature_validator''"

subsection \<open>Native family (src/plugin/transform/gemini.ts, lines 131 to 176)\<close>

text \<open>
  The body of the loop over the parts of a model turn. The result is the part pushed
  onto \<^verbatim>\<open>filteredParts\<close>, or \<open>None\<close> when the part is dropped. The text of a reasoning
  part is only tested for truthiness, and handed to the cache as its surplus argument.
\<close>

definition gemini_part :: "TransformContext \<Rightarrow> signature_cache \<Rightarrow> json \<Rightarrow> js_error + json option" where
  "gemini_part ctx cache part =
     (if part = JNull then Inl TypeError
      else if field ''thought'' part = Some (JBool True) then
        (let thoughtText = field ''text'' part in
         if truthy thoughtText \<and> ctx_sessionId ctx \<noteq> [] then
           (case call_getCachedSignature (ctx_family ctx) (ctx_sessionId ctx) thoughtText cache of
              Some cachedSig \<Rightarrow>
                if cachedSig \<noteq> []
                then Inr (Some (set_field ''thoughtSignature'' (JStr cachedSig) part))
                else Inr None
            | None \<Rightarrow> Inr None)
         else Inr None)
      else if truthy (field ''functionCall'' part) then
        Inr (Some (set_field ''thoughtSignature'' (JStr THOUGHT_SIGNATURE_BYPASS) part))
      else Inr (Some part))"

text \<open>The loop over the parts: the filtered parts and \<^verbatim>\<open>thinkingBlocksRemoved\<close>.\<close>

fun gemini_parts ::
  "TransformContext \<Rightarrow> signature_cache \<Rightarrow> json list \<Rightarrow> js_error + (json list \<times> nat)" where
  "gemini_parts ctx cache [] = Inr ([], 0)"
| "gemini_parts ctx cache (part # ps) =
     (case gemini_part ctx cache part of
        Inl e \<Rightarrow> Inl e
      | Inr r \<Rightarrow>
          (case gemini_parts ctx cache ps of
             Inl e \<Rightarrow> Inl e
           | Inr (filteredParts, removed) \<Rightarrow>
               (case r of
                  None \<Rightarrow> Inr (filteredParts, removed + 1)
                | Some p \<Rightarrow> Inr (p # filteredParts, removed))))"

definition gemini_content :: "TransformContext \<Rightarrow> signature_cache \<Rightarrow> json \<Rightarrow> js_error + json" where
  "gemini_content ctx cache content =
     (if content = JNull then Inl TypeError
      else if field ''role'' content \<noteq> Some (JStr ''model'') then Inr content
      else
        (case field ''parts'' content of
           Some (JArr ps) \<Rightarrow>
             (case gemini_parts ctx cache ps of
                Inl e \<Rightarrow> Inl e
              | Inr (filteredParts, removed) \<Rightarrow>
                  Inr (set_field ''parts'' (JArr filteredParts) content))
         | _ \<Rightarrow> Inr content))"

fun gemini_content_list ::
  "TransformContext \<Rightarrow> signature_cache \<Rightarrow> json list \<Rightarrow> js_error + json list" where
  "gemini_content_list ctx cache [] = Inr []"
| "gemini_content_list ctx cache (content # cs) =
     (case gemini_content ctx cache content of
        Inl e \<Rightarrow> Inl e
      | Inr c \<Rightarrow>
          (case gemini_content_list ctx cache cs of
             Inl e \<Rightarrow> Inl e
           | Inr cs' \<Rightarrow> Inr (c # cs')))"

text \<open>
  \<^verbatim>\<open>requestPayload.contents\<close> after the walk of \<^verbatim>\<open>transformGeminiRequest\<close>; it is the
  \<^verbatim>\<open>request.contents\<close> of the wrapped body. A thrown \<^verbatim>\<open>TypeError\<close> leaves the function
  without a result.
\<close>

definition transformGeminiRequest_contents ::
  "TransformContext \<Rightarrow> signature_cache \<Rightarrow> json option \<Rightarrow> js_error + json option" where
  "transformGeminiRequest_contents ctx cache contents =
     (case contents of
        Some (JArr cs) \<Rightarrow>
          (case gemini_content_list ctx cache cs of
             Inl e \<Rightarrow> Inl e
           | Inr cs' \<Rightarrow> Inr (Some (JArr cs')))
      | _ \<Rightarrow> Inr contents)"

subsection \<open>Proxied family (transformClaudeRequest, the walk over \<^verbatim>\<open>contents\<close>)\<close>

text \<open>
  The state the walk threads through all turns: the signature cache, the queues
  \<^verbatim>\<open>funcCallIdQueues\<close> (a name without a queue has the empty one), the number of
  \<^verbatim>\<open>randomUUID()\<close> calls made so far, \<^verbatim>\<open>thinkingBlocksRemoved\<close> and
  \<^verbatim>\<open>toolsTransformed\<close>. The \<open>n\<close>-th call of \<^verbatim>\<open>randomUUID()\<close> returns \<open>uuid n\<close>.
\<close>

record claude_walk =
  w_cache :: signature_cache
  w_queues :: "string \<Rightarrow> json list"
  w_uuid :: nat
  w_removed :: nat
  w_toolsTransformed :: bool

definition signature_missing_or_short :: "json option \<Rightarrow> bool" where
  "signature_missing_or_short signature =
     (\<not> truthy signature \<or> (case signature of Some (JStr s) \<Rightarrow> length s < 50 | _ \<Rightarrow> False))"

text \<open>
  A part with \<^verbatim>\<open>thought === true\<close>: restore from the cache when the signature is missing
  or short, then keep the part (and cache its signature) if the signature is a string longer
  than 50 characters, else drop it.
\<close>

definition claude_thought ::
  "TransformContext \<Rightarrow> json \<Rightarrow> claude_walk \<Rightarrow> json option \<times> claude_walk" where
  "claude_thought ctx part w =
     (let signature = field ''thoughtSignature'' part;
          restored =
            (if signature_missing_or_short signature then
               (case field ''text'' part of
                  Some (JStr t) \<Rightarrow>
                    (case call_getCachedSignature (ctx_family ctx) (ctx_sessionId ctx) t (w_cache w) of
                       Some cached \<Rightarrow> if cached \<noteq> [] then Some cached else None
                     | None \<Rightarrow> None)
                | _ \<Rightarrow> None)
             else None);
          signature' = (case restored of Some cached \<Rightarrow> Some (JStr cached) | None \<Rightarrow> signature);
          part' = (case restored of
                     Some cached \<Rightarrow> set_field ''thoughtSignature'' (JStr cached) part
                   | None \<Rightarrow> part)
      in case signature' of
           Some (JStr s) \<Rightarrow>
             if length s > 50 then
               (Some part',
                (case field ''text'' part of
                   Some (JStr t) \<Rightarrow>
                     if ctx_sessionId ctx \<noteq> []
                     then w\<lparr> w_cache := call_cacheSignature (ctx_family ctx) (ctx_sessionId ctx) t s (w_cache w) \<rparr>
                     else w
                 | _ \<Rightarrow> w))
             else (None, w\<lparr> w_removed := w_removed w + 1 \<rparr>)
         | _ \<Rightarrow> (None, w\<lparr> w_removed := w_removed w + 1 \<rparr>))"

definition claude_functionCall ::
  "(nat \<Rightarrow> string) \<Rightarrow> json \<Rightarrow> claude_walk \<Rightarrow> json \<times> claude_walk" where
  "claude_functionCall uuid part w =
     (case field ''functionCall'' part of
        Some (JObj functionCall) \<Rightarrow>
          (case map_of functionCall ''name'' of
             Some (JStr name) \<Rightarrow>
               if \<not> truthy (map_of functionCall ''id'') then
                 let callId = JStr (name @ ''-'' @ uuid (w_uuid w))
                 in (set_field ''functionCall'' (JObj (AList.update ''id'' callId functionCall)) part,
                     w\<lparr> w_queues := (w_queues w)(name := w_queues w name @ [callId]),
                        w_uuid := w_uuid w + 1,
                        w_toolsTransformed := True \<rparr>)
               else
                 (case map_of functionCall ''id'' of
                    Some callId \<Rightarrow>
                      (part, w\<lparr> w_queues := (w_queues w)(name := w_queues w name @ [callId]) \<rparr>)
                  | None \<Rightarrow> (part, w))
           | _ \<Rightarrow> (part, w))
      | _ \<Rightarrow> (part, w))"

definition claude_functionResponse :: "json \<Rightarrow> claude_walk \<Rightarrow> json \<times> claude_walk" where
  "claude_functionResponse part w =
     (case field ''functionResponse'' part of
        Some (JObj functionResponse) \<Rightarrow>
          (case map_of functionResponse ''name'' of
             Some (JStr name) \<Rightarrow>
               if \<not> truthy (map_of functionResponse ''id'') then
                 (case w_queues w name of
                    [] \<Rightarrow> (part, w)
                  | callId # rest \<Rightarrow>
                      (set_field ''functionResponse''
                         (JObj (AList.update ''id'' callId functionResponse)) part,
                       w\<lparr> w_queues := (w_queues w)(name := rest) \<rparr>))
               else (part, w)
           | _ \<Rightarrow> (part, w))
      | _ \<Rightarrow> (part, w))"

definition claude_calls ::
  "(nat \<Rightarrow> string) \<Rightarrow> json \<Rightarrow> claude_walk \<Rightarrow> json \<times> claude_walk" where
  "claude_calls uuid part w =
     (case claude_functionCall uuid part w of
        (part1, w1) \<Rightarrow> claude_functionResponse part1 w1)"

definition claude_part ::
  "(nat \<Rightarrow> string) \<Rightarrow> TransformContext \<Rightarrow> json \<Rightarrow> claude_walk
     \<Rightarrow> js_error + (json option \<times> claude_walk)" where
  "claude_part uuid ctx part w =
     (if part = JNull then Inl TypeError
      else if field ''thought'' part = Some (JBool True) then
        (case claude_thought ctx part w of
           (None, w') \<Rightarrow> Inr (None, w')
         | (Some part', w') \<Rightarrow>
             (case claude_calls uuid part' w' of (p, w'') \<Rightarrow> Inr (Some p, w'')))
      else
        (case claude_calls uuid part w of (p, w') \<Rightarrow> Inr (Some p, w')))"

fun claude_parts ::
  "(nat \<Rightarrow> string) \<Rightarrow> TransformContext \<Rightarrow> json list \<Rightarrow> claude_walk
     \<Rightarrow> js_error + (json list \<times> claude_walk)" where
  "claude_parts uuid ctx [] w = Inr ([], w)"
| "claude_parts uuid ctx (part # ps) w =
     (case claude_part uuid ctx part w of
        Inl e \<Rightarrow> Inl e
      | Inr (r, w') \<Rightarrow>
          (case claude_parts uuid ctx ps w' of
             Inl e \<Rightarrow> Inl e
           | Inr (filteredParts, w'') \<Rightarrow>
               Inr ((case r of None \<Rightarrow> filteredParts | Some p \<Rightarrow> p # filteredParts), w'')))"

definition claude_content ::
  "(nat \<Rightarrow> string) \<Rightarrow> TransformContext \<Rightarrow> json \<Rightarrow> claude_walk \<Rightarrow> js_error + (json \<times> claude_walk)" where
  "claude_content uuid ctx content w =
     (if content = JNull then Inl TypeError
      else
        (case field ''parts'' content of
           Some (JArr ps) \<Rightarrow>
             (case claude_parts uuid ctx ps w of
                Inl e \<Rightarrow> Inl e
              | Inr (filteredParts, w') \<Rightarrow>
                  Inr (set_field ''parts'' (JArr filteredParts) content, w'))
         | _ \<Rightarrow> Inr (content, w)))"

fun claude_content_list ::
  "(nat \<Rightarrow> string) \<Rightarrow> TransformContext \<Rightarrow> json list \<Rightarrow> claude_walk
     \<Rightarrow> js_error + (json list \<times> claude_walk)" where
  "claude_content_list uuid ctx [] w = Inr ([], w)"
| "claude_content_list uuid ctx (content # cs) w =
     (case claude_content uuid ctx content w of
        Inl e \<Rightarrow> Inl e
      | Inr (c, w') \<Rightarrow>
          (case claude_content_list uuid ctx cs w' of
             Inl e \<Rightarrow> Inl e
           | Inr (cs', w'') \<Rightarrow> Inr (c # cs', w'')))"

text \<open>
  \<^verbatim>\<open>requestPayload.contents\<close> after the walk of \<^verbatim>\<open>transformClaudeRequest\<close>, with the
  signature cache afterwards. The walk starts with empty queues; \<open>tt\<close> is
  \<^verbatim>\<open>toolsTransformed\<close> as the tool loop left it.
\<close>

definition claude_walk_start :: "signature_cache \<Rightarrow> bool \<Rightarrow> claude_walk" where
  "claude_walk_start cache tt =
     \<lparr> w_cache = cache, w_queues = (\<lambda>_. []), w_uuid = 0, w_removed = 0, w_toolsTransformed = tt \<rparr>"

definition transformClaudeRequest_contents ::
  "(nat \<Rightarrow> string) \<Rightarrow> TransformContext \<Rightarrow> signature_cache \<Rightarrow> bool \<Rightarrow> json option
     \<Rightarrow> js_error + (json option \<times> claude_walk)" where
  "transformClaudeRequest_contents uuid ctx cache tt contents =
     (case contents of
        Some (JArr cs) \<Rightarrow>
          (case claude_content_list uuid ctx cs (claude_walk_start cache tt) of
             Inl e \<Rightarrow> Inl e
           | Inr (cs', w) \<Rightarrow> Inr (Some (JArr cs'), w))
      | _ \<Rightarrow> Inr (contents, claude_walk_start cache tt))"

subsection \<open>Conversations used as examples\<close>

text \<open>A turn, or a part of a turn with a parts array, that is \<^verbatim>\<open>null\<close> makes the walk throw.\<close>

definition no_null_parts :: "json \<Rightarrow> bool" where
  "no_null_parts content =
     (content \<noteq> JNull \<and>
      (case field ''parts'' content of Some (JArr ps) \<Rightarrow> JNull \<notin> set ps | _ \<Rightarrow> True))"

definition gemini_ctx :: TransformContext where
  "gemini_ctx = \<lparr> ctx_model = ''gemini-3-pro-high'', ctx_family = Gemini, ctx_projectId = ''test-project'',
     ctx_streaming = True, ctx_requestId = ''test-request-id'', ctx_sessionId = ''test-session-id'' \<rparr>"

definition user_turn :: json where
  "user_turn = JObj [(''role'', JStr ''user''),
     (''parts'', JArr [JObj [(''text'', JStr ''Hello''), (''thought'', JBool True),
                             (''thoughtSignature'', JStr ''user-sig-should-stay'')],
                       JObj [(''functionCall'', JObj [(''name'', JStr ''search'')])]])]"

definition model_turn :: json where
  "model_turn = JObj [(''role'', JStr ''model''),
     (''parts'', JArr [JObj [(''text'', JStr ''thinking''), (''thought'', JBool True)],
                       JObj [(''functionCall'', JObj [(''name'', JStr ''search'')])]])]"

text \<open>
  Parts of the pairing property: a function call, or a function response, with the given
  name and no identifier (and nothing else the walk acts on), and the same part with an
  identifier written into it.
\<close>

definition is_call_without_id :: "string \<Rightarrow> json \<Rightarrow> bool" where
  "is_call_without_id name part =
     (field ''thought'' part \<noteq> Some (JBool True) \<and> field ''functionResponse'' part = None \<and>
      (case field ''functionCall'' part of
         Some (JObj fc) \<Rightarrow> map_of fc ''name'' = Some (JStr name) \<and> \<not> truthy (map_of fc ''id'')
       | _ \<Rightarrow> False))"

definition is_response_without_id :: "string \<Rightarrow> json \<Rightarrow> bool" where
  "is_response_without_id name part =
     (field ''thought'' part \<noteq> Some (JBool True) \<and> field ''functionCall'' part = None \<and>
      (case field ''functionResponse'' part of
         Some (JObj fr) \<Rightarrow> map_of fr ''name'' = Some (JStr name) \<and> \<not> truthy (map_of fr ''id'')
       | _ \<Rightarrow> False))"

definition with_call_id :: "json \<Rightarrow> json \<Rightarrow> json" where
  "with_call_id callId part =
     (case field ''functionCall'' part of
        Some (JObj fc) \<Rightarrow> set_field ''functionCall'' (JObj (AList.update ''id'' callId fc)) part
      | _ \<Rightarrow> part)"

definition with_response_id :: "json \<Rightarrow> json \<Rightarrow> json" where
  "with_response_id callId part =
     (case field ''functionResponse'' part of
        Some (JObj fr) \<Rightarrow> set_field ''functionResponse'' (JObj (AList.update ''id'' callId fr)) part
      | _ \<Rightarrow> part)"

definition claude_ctx :: TransformContext where
  "claude_ctx = \<lparr> ctx_model = ''claude-opus-4-5-thinking'', ctx_family = Claude,
     ctx_projectId = ''test-project'', ctx_streaming = True, ctx_requestId = ''test-request-id'',
     ctx_sessionId = ''test-session-id'' \<rparr>"

definition example_uuid :: "nat \<Rightarrow> string" where
  "example_uuid n = (if n = 0 then ''0a1b'' else if n = 1 then ''2c3d'' else ''4e5f'')"

definition VALID_SIGNATURE :: string where
  "VALID_SIGNATURE = ''RXJRQ0NrZ0lDaEFDR0FJcVFKdmIzVzdUKzcyNE9nS29LTVdocXpIOEVuZFB3VzltelFLZENYT2xTMWs5dXF3RUdN''"

definition signed_thought :: json where
  "signed_thought = JObj [(''text'', JStr ''I am thinking...''), (''thought'', JBool True),
                          (''thoughtSignature'', JStr VALID_SIGNATURE)]"



definition search_call :: "string \<Rightarrow> json" where
  "search_call q = JObj [(''functionCall'',
      JObj [(''name'', JStr ''search''), (''args'', JObj [(''query'', JStr q)])])]"

definition search_response :: "string \<Rightarrow> json" where
  "search_response r = JObj [(''functionResponse'',
      JObj [(''name'', JStr ''search''), (''response'', JObj [(''result'', JStr r)])])]"

definition text_part :: "string \<Rightarrow> json" where
  "text_part s = JObj [(''text'', JStr s)]"



definition read_call :: json where
  "read_call = JObj [(''functionCall'',
      JObj [(''name'', JStr ''read''), (''args'', JObj [(''path'', JStr ''notes.txt'')])])]"

definition read_response :: json where
  "read_response = JObj [(''functionResponse'',
      JObj [(''name'', JStr ''read''), (''response'', JObj [(''result'', JStr ''rr'')])])]"

text \<open>
  The other parts of a conversation, seen from the queue of one name. The walk acts on a
  \<^verbatim>\<open>functionCall\<close> or \<^verbatim>\<open>functionResponse\<close> that is an object with a string \<^verbatim>\<open>name\<close>:
  a function call of \<open>name\<close> pushes an identifier on the queue of \<open>name\<close>, and a function
  response of \<open>name\<close> without identifier takes the oldest identifier off that queue when
  one is there.
\<close>

definition named_object :: "json option \<Rightarrow> (string \<times> (string \<times> json) list) option" where
  "named_object v =
     (case v of
        Some (JObj kvs) \<Rightarrow> (case map_of kvs ''name'' of Some (JStr n) \<Rightarrow> Some (n, kvs) | _ \<Rightarrow> None)
      | _ \<Rightarrow> None)"

definition calls_name :: "string \<Rightarrow> json \<Rightarrow> bool" where
  "calls_name name part =
     (case named_object (field ''functionCall'' part) of
        Some (n, fc) \<Rightarrow> n = name
      | None \<Rightarrow> False)"

definition responds_without_id :: "string \<Rightarrow> json \<Rightarrow> bool" where
  "responds_without_id name part =
     (case named_object (field ''functionResponse'' part) of
        Some (n, fr) \<Rightarrow> n = name \<and> \<not> truthy (map_of fr ''id'')
      | None \<Rightarrow> False)"

text \<open>
  A part that leaves the queue of \<open>name\<close> as it is: it is not \<^verbatim>\<open>null\<close>, it is no function
  call of that name and no function response of that name without an identifier. A part that
  takes nothing off the queue may still be a function call of that name.
\<close>

definition leaves_queue :: "string \<Rightarrow> json \<Rightarrow> bool" where
  "leaves_queue name part =
     (part \<noteq> JNull \<and> \<not> calls_name name part \<and> \<not> responds_without_id name part)"

definition takes_nothing :: "string \<Rightarrow> json \<Rightarrow> bool" where
  "takes_nothing name part = (part \<noteq> JNull \<and> \<not> responds_without_id name part)"

text \<open>
  The parts of a conversation in the order in which the walk visits them: the
  \<^verbatim>\<open>parts\<close> arrays of the turns, one after the other. A turn without a \<^verbatim>\<open>parts\<close> array
  is skipped by the walk.
\<close>

definition turn_parts :: "json \<Rightarrow> json list" where
  "turn_parts content = (case field ''parts'' content of Some (JArr ps) \<Rightarrow> ps | _ \<Rightarrow> [])"

definition conversation_parts :: "json list \<Rightarrow> json list" where
  "conversation_parts contents = concat (map turn_parts contents)"

text \<open>An output turn is the input turn, with at most its \<^verbatim>\<open>parts\<close> array replaced.\<close>

definition same_turn :: "json \<Rightarrow> json \<Rightarrow> bool" where
  "same_turn content content' =
     (case field ''parts'' content' of
        Some (JArr ps) \<Rightarrow> content' = set_field ''parts'' (JArr ps) content
      | _ \<Rightarrow> content' = content)"

text \<open>
  A conversation in which an earlier \<^verbatim>\<open>search\<close> call and its response carry the identifier
  \<^verbatim>\<open>OLD\<close> already.
\<close>

definition old_call :: json where
  "old_call = JObj [(''functionCall'',
      JObj [(''name'', JStr ''search''), (''args'', JObj [(''query'', JStr ''z'')]), (''id'', JStr ''OLD'')])]"

definition old_response :: json where
  "old_response = JObj [(''functionResponse'',
      JObj [(''name'', JStr ''search''), (''response'', JObj [(''result'', JStr ''rz'')]), (''id'', JStr ''OLD'')])]"

definition turn_with :: "string \<Rightarrow> json list \<Rightarrow> json" where
  "turn_with role ps = JObj [(''role'', JStr role), (''parts'', JArr ps)]"


text \<open>
  A conversation of a reasoning model that uses two tools: the model turn holds a signed
  reasoning part, two \<^verbatim>\<open>search\<close> calls and a \<^verbatim>\<open>read\<close> call between them, the next turn
  the three responses.
\<close>

definition two_tools_conversation :: "json list" where
  "two_tools_conversation =
     [turn_with ''user'' [text_part ''find a and b''],
      turn_with ''model'' [signed_thought, search_call ''a'', read_call, search_call ''b''],
      turn_with ''user'' [search_response ''ra'', read_response, search_response ''rb'']]"

text \<open>The state of the walk after the reasoning part of that conversation.\<close>

definition walk_after_thought :: claude_walk where
  "walk_after_thought =
     (claude_walk_start Map.empty False)
       \<lparr> w_cache := cacheSignature ''claude'' ''test-session-id'' ''I am thinking...'' Map.empty \<rparr>"

definition earlier_pair_conversation :: "json list" where
  "earlier_pair_conversation =
     [turn_with ''model'' [old_call],
      turn_with ''user'' [old_response],
      turn_with ''model'' [search_call ''a'', search_call ''b''],
      turn_with ''user'' [search_response ''ra'', search_response ''rb'']]"

section \<open>Generation config of the proxied family (transformClaudeRequest, lines 234 to 330)\<close>

text \<open>
  \<^verbatim>\<open>ThinkingConfig\<close> as \<^verbatim>\<open>normalizeThinkingConfig\<close> returns it, with the property
  \<^verbatim>\<open>include_thoughts\<close> that \<^verbatim>\<open>transformClaudeRequest\<close> adds to the object.
\<close>

record ThinkingConfig =
  thinkingBudget :: "int option"
  thinkingLevel :: "string option"
  includeThoughts :: "bool option"
  include_thoughts :: "bool option"

text \<open>\<^verbatim>\<open>a ?? b\<close>: the right operand when the left one is \<^verbatim>\<open>undefined\<close> or \<^verbatim>\<open>null\<close>.\<close>

definition nullish_or :: "json option \<Rightarrow> json option \<Rightarrow> json option" where
  "nullish_or a b = (if a = None \<or> a = Some JNull then b else a)"

definition toLowerCase_char :: "char \<Rightarrow> char" where
  "toLowerCase_char c =
     (if c \<in> set ''ABCDEFGHIJKLMNOPQRSTUVWXYZ'' then char_of (of_char c + (32::nat)) else c)"

definition toLowerCase :: "string \<Rightarrow> string" where
  "toLowerCase s = map toLowerCase_char s"

definition normalizeThinkingConfig :: "json option \<Rightarrow> ThinkingConfig option" where
  "normalizeThinkingConfig config =
     (case config of
        Some (JObj record) \<Rightarrow>
          (let budgetRaw = nullish_or (map_of record ''thinkingBudget'') (map_of record ''thinking_budget'');
               levelRaw = nullish_or (map_of record ''thinkingLevel'') (map_of record ''thinking_level'');
               includeRaw = nullish_or (map_of record ''includeThoughts'') (map_of record ''include_thoughts'');
               budget = (case budgetRaw of Some (JNum n) \<Rightarrow> Some n | _ \<Rightarrow> None);
               level = (case levelRaw of
                          Some (JStr s) \<Rightarrow> if length s > 0 then Some (toLowerCase s) else None
                        | _ \<Rightarrow> None);
               incl = (case includeRaw of Some (JBool b) \<Rightarrow> Some b | _ \<Rightarrow> None)
           in if budget = None \<and> level = None \<and> incl = None then None
              else Some \<lparr> thinkingBudget = budget, thinkingLevel = level,
                          includeThoughts = incl, include_thoughts = None \<rparr>)
      | _ \<Rightarrow> None)"

text \<open>The object a \<^verbatim>\<open>ThinkingConfig\<close> is when it is stored in the payload.\<close>

definition json_of_ThinkingConfig :: "ThinkingConfig \<Rightarrow> json" where
  "json_of_ThinkingConfig t =
     JObj ((case thinkingBudget t of Some n \<Rightarrow> [(''thinkingBudget'', JNum n)] | None \<Rightarrow> [])
         @ (case thinkingLevel t of Some s \<Rightarrow> [(''thinkingLevel'', JStr s)] | None \<Rightarrow> [])
         @ (case includeThoughts t of Some b \<Rightarrow> [(''includeThoughts'', JBool b)] | None \<Rightarrow> [])
         @ (case include_thoughts t of Some b \<Rightarrow> [(''include_thoughts'', JBool b)] | None \<Rightarrow> []))"

text \<open>
  \<^verbatim>\<open>generationConfig\<close>, with the fields the transformer reads at the types the source
  casts them to (\<^verbatim>\<open>number | undefined\<close> for the two output-token ceilings) and its
  other properties.
\<close>

record GenerationConfig =
  thinkingConfig :: "json option"
  maxOutputTokens :: "int option"
  max_output_tokens :: "int option"
  gc_other :: "(string \<times> json) list"

text \<open>Lines 240 to 255: the defaults of a thinking model.\<close>

definition thinking_defaults :: "ThinkingConfig option \<Rightarrow> ThinkingConfig" where
  "thinking_defaults normalizedThinking =
     (case normalizedThinking of
        None \<Rightarrow> \<lparr> thinkingBudget = Some 16384, thinkingLevel = None,
                  includeThoughts = None, include_thoughts = Some True \<rparr>
      | Some t \<Rightarrow>
          (let t1 = (if include_thoughts t = None then t\<lparr> include_thoughts := Some True \<rparr> else t)
           in if thinkingBudget t1 = None \<or> thinkingBudget t1 = Some 0
              then t1\<lparr> thinkingBudget := Some 16384 \<rparr> else t1))"

text \<open>A budget is truthy when it is defined and not zero.\<close>

definition truthy_number :: "int option \<Rightarrow> bool" where
  "truthy_number n = (case n of Some v \<Rightarrow> v \<noteq> 0 | None \<Rightarrow> False)"

definition finalThinkingConfig :: "ThinkingConfig \<Rightarrow> json" where
  "finalThinkingConfig t =
     JObj ((''include_thoughts'', JBool (case include_thoughts t of Some b \<Rightarrow> b | None \<Rightarrow> True))
           # (case thinkingBudget t of
                Some b \<Rightarrow> if b \<noteq> 0 then [(''thinking_budget'', JNum b)] else []
              | None \<Rightarrow> []))"

definition transformClaudeRequest_generationConfig ::
  "string \<Rightarrow> GenerationConfig option \<Rightarrow> GenerationConfig option" where
  "transformClaudeRequest_generationConfig model rawGenerationConfig =
     (let normalizedThinking =
            normalizeThinkingConfig
              (case rawGenerationConfig of Some g \<Rightarrow> thinkingConfig g | None \<Rightarrow> None);
          isThinkingModel = str_includes model ''-thinking'';
          generationConfig =
            (if isThinkingModel then
               (let t = thinking_defaults normalizedThinking;
                    final = finalThinkingConfig t;
                    budget = thinkingBudget t
                in case rawGenerationConfig of
                     Some g \<Rightarrow>
                       (let currentMax = (case maxOutputTokens g of
                                            Some v \<Rightarrow> Some v | None \<Rightarrow> max_output_tokens g)
                        in if truthy_number budget \<and>
                              (\<not> truthy_number currentMax \<or>
                               (case (currentMax, budget) of
                                  (Some mx, Some b) \<Rightarrow> mx \<le> b | _ \<Rightarrow> False))
                           then Some (g\<lparr> thinkingConfig := Some final,
                                          maxOutputTokens := Some 64000,
                                          max_output_tokens := None \<rparr>)
                           else Some (g\<lparr> thinkingConfig := Some final \<rparr>))
                   | None \<Rightarrow>
                       Some \<lparr> thinkingConfig = Some final,
                              maxOutputTokens = (if truthy_number budget then Some 64000 else None),
                              max_output_tokens = None, gc_other = [] \<rparr>)
             else
               (case normalizedThinking of
                  Some t \<Rightarrow>
                    (case rawGenerationConfig of
                       Some g \<Rightarrow> Some (g\<lparr> thinkingConfig := Some (json_of_ThinkingConfig t) \<rparr>)
                     | None \<Rightarrow> Some \<lparr> thinkingConfig = Some (json_of_ThinkingConfig t),
                                      maxOutputTokens = None, max_output_tokens = None,
                                      gc_other = [] \<rparr>)
                | None \<Rightarrow>
                    (case rawGenerationConfig of
                       Some g \<Rightarrow> if truthy (thinkingConfig g)
                                 then Some (g\<lparr> thinkingConfig := None \<rparr>) else Some g
                     | None \<Rightarrow> None)))
      in if model = ''gemini-claude-sonnet-4-5'' then
           (case generationConfig of
              Some g \<Rightarrow> if truthy (thinkingConfig g)
                        then Some (g\<lparr> thinkingConfig := None \<rparr>) else Some g
            | None \<Rightarrow> None)
         else generationConfig)"

text \<open>The output-token ceiling the backend sees, under either of its two names.\<close>

definition effective_max_output_tokens :: "GenerationConfig \<Rightarrow> int option" where
  "effective_max_output_tokens g =
     (case maxOutputTokens g of Some v \<Rightarrow> Some v | None \<Rightarrow> max_output_tokens g)"

text \<open>Two requests for a thinking model whose reasoning budget is not below 64000.\<close>

definition budget_64000_request :: GenerationConfig where
  "budget_64000_request =
     \<lparr> thinkingConfig = Some (JObj [(''thinkingBudget'', JNum 64000)]),
       maxOutputTokens = None, max_output_tokens = None, gc_other = [] \<rparr>"

definition budget_over_max_request :: GenerationConfig where
  "budget_over_max_request =
     \<lparr> thinkingConfig = Some (JObj [(''thinkingBudget'', JNum 100000)]),
       maxOutputTokens = Some 80000, max_output_tokens = None, gc_other = [] \<rparr>"

section \<open>Response normalizer (src/plugin/request-helpers.ts, src/plugin/request.ts)\<close>

subsection \<open>Strings\<close>

fun string_of_nat :: "nat \<Rightarrow> string" where
  "string_of_nat n =
     (if n < 10 then [char_of (48 + n)]
      else string_of_nat (n div 10) @ [char_of (48 + n mod 10)])"

declare string_of_nat.simps [simp del]

text \<open>\<^verbatim>\<open>String(n)\<close> for an integer \<open>n\<close>.\<close>

definition String_of_number :: "int \<Rightarrow> string" where
  "String_of_number n = (if n < 0 then ''-'' @ string_of_nat (nat (- n)) else string_of_nat (nat n))"

definition is_space :: "char \<Rightarrow> bool" where
  "is_space c = (c \<in> {CHR '' '', CHR 0x09, CHR 0x0A, CHR 0x0B, CHR 0x0C, CHR 0x0D})"

definition trim :: "string \<Rightarrow> string" where
  "trim s = rev (dropWhile is_space (rev (dropWhile is_space s)))"

text \<open>\<^verbatim>\<open>s.split("\n")\<close>.\<close>

fun split_lines :: "string \<Rightarrow> string list" where
  "split_lines [] = [[]]"
| "split_lines (c # cs) =
     (if c = CHR 0x0A then [] # split_lines cs
      else (case split_lines cs of l # ls \<Rightarrow> (c # l) # ls | [] \<Rightarrow> [[c]]))"

subsection \<open>Usage metadata\<close>

record GeminiUsageMetadata =
  totalTokenCount :: "int option"
  promptTokenCount :: "int option"
  candidatesTokenCount :: "int option"
  cachedContentTokenCount :: "int option"

text \<open>A value that is not \<^verbatim>\<open>null\<close> and whose \<^verbatim>\<open>typeof\<close> is \<^verbatim>\<open>"object"\<close>.\<close>

fun is_object :: "json \<Rightarrow> bool" where
  "is_object (JObj _) = True"
| "is_object (JArr _) = True"
| "is_object _ = False"

definition toNumber :: "json option \<Rightarrow> int option" where
  "toNumber v = (case v of Some (JNum n) \<Rightarrow> Some n | _ \<Rightarrow> None)"

definition extractUsageMetadata :: "json \<Rightarrow> GeminiUsageMetadata option" where
  "extractUsageMetadata body =
     (case field ''response'' body of
        Some response \<Rightarrow>
          if is_object response then
            (case field ''usageMetadata'' response of
               Some usage \<Rightarrow>
                 if is_object usage then
                   Some \<lparr> totalTokenCount = toNumber (field ''totalTokenCount'' usage),
                          promptTokenCount = toNumber (field ''promptTokenCount'' usage),
                          candidatesTokenCount = toNumber (field ''candidatesTokenCount'' usage),
                          cachedContentTokenCount = toNumber (field ''cachedContentTokenCount'' usage) \<rparr>
                 else None
             | None \<Rightarrow> None)
          else None
      | None \<Rightarrow> None)"

text \<open>
  \<^verbatim>\<open>JSON.parse\<close> is the parameter \<open>parse\<close>: \<open>None\<close> when it throws.
\<close>

definition parseGeminiApiBody :: "(string \<Rightarrow> json option) \<Rightarrow> string \<Rightarrow> json option" where
  "parseGeminiApiBody parse rawText =
     (case parse rawText of
        None \<Rightarrow> None
      | Some (JArr items) \<Rightarrow> find is_object items
      | Some (JObj kvs) \<Rightarrow> Some (JObj kvs)
      | Some _ \<Rightarrow> None)"

definition usage_of_sse_line :: "(string \<Rightarrow> json option) \<Rightarrow> string \<Rightarrow> GeminiUsageMetadata option" where
  "usage_of_sse_line parse line =
     (if \<not> startsWith line ''data:'' then None
      else
        let jsonText = trim (drop 5 line)
        in if jsonText = [] then None
           else
             (case parse jsonText of
                Some parsed \<Rightarrow>
                  if is_object parsed then
                    extractUsageMetadata
                      (JObj (case field ''response'' parsed of
                               Some r \<Rightarrow> [(''response'', r)] | None \<Rightarrow> []))
                  else None
              | None \<Rightarrow> None))"

fun first_usage :: "(string \<Rightarrow> json option) \<Rightarrow> string list \<Rightarrow> GeminiUsageMetadata option" where
  "first_usage parse [] = None"
| "first_usage parse (line # ls) =
     (case usage_of_sse_line parse line of
        Some usage \<Rightarrow> Some usage
      | None \<Rightarrow> first_usage parse ls)"

definition extractUsageFromSsePayload ::
  "(string \<Rightarrow> json option) \<Rightarrow> string \<Rightarrow> GeminiUsageMetadata option" where
  "extractUsageFromSsePayload parse payload = first_usage parse (split_lines payload)"

subsection \<open>Error rewriting\<close>

text \<open>The own enumerable properties a spread \<^verbatim>\<open>{...v}\<close> copies.\<close>

fun spread :: "json \<Rightarrow> (string \<times> json) list" where
  "spread (JObj kvs) = kvs"
| "spread (JArr xs) = map (\<lambda>(i, x). (string_of_nat i, x)) (enumerate 0 xs)"
| "spread (JStr s) = map (\<lambda>(i, c). (string_of_nat i, JStr [c])) (enumerate 0 s)"
| "spread _ = []"

text \<open>\<^verbatim>\<open>body.error ?? {}\<close>.\<close>

definition error_of :: "json \<Rightarrow> json" where
  "error_of body = (case nullish_or (field ''error'' body) None of Some e \<Rightarrow> e | None \<Rightarrow> JObj [])"

text \<open>The test of \<^verbatim>\<open>/gemini[\s-]?3/i\<close>, on the characters of ASCII.\<close>

definition gemini3_here :: "string \<Rightarrow> bool" where
  "gemini3_here s =
     (toLowerCase (take 6 s) = ''gemini'' \<and>
      (case drop 6 s of
         [] \<Rightarrow> False
       | c # rest \<Rightarrow>
           c = CHR ''3'' \<or>
           ((is_space c \<or> c = CHR ''-'') \<and> (case rest of [] \<Rightarrow> False | d # _ \<Rightarrow> d = CHR ''3''))))"

fun matches_gemini3 :: "string \<Rightarrow> bool" where
  "matches_gemini3 [] = False"
| "matches_gemini3 (c # cs) = (gemini3_here (c # cs) \<or> matches_gemini3 cs)"

definition isGeminiThreeModel :: "string option \<Rightarrow> bool" where
  "isGeminiThreeModel target =
     (case target of None \<Rightarrow> False | Some s \<Rightarrow> s \<noteq> [] \<and> matches_gemini3 s)"

definition needsPreviewAccessOverride :: "int \<Rightarrow> json \<Rightarrow> string option \<Rightarrow> bool" where
  "needsPreviewAccessOverride status body requestedModel =
     (if status \<noteq> 404 then False
      else if isGeminiThreeModel requestedModel then True
      else
        isGeminiThreeModel
          (Some (if truthy (field ''error'' body) then
                   (case field ''message'' (error_of body) of Some (JStr m) \<Rightarrow> m | _ \<Rightarrow> [])
                 else [])))"

definition GEMINI_PREVIEW_LINK :: string where
  "GEMINI_PREVIEW_LINK = ''https://goo.gle/enable-preview-features''"

definition rewriteGeminiPreviewAccessError :: "json \<Rightarrow> int \<Rightarrow> string option \<Rightarrow> json option" where
  "rewriteGeminiPreviewAccessError body status requestedModel =
     (if \<not> needsPreviewAccessOverride status body requestedModel then None
      else
        let error = error_of body;
            trimmedMessage = (case field ''message'' error of Some (JStr m) \<Rightarrow> trim m | _ \<Rightarrow> []);
            messagePrefix =
              (if length trimmedMessage > 0 then trimmedMessage
               else ''Gemini 3 preview features are not enabled for this account.'');
            enhancedMessage =
              messagePrefix @ '' Request preview access at '' @ GEMINI_PREVIEW_LINK
                @ '' before using Gemini 3 models.''
        in Some (JObj (AList.update ''error''
                   (JObj (AList.update ''message'' (JStr enhancedMessage) (spread error)))
                   (spread body))))"

definition rewriteGeminiRateLimitError :: "json \<Rightarrow> json option" where
  "rewriteGeminiRateLimitError body =
     (let error = error_of body;
          isRateLimit = (field ''code'' error = Some (JNum 429)
                         \<or> field ''status'' error = Some (JStr ''RESOURCE_EXHAUSTED''))
      in if \<not> isRateLimit then None
         else
           let message =
                 (case nullish_or (field ''message'' error) None of
                    Some m \<Rightarrow> m
                  | None \<Rightarrow> JStr ''You have exhausted your capacity on this model. Please try again later.'')
           in Some (JObj (AList.update ''error''
                      (JObj (AList.update ''message'' message (spread error)))
                      (spread body))))"

subsection \<open>transformAntigravityResponse\<close>

text \<open>
  A response as the normalizer reads it: status, headers (names in lower case, as
  \<^verbatim>\<open>Headers\<close> keeps them), the text of the body, and whether \<^verbatim>\<open>response.body\<close> is a
  stream. The body of the result is the body of the given response, a text, the
  \<^verbatim>\<open>JSON.stringify\<close> of a value, the text rewritten line by line by
  \<^verbatim>\<open>transformStreamingPayload\<close>, or the piped stream of the streaming path.
\<close>

record http_response =
  resp_status :: int
  resp_headers :: "(string \<times> string) list"
  resp_text :: string
  resp_has_body :: bool

datatype response_body =
    OriginalBody
  | TextBody string
  | JsonBody json
  | RewrittenSsePayload string
  | SseStream

record normalized_response =
  out_status :: int
  out_headers :: "(string \<times> string) list"
  out_body :: response_body

definition response_ok :: "http_response \<Rightarrow> bool" where
  "response_ok r = (200 \<le> resp_status r \<and> resp_status r \<le> 299)"

definition passthrough :: "http_response \<Rightarrow> normalized_response" where
  "passthrough r =
     \<lparr> out_status = resp_status r, out_headers = resp_headers r, out_body = OriginalBody \<rparr>"

text \<open>
  Lines 396 to 419 walk \<^verbatim>\<open>parsed.response.candidates\<close> to cache reasoning signatures.
  The walk writes to the signature cache only; what matters for the response is whether it
  throws: \<^verbatim>\<open>forEach\<close> called on a value that is no array, or a property read on
  \<^verbatim>\<open>null\<close>.
\<close>

definition candidate_throws :: "json \<Rightarrow> bool" where
  "candidate_throws candidate =
     (candidate = JNull \<or>
      (case nullish_or (field ''content'' candidate) None of
         None \<Rightarrow> False
       | Some content \<Rightarrow>
           (case field ''parts'' content of
              Some (JArr ps) \<Rightarrow> JNull \<in> set ps
            | ps \<Rightarrow> truthy ps)))"

definition caching_throws :: "json \<Rightarrow> bool" where
  "caching_throws parsed =
     (case nullish_or (field ''response'' parsed) None of
        None \<Rightarrow> False
      | Some responseBody \<Rightarrow>
          (case field ''candidates'' responseBody of
             Some (JArr cs) \<Rightarrow> list_ex candidate_throws cs
           | cs \<Rightarrow> truthy cs))"

text \<open>Lines 438 to 450: the usage headers.\<close>

definition set_header :: "string \<Rightarrow> int option \<Rightarrow> (string \<times> string) list \<Rightarrow> (string \<times> string) list" where
  "set_header name v hs =
     (case v of Some n \<Rightarrow> AList.update name (String_of_number n) hs | None \<Rightarrow> hs)"

definition usage_headers ::
  "GeminiUsageMetadata option \<Rightarrow> (string \<times> string) list \<Rightarrow> (string \<times> string) list" where
  "usage_headers usage hs =
     (case usage of
        None \<Rightarrow> hs
      | Some u \<Rightarrow>
          (case cachedContentTokenCount u of
             None \<Rightarrow> hs
           | Some cached \<Rightarrow>
               set_header ''x-gemini-candidates-token-count'' (candidatesTokenCount u)
                 (set_header ''x-gemini-prompt-token-count'' (promptTokenCount u)
                   (set_header ''x-gemini-total-token-count'' (totalTokenCount u)
                     (set_header ''x-gemini-cached-content-token-count'' (Some cached) hs)))))"

text \<open>
  The function. \<open>toast_fails\<close> says that \<^verbatim>\<open>client.tui.showToast\<close> rejects when it is
  awaited; any exception inside the \<^verbatim>\<open>try\<close> block makes the function return the response
  it was given.
\<close>

definition transformAntigravityResponse ::
  "(string \<Rightarrow> json option) \<Rightarrow> bool \<Rightarrow> http_response \<Rightarrow> bool \<Rightarrow> string option \<Rightarrow> string option
     \<Rightarrow> normalized_response" where
  "transformAntigravityResponse parse toast_fails response streaming requestedModel sessionId =
     (let contentType = (case map_of (resp_headers response) ''content-type'' of
                           Some v \<Rightarrow> v | None \<Rightarrow> []);
          isJsonResponse = str_includes contentType ''application/json'';
          isEventStreamResponse = str_includes contentType ''text/event-stream''
      in if \<not> isJsonResponse \<and> \<not> isEventStreamResponse then passthrough response
         else if streaming \<and> response_ok response \<and> isEventStreamResponse \<and> resp_has_body response
         then \<lparr> out_status = resp_status response, out_headers = resp_headers response,
                out_body = SseStream \<rparr>
         else
           let text = resp_text response;
               usageFromSse = (if streaming \<and> isEventStreamResponse
                               then extractUsageFromSsePayload parse text else None);
               parsed = parseGeminiApiBody parse text
           in if (case sessionId of Some sid \<Rightarrow> sid \<noteq> [] | None \<Rightarrow> False)
                 \<and> (case parsed of Some p \<Rightarrow> caching_throws p | None \<Rightarrow> False)
              then passthrough response
              else
                let previewErrorFixed =
                      (case parsed of
                         Some p \<Rightarrow> rewriteGeminiPreviewAccessError p (resp_status response) requestedModel
                       | None \<Rightarrow> None);
                    rateLimitErrorFixed =
                      (case parsed of
                         Some p \<Rightarrow> if previewErrorFixed = None then rewriteGeminiRateLimitError p else None
                       | None \<Rightarrow> None);
                    patched = (case previewErrorFixed of Some p \<Rightarrow> Some p | None \<Rightarrow> rateLimitErrorFixed);
                    effectiveBody = (case patched of Some p \<Rightarrow> Some p | None \<Rightarrow> parsed);
                    usage = (case usageFromSse of
                               Some u \<Rightarrow> Some u
                             | None \<Rightarrow> (case effectiveBody of
                                           Some b \<Rightarrow> extractUsageMetadata b | None \<Rightarrow> None));
                    headers = usage_headers usage (resp_headers response)
                in if patched \<noteq> None \<and> toast_fails then passthrough response
                   else
                     \<lparr> out_status = resp_status response,
                       out_headers = headers,
                       out_body =
                         (if streaming \<and> response_ok response \<and> isEventStreamResponse
                          then RewrittenSsePayload text
                          else case parsed of
                                 None \<Rightarrow> TextBody text
                               | Some p \<Rightarrow>
                                   (case (case effectiveBody of
                                            Some b \<Rightarrow> field ''response'' b | None \<Rightarrow> None) of
                                      Some r \<Rightarrow> JsonBody r
                                    | None \<Rightarrow>
                                        (case patched of
                                           Some pb \<Rightarrow> JsonBody pb
                                         | None \<Rightarrow> TextBody text))) \<rparr>)"

text \<open>
  The usage record of a \<^verbatim>\<open>usageMetadata\<close> object, and the value a usage header has
  after the normalizer ran: the count as a decimal string when the cached-content count and
  the count itself are numbers, else the value the response came with.
\<close>

definition usage_of_object :: "(string \<times> json) list \<Rightarrow> GeminiUsageMetadata" where
  "usage_of_object u =
     \<lparr> totalTokenCount = toNumber (map_of u ''totalTokenCount''),
       promptTokenCount = toNumber (map_of u ''promptTokenCount''),
       candidatesTokenCount = toNumber (map_of u ''candidatesTokenCount''),
       cachedContentTokenCount = toNumber (map_of u ''cachedContentTokenCount'') \<rparr>"

definition count_header ::
  "int option \<Rightarrow> int option \<Rightarrow> string option \<Rightarrow> string option" where
  "count_header cached count original =
     (case cached of
        None \<Rightarrow> original
      | Some _ \<Rightarrow> (case count of Some n \<Rightarrow> Some (String_of_number n) | None \<Rightarrow> original))"

text \<open>Two JSON responses; \<open>example_parse\<close> maps the text of each body to its value.\<close>

definition usage_without_cached :: json where
  "usage_without_cached = JObj [(''response'', JObj [(''usageMetadata'',
      JObj [(''totalTokenCount'', JNum 10), (''promptTokenCount'', JNum 4),
            (''candidatesTokenCount'', JNum 6)])])]"

definition usage_with_cached :: json where
  "usage_with_cached = JObj [(''response'', JObj [(''usageMetadata'',
      JObj [(''totalTokenCount'', JNum 10), (''cachedContentTokenCount'', JNum 3)])])]"

definition example_parse :: "string \<Rightarrow> json option" where
  "example_parse t =
     (if t = ''body without cached count'' then Some usage_without_cached
      else if t = ''body with cached count'' then Some usage_with_cached
      else None)"

definition json_response :: "string \<Rightarrow> http_response" where
  "json_response t =
     \<lparr> resp_status = 200, resp_headers = [(''content-type'', ''application/json'')],
       resp_text = t, resp_has_body = True \<rparr>"

section \<open>The orchestrator (src/plugin/fetch-wrapper.ts)\<close>

subsection \<open>Retry-after headers and backoff\<close>

text \<open>
  \<^verbatim>\<open>parseInt(s, 10)\<close>: leading white space, an optional sign, then the longest run of
  decimal digits; \<open>None\<close> is \<^verbatim>\<open>NaN\<close>.
\<close>

definition digits_value :: "string \<Rightarrow> nat" where
  "digits_value ds = foldl (\<lambda>a c. 10 * a + (of_char c - 48)) 0 ds"

definition parseInt10 :: "string \<Rightarrow> int option" where
  "parseInt10 s =
     (let s1 = dropWhile is_space s;
          negative = (case s1 of c # _ \<Rightarrow> c = CHR ''-'' | [] \<Rightarrow> False);
          s2 = (case s1 of c # rest \<Rightarrow> if c = CHR ''-'' \<or> c = CHR ''+'' then rest else s1 | [] \<Rightarrow> s1);
          ds = takeWhile is_digit s2
      in if ds = [] then None
         else Some (if negative then - int (digits_value ds) else int (digits_value ds)))"

definition parseRetryAfterMs :: "http_response \<Rightarrow> int" where
  "parseRetryAfterMs response =
     (let retryAfterMsHeader = map_of (resp_headers response) ''retry-after-ms'';
          retryAfterSecondsHeader = map_of (resp_headers response) ''retry-after''
      in case retryAfterMsHeader of
           Some (c # cs) \<Rightarrow>
             (case parseInt10 (c # cs) of Some parsed \<Rightarrow> parsed | None \<Rightarrow> 60000)
         | _ \<Rightarrow>
             (case retryAfterSecondsHeader of
                Some (c # cs) \<Rightarrow>
                  (case parseInt10 (c # cs) of Some parsed \<Rightarrow> parsed * 1000 | None \<Rightarrow> 60000)
              | _ \<Rightarrow> 60000))"

text \<open>
  What the orchestrator does to the world outside the account pool: it reads the clock,
  sleeps and fetches. \<open>sleeps\<close> lists every wait in order and \<open>attempts\<close> the endpoint of
  every fetch in order. The clock advances while the orchestrator sleeps. The abort signal
  is not raised in the runs modelled here.
\<close>

record world =
  clock :: int
  sleeps :: "int list"
  attempts :: "string list"
  refreshes :: nat

definition sleep :: "int \<Rightarrow> world \<Rightarrow> world" where
  "sleep ms w = w\<lparr> clock := clock w + ms, sleeps := sleeps w @ [ms] \<rparr>"

text \<open>The waits of \<^verbatim>\<open>sleepWithBackoff\<close>: the loop over \<^verbatim>\<open>remainingMs\<close> and \<^verbatim>\<open>stepIndex\<close>.\<close>

definition stepsMs :: "int list" where
  "stepsMs = [3000, 5000, 10000, 20000, 30000]"

function backoff_waits :: "int \<Rightarrow> nat \<Rightarrow> int list" where
  "backoff_waits remainingMs stepIndex =
     (if remainingMs > 0 then
        (let stepMs = (if stepIndex < length stepsMs then stepsMs ! stepIndex else 30000);
             waitMs = min remainingMs stepMs
         in waitMs # backoff_waits (remainingMs - waitMs) (stepIndex + 1))
      else [])"
  by pat_completeness auto
termination
proof (relation "measure (\<lambda>(remainingMs, stepIndex). nat remainingMs)")
  show "wf (measure (\<lambda>(remainingMs, stepIndex). nat remainingMs))" by simp
next
  fix remainingMs :: int and stepIndex :: nat and x xa
  assume pos: "0 < remainingMs"
    and x: "x = (if stepIndex < length stepsMs then stepsMs ! stepIndex else 30000)"
    and xa: "xa = min remainingMs x"
  have "0 < x"
  proof (cases "stepIndex < length stepsMs")
    case True
    then have "stepIndex \<in> {0, 1, 2, 3, 4}" by (auto simp add: stepsMs_def)
    then show ?thesis using x True by (auto simp add: stepsMs_def)
  next
    case False
    then show ?thesis using x by simp
  qed
  then have "0 < xa" using pos xa by simp
  then show "((remainingMs - xa, stepIndex + 1), (remainingMs, stepIndex))
               \<in> measure (\<lambda>(remainingMs, stepIndex). nat remainingMs)"
    using pos by simp
qed

declare backoff_waits.simps [simp del]

definition sleepWithBackoff :: "int \<Rightarrow> world \<Rightarrow> world" where
  "sleepWithBackoff totalMs w = fold sleep (backoff_waits (max 0 totalMs) 0) w"

subsection \<open>One attempt against the endpoint list\<close>

definition CODE_ASSIST_ENDPOINT_FALLBACKS :: "string list" where
  "CODE_ASSIST_ENDPOINT_FALLBACKS =
     [''https://daily-cloudcode-pa.sandbox.googleapis.com'',
      ''https://autopush-cloudcode-pa.sandbox.googleapis.com'',
      ''https://cloudcode-pa.googleapis.com'']"

datatype fetch_result = Responded http_response | FetchThrew

datatype thrown = FetchError | ToastError | AllEndpointsFailed

text \<open>
  \<^verbatim>\<open>EndpointLoopResult\<close>. The attempt info kept with a response is the endpoint the
  request went to.
\<close>

datatype EndpointLoopResult =
    Success http_response string
  | RateLimit int
  | RetrySoon
  | AllFailedResponse http_response "string option"
  | AllFailedError

text \<open>
  The collaborators of one logical call: \<open>env_net e n endpoint\<close> is the outcome of the
  fetch number \<open>n\<close> of the call when it goes to \<open>endpoint\<close>; \<open>env_token_expired\<close> is
  \<^verbatim>\<open>accessTokenExpired\<close> (in \<^verbatim>\<open>auth.ts\<close>) on the auth record of an account at a clock
  reading; \<open>env_refresh e n\<close> is what the refresh number \<open>n\<close> returns (access token,
  expiry and refresh parts, or nothing); \<open>env_toast_fails\<close> says that showing a toast
  rejects.
\<close>

record env =
  env_net :: "nat \<Rightarrow> string \<Rightarrow> fetch_result"
  env_token_expired :: "ManagedAccount \<Rightarrow> int \<Rightarrow> bool"
  env_refresh :: "nat \<Rightarrow> (string option \<times> int option \<times> RefreshParts) option"
  env_toast_fails :: bool

text \<open>
  \<^verbatim>\<open>handleRateLimit\<close>. The account is the position \<open>p\<close> of the account object in the
  pool; \<open>accountCount\<close> is the count taken when the call started. The toasts and the save of
  the pool are wrapped in \<^verbatim>\<open>try\<close> and change neither the pool nor the world modelled here;
  for a single account the response is also passed through the normalizer, whose result is
  dropped.
\<close>

definition switchThresholdMs :: int where
  "switchThresholdMs = 5000"

definition handleRateLimit ::
  "http_response \<Rightarrow> nat \<Rightarrow> AccountManager \<Rightarrow> int \<Rightarrow> world
     \<Rightarrow> EndpointLoopResult \<times> AccountManager \<times> world" where
  "handleRateLimit response p m accountCount w =
     (let retryAfterMs = parseRetryAfterMs response
      in if accountCount = 1 then
           (RateLimit retryAfterMs, markRateLimited (clock w) p retryAfterMs m, w)
         else if retryAfterMs \<le> switchThresholdMs then
           (RetrySoon, m, sleepWithBackoff retryAfterMs w)
         else
           (RateLimit retryAfterMs, markRateLimited (clock w) p retryAfterMs m, w))"

text \<open>
  \<^verbatim>\<open>handleServerError\<close>: its toast is awaited outside any \<^verbatim>\<open>try\<close>, so a failing toast
  leaves the function by the exception.
\<close>

definition handleServerError ::
  "env \<Rightarrow> nat \<Rightarrow> AccountManager \<Rightarrow> int \<Rightarrow> world
     \<Rightarrow> thrown + (EndpointLoopResult \<times> AccountManager \<times> world)" where
  "handleServerError e p m accountCount w =
     (let retryAfterMs = 60000;
          m' = markRateLimited (clock w) p retryAfterMs m
      in if accountCount > 1 \<and> env_toast_fails e then Inl ToastError
         else Inr (RateLimit retryAfterMs, m', w))"

definition shouldRetryEndpoint :: "http_response \<Rightarrow> bool" where
  "shouldRetryEndpoint response =
     (resp_status response = 403 \<or> resp_status response = 404 \<or> resp_status response \<ge> 500)"

text \<open>
  The loop of \<^verbatim>\<open>tryEndpointFallbacks\<close> over the endpoints still to be tried; the current
  endpoint is the last one when no endpoint follows it. \<open>lastResponse\<close> and
  \<open>lastAttemptInfo\<close> are the variables of that name.
\<close>

fun tryEndpoints ::
  "env \<Rightarrow> string list \<Rightarrow> nat \<Rightarrow> int \<Rightarrow> http_response option \<Rightarrow> string option
     \<Rightarrow> AccountManager \<Rightarrow> world \<Rightarrow> thrown + (EndpointLoopResult \<times> AccountManager \<times> world)" where
  "tryEndpoints e [] p accountCount lastResponse lastAttemptInfo m w =
     (case lastResponse of
        Some response \<Rightarrow> Inr (AllFailedResponse response lastAttemptInfo, m, w)
      | None \<Rightarrow> Inr (AllFailedError, m, w))"
| "tryEndpoints e (currentEndpoint # rest) p accountCount lastResponse lastAttemptInfo m w =
     (if currentEndpoint = [] then
        tryEndpoints e rest p accountCount lastResponse lastAttemptInfo m w
      else
        let w1 = w\<lparr> attempts := attempts w @ [currentEndpoint] \<rparr>
        in case env_net e (length (attempts w)) currentEndpoint of
             FetchThrew \<Rightarrow>
               if rest \<noteq> [] then
                 tryEndpoints e rest p accountCount lastResponse (Some currentEndpoint) m w1
               else Inl FetchError
           | Responded response \<Rightarrow>
               if resp_status response = 429 then
                 Inr (handleRateLimit response p m accountCount w1)
               else if resp_status response \<ge> 500 \<and> rest = [] then
                 handleServerError e p m accountCount w1
               else if shouldRetryEndpoint response \<and> rest \<noteq> [] then
                 tryEndpoints e rest p accountCount (Some response) (Some currentEndpoint) m w1
               else Inr (Success response currentEndpoint, m, w1))"

definition tryEndpointFallbacks ::
  "env \<Rightarrow> nat \<Rightarrow> int \<Rightarrow> AccountManager \<Rightarrow> world
     \<Rightarrow> thrown + (EndpointLoopResult \<times> AccountManager \<times> world)" where
  "tryEndpointFallbacks e p accountCount m w =
     tryEndpoints e CODE_ASSIST_ENDPOINT_FALLBACKS p accountCount None None m w"

subsection \<open>The loop of createAntigravityFetch\<close>

definition updateAccount ::
  "nat \<Rightarrow> string option \<Rightarrow> int option \<Rightarrow> RefreshParts \<Rightarrow> AccountManager \<Rightarrow> AccountManager" where
  "updateAccount p acc_access acc_expires acc_parts m =
     m\<lparr> accounts := (accounts m)[p := (accounts m ! p)
           \<lparr> access := acc_access, expires := acc_expires, parts := acc_parts \<rparr>] \<rparr>"

text \<open>\<^verbatim>\<open>a || b\<close> on numbers: the right operand when the left one is zero.\<close>

definition or_number :: "int \<Rightarrow> int \<Rightarrow> int" where
  "or_number a b = (if a = 0 then b else a)"

text \<open>
  Lines 381 to 426 of one iteration: the previous account, the sticky selection and, on a
  switch, \<^verbatim>\<open>markSwitched\<close>. \<^verbatim>\<open>previousAccount\<close> is a reference taken before the selection
  and read after it.
\<close>

definition select_account :: "AccountManager \<Rightarrow> world \<Rightarrow> nat option \<times> AccountManager" where
  "select_account m w =
     (let previousAccount = getCurrentAccount m
      in case getCurrentOrNext (clock w) m of
           (None, m1) \<Rightarrow> (None, m1)
         | (Some p, m1) \<Rightarrow>
             (let isSwitch = (case previousAccount of
                                None \<Rightarrow> True
                              | Some q \<Rightarrow> index (accounts m1 ! q) \<noteq> index (accounts m1 ! p))
              in if isSwitch then
                   (let switchReason =
                          (case previousAccount of
                             Some q \<Rightarrow> if isRateLimited (accounts m1 ! q)
                                       then RateLimitReason else RotationReason
                           | None \<Rightarrow> InitialReason)
                    in (Some p, markSwitched p switchReason m1))
                 else (Some p, m1)))"

datatype loop_outcome =
    Returned http_response AccountManager world
  | Threw thrown world
  | OutOfFuel

text \<open>
  The \<^verbatim>\<open>while (true)\<close> loop, with fuel: one unit for each iteration. A run that is out
  of fuel has not returned. A returned response is the one handed to
  \<^verbatim>\<open>transformAntigravityResponse\<close>.
\<close>

fun fetch_loop :: "env \<Rightarrow> int \<Rightarrow> nat \<Rightarrow> AccountManager \<Rightarrow> world \<Rightarrow> loop_outcome" where
  "fetch_loop e accountCount 0 m w = OutOfFuel"
| "fetch_loop e accountCount (Suc fuel) m w =
     (case select_account m w of
        (None, m1) \<Rightarrow>
          (let waitTimeMs = or_number (getMinWaitTime (clock w) m1) 60000
           in fetch_loop e accountCount fuel m1 (sleepWithBackoff waitTimeMs w))
      | (Some p, m2) \<Rightarrow>
          (let refreshed =
                 (if env_token_expired e (accounts m2 ! p) (clock w)
                  then Some (env_refresh e (refreshes w)) else None);
               w1 = (if refreshed = None then w else w\<lparr> refreshes := refreshes w + 1 \<rparr>)
           in case refreshed of
                Some None \<Rightarrow> fetch_loop e accountCount fuel m2 w1
              | _ \<Rightarrow>
                  (let m3 = (case refreshed of
                               Some (Some (a, x, ps)) \<Rightarrow> updateAccount p a x ps m2
                             | _ \<Rightarrow> m2);
                       accessToken = access (accounts m3 ! p)
                   in if accessToken = None \<or> accessToken = Some [] then
                        fetch_loop e accountCount fuel m3 w1
                      else
                        (case tryEndpointFallbacks e p accountCount m3 w1 of
                           Inl t \<Rightarrow> Threw t w1
                         | Inr (RetrySoon, m4, w2) \<Rightarrow> fetch_loop e accountCount fuel m4 w2
                         | Inr (RateLimit retryAfterMs, m4, w2) \<Rightarrow>
                             if accountCount = 1 then
                               fetch_loop e accountCount fuel m4
                                 (sleepWithBackoff
                                    (or_number retryAfterMs
                                       (or_number (getMinWaitTime (clock w2) m4) 1000)) w2)
                             else fetch_loop e accountCount fuel m4 w2
                         | Inr (Success response info, m4, w2) \<Rightarrow> Returned response m4 w2
                         | Inr (AllFailedResponse response (Some info), m4, w2) \<Rightarrow>
                             Returned response m4 w2
                         | Inr (AllFailedResponse response None, m4, w2) \<Rightarrow>
                             Threw AllEndpointsFailed w2
                         | Inr (AllFailedError, m4, w2) \<Rightarrow> Threw AllEndpointsFailed w2))))"

subsection \<open>Example runs\<close>

text \<open>
  What a run returned and the world it left; a pool of two stored accounts with the first
  one active; responses with a status and headers; and three upstream behaviours, given by
  the number of the fetch: 404, 404, then 200; 404, then 429 with
  \<^verbatim>\<open>retry-after-ms: 1000\<close>, then 200; 429 with \<^verbatim>\<open>retry-after: 120\<close>, then 200.
\<close>

fun outcome_response :: "loop_outcome \<Rightarrow> http_response option" where
  "outcome_response (Returned response m w) = Some response"
| "outcome_response _ = None"

fun outcome_world :: "loop_outcome \<Rightarrow> world option" where
  "outcome_world (Returned response m w) = Some w"
| "outcome_world (Threw t w) = Some w"
| "outcome_world OutOfFuel = None"

definition pool_ab :: AccountManager where
  "pool_ab = new_AccountManager example_auth
     (Some \<lparr> st_accounts = [example_metadata ''a'', example_metadata ''b''], st_activeIndex = 0 \<rparr>)
     [] example_parts"

definition status_response :: "int \<Rightarrow> (string \<times> string) list \<Rightarrow> http_response" where
  "status_response st hs =
     \<lparr> resp_status = st, resp_headers = hs, resp_text = [], resp_has_body = True \<rparr>"

definition start_world :: world where
  "start_world = \<lparr> clock = 1000, sleeps = [], attempts = [], refreshes = 0 \<rparr>"

definition env_404_404_200 :: env where
  "env_404_404_200 =
     \<lparr> env_net = (\<lambda>n endpoint. Responded (status_response (if n < 2 then 404 else 200) [])),
       env_token_expired = (\<lambda>a now. False),
       env_refresh = (\<lambda>n. None),
       env_toast_fails = False \<rparr>"

definition env_404_429_200 :: env where
  "env_404_429_200 =
     \<lparr> env_net = (\<lambda>n endpoint.
          Responded (if n = 0 then status_response 404 []
                     else if n = 1 then status_response 429 [(''retry-after-ms'', ''1000'')]
                     else status_response 200 [])),
       env_token_expired = (\<lambda>a now. False),
       env_refresh = (\<lambda>n. None),
       env_toast_fails = False \<rparr>"

definition env_429_long :: env where
  "env_429_long =
     \<lparr> env_net = (\<lambda>n endpoint.
          Responded (if n = 0 then status_response 429 [(''retry-after'', ''120'')]
                     else status_response 200 [])),
       env_token_expired = (\<lambda>a now. False),
       env_refresh = (\<lambda>n. None),
       env_toast_fails = False \<rparr>"

definition selected_pool :: AccountManager where
  "selected_pool = snd (select_account pool_ab start_world)"

section \<open>Theorems\<close>

subsection \<open>Tool names\<close>

lemma t_not_digit: "\<not> is_digit CHR ''t''" by (simp add: is_digit_def)

lemma sanitize_idem: "sanitizeToolNameForGemini (sanitizeToolNameForGemini n) = sanitizeToolNameForGemini n"
  by (simp add: sanitizeToolNameForGemini_def starts_with_digit_def t_not_digit)

lemma digit_tail: "is_digit c \<Longrightarrow> name_tail_char c" by (simp add: name_tail_char_def)
lemma digit_not_head: "is_digit c \<Longrightarrow> \<not> name_head_char c"
  by (auto simp add: name_head_char_def is_digit_def is_letter_def)
lemma head_tail: "name_head_char c \<Longrightarrow> name_tail_char c"
  by (auto simp: name_head_char_def name_tail_char_def)
lemma tail_cases: "name_tail_char c \<Longrightarrow> c \<noteq> CHR ''-'' \<Longrightarrow> \<not> is_digit c \<Longrightarrow> name_head_char c"
  by (auto simp: name_head_char_def name_tail_char_def)
lemma dash_not_head: "\<not> name_head_char CHR ''-''"
  by (simp add: name_head_char_def is_letter_def)
lemma t_head: "name_head_char CHR ''t''"   by (simp add: name_head_char_def is_letter_def)
lemma us_tail: "name_tail_char CHR ''_''"   by (simp add: name_tail_char_def)

text \<open>
  Claim C7, amended. Sanitizing a tool name twice gives the same result as sanitizing it
  once; a name that begins with a digit gets the prefix \<^verbatim>\<open>t_\<close>; any other name is
  returned unchanged; and the result matches \<^verbatim>\<open>^[A-Za-z_][A-Za-z0-9_-]*$\<close> exactly when
  the name is non-empty, consists of letters, digits, underscores and hyphens only, and does
  not begin with a hyphen.
\<close>

theorem sanitize_amended:
  "sanitizeToolNameForGemini (sanitizeToolNameForGemini n) = sanitizeToolNameForGemini n
   \<and> (starts_with_digit n \<longrightarrow> sanitizeToolNameForGemini n = ''t_'' @ n)
   \<and> (\<not> starts_with_digit n \<longrightarrow> sanitizeToolNameForGemini n = n)
   \<and> (matches_tool_name_pattern (sanitizeToolNameForGemini n)
        = (n \<noteq> [] \<and> list_all name_tail_char n \<and> hd n \<noteq> CHR ''-''))"
proof -
  have m: "matches_tool_name_pattern (sanitizeToolNameForGemini n)
        = (n \<noteq> [] \<and> list_all name_tail_char n \<and> hd n \<noteq> CHR ''-'')"
  proof (cases n)
    case Nil
    then show ?thesis by (simp add: sanitizeToolNameForGemini_def starts_with_digit_def matches_tool_name_pattern_def)
  next
    case (Cons c cs)
    show ?thesis
    proof (cases "is_digit c")
      case True
      then show ?thesis using Cons digit_tail[OF True] True
        by (auto simp add: sanitizeToolNameForGemini_def starts_with_digit_def matches_tool_name_pattern_def
            t_head us_tail is_digit_def)
    next
      case False
      then show ?thesis using Cons
        by (auto simp add: sanitizeToolNameForGemini_def starts_with_digit_def matches_tool_name_pattern_def
             head_tail dash_not_head tail_cases)
    qed
  qed
  show ?thesis using m sanitize_idem by (simp add: sanitizeToolNameForGemini_def)
qed

theorem sanitize_amended_witness: "starts_with_digit ''1tool'' \<and> sanitizeToolNameForGemini ''1tool'' = ''t_'' @ ''1tool''
   \<and> \<not> starts_with_digit ''read'' \<and> sanitizeToolNameForGemini ''read'' = ''read''"
proof -
  have d: "starts_with_digit ''1tool''" by (simp add: starts_with_digit_def is_digit_def)
  have e: "\<not> starts_with_digit ''read''" by (simp add: starts_with_digit_def is_digit_def)
  from d e sanitize_amended[of "''1tool''"] sanitize_amended[of "''read''"] show ?thesis by blast
qed

text \<open>
  The name \<^verbatim>\<open>a b\<close> does not begin with a digit, is returned unchanged, and does not match
  the pattern.
\<close>

theorem sanitize_pattern_counterexample: "\<not> starts_with_digit ''a b'' \<and> sanitizeToolNameForGemini ''a b'' = ''a b''
  \<and> \<not> matches_tool_name_pattern (sanitizeToolNameForGemini ''a b'')"
  by (simp add: sanitizeToolNameForGemini_def starts_with_digit_def matches_tool_name_pattern_def
    is_digit_def name_tail_char_def name_head_char_def is_letter_def)

subsection \<open>Account pool\<close>

lemma clear_expired_id: "\<not> isRateLimited a \<Longrightarrow> clear_expired now a = a"
  by (simp add: clear_expired_def)

lemma map_clear_expired_id:
  "list_all (\<lambda>a. \<not> isRateLimited a) as \<Longrightarrow> map (clear_expired now) as = as"
  by (induction as) (simp_all add: clear_expired_id)

lemma available_all:
  "list_all (\<lambda>a. \<not> isRateLimited a) as \<Longrightarrow> available_positions as = [0..<length as]"
  unfolding available_positions_def
  by (rule filter_True) (simp add: list_all_length)

lemma js_rem_nonneg: "0 \<le> a \<Longrightarrow> 0 < b \<Longrightarrow> js_rem a b = a mod b"
  by (cases "a = 0") (simp_all add: js_rem_def)

lemma getNext_none_limited:
  assumes nl: "none_limited m" and ne: "accounts m \<noteq> []" and c: "0 \<le> currentIndex m"
  shows "getNext now m =
    (Some (nat (currentIndex m) mod length (accounts m)),
     m\<lparr> accounts := (accounts m)[nat (currentIndex m) mod length (accounts m) :=
                       (accounts m ! (nat (currentIndex m) mod length (accounts m)))\<lparr> lastUsed := now \<rparr>],
        currentIndex := currentIndex m + 1 \<rparr>)"
proof -
  let ?as = "accounts m"
  let ?n = "length ?as"
  have n: "0 < ?n" using ne by simp
  have m1: "map (clear_expired now) ?as = ?as"
    using nl by (simp add: none_limited_def map_clear_expired_id)
  have av: "available_positions ?as = [0..<?n]"
    using nl by (simp add: none_limited_def available_all)
  have k: "js_rem (currentIndex m) (int ?n) = currentIndex m mod int ?n"
    using c n by (simp add: js_rem_nonneg)
  have k0: "0 \<le> currentIndex m mod int ?n" using n by simp
  have kn: "nat (currentIndex m mod int ?n) = nat (currentIndex m) mod ?n"
    using c n by (simp add: nat_mod_distrib)
  have lt: "nat (currentIndex m) mod ?n < ?n" using n by simp
  show ?thesis
    unfolding getNext_def Let_def m1 av
    using n k0 kn lt by (simp add: not_less k)
qed

lemma getNext_calls_positions:
  "none_limited m \<Longrightarrow> accounts m \<noteq> [] \<Longrightarrow> 0 \<le> currentIndex m \<Longrightarrow>
   fst (getNext_calls ts m) =
     map (\<lambda>i. Some ((nat (currentIndex m) + i) mod length (accounts m))) [0..<length ts]
   \<and> currentIndex (snd (getNext_calls ts m)) = currentIndex m + int (length ts)
   \<and> currentAccountIndex (snd (getNext_calls ts m)) = currentAccountIndex m
   \<and> map (lastUsed_update (\<lambda>_. 0)) (accounts (snd (getNext_calls ts m)))
       = map (lastUsed_update (\<lambda>_. 0)) (accounts m)"
proof (induction ts arbitrary: m)
  case Nil
  then show ?case by simp
next
  case (Cons t ts)
  let ?p = "nat (currentIndex m) mod length (accounts m)"
  let ?m' = "m\<lparr> accounts := (accounts m)[?p := (accounts m ! ?p)\<lparr> lastUsed := t \<rparr>],
        currentIndex := currentIndex m + 1 \<rparr>"
  have g: "getNext t m = (Some ?p, ?m')"
    using Cons.prems by (rule getNext_none_limited)
  have p: "?p < length (accounts m)" using Cons.prems(2) by simp
  have nl': "none_limited ?m'"
    using Cons.prems(1) p
    by (auto simp add: none_limited_def list_all_length nth_list_update)
  have ne': "accounts ?m' \<noteq> []" using Cons.prems(2) by simp
  have c': "0 \<le> currentIndex ?m'" using Cons.prems(3) by simp
  note ih = Cons.IH[OF nl' ne' c']
  have nat1: "nat (currentIndex m + 1) = Suc (nat (currentIndex m))"
    using Cons.prems(3) by simp
  have shift: "map (\<lambda>i. Some ((nat (currentIndex m) + i) mod length (accounts m))) [0..<length (t # ts)]
     = Some ?p # map (\<lambda>i. Some ((nat (currentIndex m + 1) + i) mod length (accounts m))) [0..<length ts]"
    by (simp add: upt_rec[of 0] map_Suc_upt[symmetric] nat1 del: upt_Suc)
  have same: "map (lastUsed_update (\<lambda>_. 0)) ((accounts m)[?p := (accounts m ! ?p)\<lparr> lastUsed := t \<rparr>])
     = map (lastUsed_update (\<lambda>_. 0)) (accounts m)"
    using p by (simp add: map_update list_update_same_conv)
  obtain rs m'' where gc: "getNext_calls ts ?m' = (rs, m'')" by (cases "getNext_calls ts ?m'")
  have step: "getNext_calls (t # ts) m = (Some ?p # rs, m'')"
    by (simp add: g gc)
  show ?case
    using ih unfolding shift step gc
    by (simp add: same)
qed

lemma rotate_upt:
  assumes "0 < n"
  shows "map (\<lambda>i. (c + i) mod n) [0..<n] = rotate (c mod n) [0..<n]"
proof (rule nth_equalityI)
  show "length (map (\<lambda>i. (c + i) mod n) [0..<n]) = length (rotate (c mod n) [0..<n])" by simp
next
  fix i assume "i < length (map (\<lambda>i. (c + i) mod n) [0..<n])"
  then have i: "i < n" by simp
  have "rotate (c mod n) [0..<n] ! i = [0..<n] ! ((c mod n + i) mod n)"
    using i by (simp add: nth_rotate)
  also have "\<dots> = (c mod n + i) mod n" using assms by simp
  also have "\<dots> = (c + i) mod n" by (simp add: mod_add_left_eq)
  finally show "map (\<lambda>i. (c + i) mod n) [0..<n] ! i = rotate (c mod n) [0..<n] ! i"
    using i by simp
qed

text \<open>
  Claim C3, amended. In a pool of \<open>N \<ge> 1\<close> accounts none of which is rate-limited and
  whose round-robin cursor is not negative, \<open>N\<close> consecutive calls of \<^verbatim>\<open>getNext\<close> return
  each account exactly once, in insertion order rotated to start at position
  \<open>cursor mod N\<close>; the order is the insertion order itself when the cursor is a multiple of
  \<open>N\<close>, as in a pool built without a stored snapshot. The calls change nothing in the
  accounts but \<^verbatim>\<open>lastUsed\<close>.
\<close>

theorem getNext_round_robin:
  assumes "none_limited m" and "accounts m \<noteq> []" and "0 \<le> currentIndex m"
    and "length ts = length (accounts m)"
  shows "fst (getNext_calls ts m)
           = map Some (rotate (nat (currentIndex m) mod length (accounts m)) [0..<length (accounts m)])
       \<and> distinct (fst (getNext_calls ts m))
       \<and> set (fst (getNext_calls ts m)) = Some ` {0..<length (accounts m)}
       \<and> (currentIndex m mod int (length (accounts m)) = 0 \<longrightarrow>
            fst (getNext_calls ts m) = map Some [0..<length (accounts m)])
       \<and> map (lastUsed_update (\<lambda>_. 0)) (accounts (snd (getNext_calls ts m)))
            = map (lastUsed_update (\<lambda>_. 0)) (accounts m)"
proof -
  let ?n = "length (accounts m)"
  let ?c = "nat (currentIndex m)"
  have n: "0 < ?n" using assms(2) by simp
  note P = getNext_calls_positions[OF assms(1,2,3), of ts]
  have "fst (getNext_calls ts m) = map Some (map (\<lambda>i. (?c + i) mod ?n) [0..<?n])"
    using P assms(4) by (simp add: comp_def)
  then have r: "fst (getNext_calls ts m) = map Some (rotate (?c mod ?n) [0..<?n])"
    using rotate_upt[OF n, of ?c] by simp
  have d: "distinct (fst (getNext_calls ts m))"
    unfolding r by (simp add: distinct_map)
  have s: "set (fst (getNext_calls ts m)) = Some ` {0..<?n}"
    unfolding r by simp
  have z: "currentIndex m mod int ?n = 0 \<longrightarrow> fst (getNext_calls ts m) = map Some [0..<?n]"
  proof
    assume "currentIndex m mod int ?n = 0"
    then have "?c mod ?n = 0"
      using assms(3) n by (metis nat_mod_distrib nat_0 of_nat_0_le_iff nat_int)
    then show "fst (getNext_calls ts m) = map Some [0..<?n]" using r by simp
  qed
  show ?thesis using r d s z P by blast
qed

lemma pool2_accounts: "map email (accounts pool2) = [Some ''a'', Some ''b'']
  \<and> map index (accounts pool2) = [0, 1] \<and> map isRateLimited (accounts pool2) = [False, False]
  \<and> currentIndex pool2 = 1"
  by code_simp

text \<open>
  A pool loaded from a snapshot of two accounts with active index 1: no account is
  rate-limited, and two calls of \<^verbatim>\<open>getNext\<close> return the second account first.
\<close>

theorem getNext_order_counterexample:
  "none_limited pool2 \<and> length (accounts pool2) = 2
   \<and> fst (getNext_calls [1000, 2000] pool2) = [Some 1, Some 0]"
  by code_simp

theorem getNext_round_robin_witness:
  "fst (getNext_calls [1000, 2000] pool2) = map Some (rotate (nat 1 mod 2) [0..<2])"
proof -
  have a: "none_limited pool2" and b: "accounts pool2 \<noteq> []" and c: "0 \<le> currentIndex pool2"
    and d: "length [1000, 2000::int] = length (accounts pool2)"
    by code_simp+
  have e: "currentIndex pool2 = 1" "length (accounts pool2) = 2"
    by code_simp+
  from getNext_round_robin[OF a b c d] show ?thesis by (simp only: e)
qed

lemma pool3_eval: "map email (accounts pool3) = [Some ''a'', Some ''b'', Some ''c'']
   \<and> currentAccountIndex pool3 = 1 \<and> getCurrentAccount pool3 = Some 1"
  by code_simp

lemma reindex_length: "length (reindex as) = length as" by (simp add: reindex_def)
lemma reindex_nth: "k < length as \<Longrightarrow> reindex as ! k = (as ! k)\<lparr> index := int k \<rparr>"
  by (simp add: reindex_def nth_enumerate_eq)

text \<open>
  Claim C4, amended. \<^verbatim>\<open>removeAccount(i)\<close> with \<open>i\<close> out of range returns false and leaves
  the pool unchanged. With \<open>i\<close> in range it returns true, the account at position \<open>i\<close>
  is removed, the others keep their order and the \<^verbatim>\<open>index\<close> field of each equals its new
  position; the current-account pointer and the round-robin cursor keep their values.
\<close>

theorem removeAccount_amended:
  "(i < 0 \<or> i \<ge> int (length (accounts m)) \<longrightarrow> removeAccount i m = (False, m))
   \<and> (0 \<le> i \<and> i < int (length (accounts m)) \<longrightarrow>
        fst (removeAccount i m) = True
        \<and> length (accounts (snd (removeAccount i m))) = length (accounts m) - 1
        \<and> (\<forall>k < length (accounts m) - 1.
              accounts (snd (removeAccount i m)) ! k
                = (accounts m ! (if k < nat i then k else k + 1))\<lparr> index := int k \<rparr>
              \<and> index (accounts (snd (removeAccount i m)) ! k) = int k)
        \<and> currentAccountIndex (snd (removeAccount i m)) = currentAccountIndex m
        \<and> currentIndex (snd (removeAccount i m)) = currentIndex m)"
proof (intro conjI impI)
  assume "i < 0 \<or> i \<ge> int (length (accounts m))"
  then show "removeAccount i m = (False, m)" by (auto simp add: removeAccount_def)
next
  assume r: "0 \<le> i \<and> i < int (length (accounts m))"
  let ?rest = "take (nat i) (accounts m) @ drop (nat i + 1) (accounts m)"
  have rm: "removeAccount i m = (True, m\<lparr> accounts := reindex ?rest \<rparr>)"
    using r by (simp add: removeAccount_def)
  have len: "length ?rest = length (accounts m) - 1" using r by auto
  show "fst (removeAccount i m) = True" by (simp add: rm)
  show "length (accounts (snd (removeAccount i m))) = length (accounts m) - 1"
    using len by (simp add: rm reindex_length)
  show "currentAccountIndex (snd (removeAccount i m)) = currentAccountIndex m" by (simp add: rm)
  show "currentIndex (snd (removeAccount i m)) = currentIndex m" by (simp add: rm)
  show "\<forall>k < length (accounts m) - 1.
              accounts (snd (removeAccount i m)) ! k
                = (accounts m ! (if k < nat i then k else k + 1))\<lparr> index := int k \<rparr>
              \<and> index (accounts (snd (removeAccount i m)) ! k) = int k"
  proof (intro allI impI)
    fix k assume k: "k < length (accounts m) - 1"
    then have k': "k < length ?rest" using len by simp
    have nth: "?rest ! k = accounts m ! (if k < nat i then k else k + 1)"
      using r k by (auto simp add: nth_append min_def)
    have "accounts (snd (removeAccount i m)) ! k = (?rest ! k)\<lparr> index := int k \<rparr>"
      using reindex_nth[OF k'] by (simp add: rm)
    then show "accounts (snd (removeAccount i m)) ! k
                = (accounts m ! (if k < nat i then k else k + 1))\<lparr> index := int k \<rparr>
              \<and> index (accounts (snd (removeAccount i m)) ! k) = int k"
      using nth by simp
  qed
qed

text \<open>
  In a pool of three accounts with account ``b'' (position 1) current, removing the account
  at position 0 leaves the pointer at 1, where account ``c'' now is.
\<close>

theorem removeAccount_pointer_counterexample:
  "getCurrentAccount pool3 = Some 1 \<and> email (accounts pool3 ! 1) = Some ''b''
   \<and> fst (removeAccount 0 pool3) = True
   \<and> getCurrentAccount (snd (removeAccount 0 pool3)) = Some 1
   \<and> email (accounts (snd (removeAccount 0 pool3)) ! 1) = Some ''c''"
  by code_simp

theorem removeAccount_amended_witness:
  "removeAccount 7 pool3 = (False, pool3)
   \<and> fst (removeAccount 0 pool3) = True
   \<and> length (accounts (snd (removeAccount 0 pool3))) = 2
   \<and> index (accounts (snd (removeAccount 0 pool3)) ! 1) = 1
   \<and> currentAccountIndex (snd (removeAccount 0 pool3)) = 1"
proof -
  have l: "length (accounts pool3) = 3" and c: "currentAccountIndex pool3 = 1"
    by code_simp+
  have out: "(7::int) < 0 \<or> 7 \<ge> int (length (accounts pool3))" using l by simp
  have inr: "(0::int) \<le> 0 \<and> 0 < int (length (accounts pool3))" using l by simp
  have k: "(1::nat) < length (accounts pool3) - 1" using l by simp
  note A = removeAccount_amended[of 7 pool3, THEN conjunct1, rule_format, OF out]
  note B = removeAccount_amended[of 0 pool3, THEN conjunct2, rule_format, OF inr]
  note B1 = B[THEN conjunct1]
  note B2 = B[THEN conjunct2, THEN conjunct1]
  note B3 = B[THEN conjunct2, THEN conjunct2, THEN conjunct1, rule_format, OF k, THEN conjunct2]
  note B4 = B[THEN conjunct2, THEN conjunct2, THEN conjunct2, THEN conjunct1]
  show ?thesis using A B1 B2 B3 B4 l c by simp
qed

subsection \<open>Native-family walk: the frame\<close>

lemma gemini_content_other_role:
  "gemini_content ctx cache c = Inr c' \<Longrightarrow> field ''role'' c \<noteq> Some (JStr ''model'') \<Longrightarrow> c' = c"
  by (auto simp add: gemini_content_def split: if_splits)

lemma gemini_content_list_frame:
  "gemini_content_list ctx cache cs = Inr cs' \<Longrightarrow>
     length cs' = length cs \<and>
     (\<forall>i < length cs. field ''role'' (cs ! i) \<noteq> Some (JStr ''model'') \<longrightarrow> cs' ! i = cs ! i)"
proof (induction cs arbitrary: cs')
  case Nil
  then show ?case by simp
next
  case (Cons c cs)
  from Cons.prems obtain d ds where d: "gemini_content ctx cache c = Inr d"
    and ds: "gemini_content_list ctx cache cs = Inr ds" and eq: "cs' = d # ds"
    by (auto split: sum.splits)
  note ih = Cons.IH[OF ds]
  show ?case
  proof (intro conjI allI impI)
    show "length cs' = length (c # cs)" using ih eq by simp
  next
    fix i assume i: "i < length (c # cs)" and r: "field ''role'' ((c # cs) ! i) \<noteq> Some (JStr ''model'')"
    show "cs' ! i = (c # cs) ! i"
    proof (cases i)
      case 0
      then show ?thesis using d r eq gemini_content_other_role by auto
    next
      case (Suc j)
      then show ?thesis using ih i r eq by auto
    qed
  qed
qed

lemma gemini_part_total: "part \<noteq> JNull \<Longrightarrow> \<exists>r. gemini_part ctx cache part = Inr r"
  by (auto simp add: gemini_part_def Let_def split: option.splits)

lemma gemini_parts_total: "JNull \<notin> set ps \<Longrightarrow> \<exists>r. gemini_parts ctx cache ps = Inr r"
proof (induction ps)
  case Nil
  then show ?case by simp
next
  case (Cons p ps)
  then have "p \<noteq> JNull" and "JNull \<notin> set ps" by auto
  then obtain r rs where "gemini_part ctx cache p = Inr r" "gemini_parts ctx cache ps = Inr rs"
    using gemini_part_total Cons.IH by blast
  then show ?case by (cases rs) (auto split: option.splits)
qed

lemma gemini_content_total: "no_null_parts c \<Longrightarrow> \<exists>r. gemini_content ctx cache c = Inr r"
proof -
  assume a: "no_null_parts c"
  show ?thesis
  proof (cases "field ''parts'' c")
    case None
    then show ?thesis using a by (simp add: gemini_content_def no_null_parts_def)
  next
    case (Some v)
    show ?thesis
    proof (cases v)
      case (JArr ps)
      then have "JNull \<notin> set ps" using a Some by (simp add: no_null_parts_def)
      then obtain r where "gemini_parts ctx cache ps = Inr r" using gemini_parts_total by blast
      then show ?thesis using a Some JArr by (cases r) (simp add: gemini_content_def no_null_parts_def)
    qed (use a Some in \<open>simp_all add: gemini_content_def no_null_parts_def\<close>)
  qed
qed

lemma gemini_content_list_total:
  "list_all no_null_parts cs \<Longrightarrow> \<exists>r. gemini_content_list ctx cache cs = Inr r"
proof (induction cs)
  case Nil
  then show ?case by simp
next
  case (Cons c cs)
  then obtain r rs where "gemini_content ctx cache c = Inr r" "gemini_content_list ctx cache cs = Inr rs"
    using gemini_content_total by fastforce
  then show ?case by simp
qed

text \<open>
  Claim C10. \<^verbatim>\<open>transformGeminiRequest\<close> rewrites parts only inside turns whose role is
  \<^verbatim>\<open>model\<close>: whenever the walk over the turns \<open>cs\<close> returns, the output has as many
  turns and every turn with another role is the input turn, unchanged (its reasoning parts
  are kept, its function-call parts get no bypass signature, an existing
  \<^verbatim>\<open>thoughtSignature\<close> stays). The walk returns whenever no turn and no part is
  \<^verbatim>\<open>null\<close>.
\<close>

theorem gemini_other_roles_unchanged:
  "(list_all no_null_parts cs \<longrightarrow>
      (\<exists>cs'. transformGeminiRequest_contents ctx cache (Some (JArr cs)) = Inr (Some (JArr cs'))))
   \<and> (\<forall>cs'. transformGeminiRequest_contents ctx cache (Some (JArr cs)) = Inr (Some (JArr cs')) \<longrightarrow>
         length cs' = length cs \<and>
         (\<forall>i < length cs. field ''role'' (cs ! i) \<noteq> Some (JStr ''model'') \<longrightarrow> cs' ! i = cs ! i))"
proof (intro conjI impI allI)
  assume "list_all no_null_parts cs"
  then obtain r where "gemini_content_list ctx cache cs = Inr r"
    using gemini_content_list_total by blast
  then show "\<exists>cs'. transformGeminiRequest_contents ctx cache (Some (JArr cs)) = Inr (Some (JArr cs'))"
    by (simp add: transformGeminiRequest_contents_def)
next
  fix cs' assume "transformGeminiRequest_contents ctx cache (Some (JArr cs)) = Inr (Some (JArr cs'))"
  then have g: "gemini_content_list ctx cache cs = Inr cs'"
    by (auto simp add: transformGeminiRequest_contents_def split: sum.splits)
  from gemini_content_list_frame[OF g]
  show "length cs' = length cs" by simp
next
  fix cs' i assume "transformGeminiRequest_contents ctx cache (Some (JArr cs)) = Inr (Some (JArr cs'))"
     and i: "i < length cs" and r: "field ''role'' (cs ! i) \<noteq> Some (JStr ''model'')"
  then have g: "gemini_content_list ctx cache cs = Inr cs'"
    by (auto simp add: transformGeminiRequest_contents_def split: sum.splits)
  from gemini_content_list_frame[OF g] i r show "cs' ! i = cs ! i" by simp
qed

theorem gemini_other_roles_unchanged_witness:
  "transformGeminiRequest_contents gemini_ctx Map.empty (Some (JArr [user_turn, model_turn]))
     = Inr (Some (JArr [user_turn,
          JObj [(''role'', JStr ''model''),
                (''parts'', JArr [JObj [(''functionCall'', JObj [(''name'', JStr ''search'')]),
                                        (''thoughtSignature'', JStr THOUGHT_SIGNATURE_BYPASS)]])]]))
   \<and> [user_turn, model_turn] ! 0 = user_turn"
proof -
  have e: "transformGeminiRequest_contents gemini_ctx Map.empty (Some (JArr [user_turn, model_turn]))
     = Inr (Some (JArr [user_turn,
          JObj [(''role'', JStr ''model''),
                (''parts'', JArr [JObj [(''functionCall'', JObj [(''name'', JStr ''search'')]),
                                        (''thoughtSignature'', JStr THOUGHT_SIGNATURE_BYPASS)]])]]))"
    by (simp add: transformGeminiRequest_contents_def gemini_content_def gemini_part_def Let_def
        user_turn_def model_turn_def gemini_ctx_def call_getCachedSignature_def getCachedSignature_def)
  have r: "field ''role'' ([user_turn, model_turn] ! 0) \<noteq> Some (JStr ''model'')"
    by (simp add: user_turn_def)
  from gemini_other_roles_unchanged[of "[user_turn, model_turn]" gemini_ctx Map.empty,
        THEN conjunct2, rule_format, OF e] r
  show ?thesis using e by simp
qed

subsection \<open>Signatures across families\<close>

lemma field_set_field_other: "k \<noteq> k' \<Longrightarrow> field k (set_field k' v p) = field k p"
  by (cases p) (simp_all add: update_conv')

lemma field_set_field_same: "field k (set_field k v (JObj kvs)) = Some v"
  by (simp add: update_conv')










subsection \<open>Pairing of function calls and responses\<close>

lemma named_object_cases:
  obtains (unnamed) "named_object v = None"
    | (named) n kvs where "v = Some (JObj kvs)" and "map_of kvs ''name'' = Some (JStr n)"
        and "named_object v = Some (n, kvs)"
proof (cases v)
  case None
  then show ?thesis using unnamed by (simp add: named_object_def)
next
  case (Some x)
  show ?thesis
  proof (cases x)
    case (JObj kvs)
    show ?thesis
    proof (cases "map_of kvs ''name''")
      case None
      then show ?thesis using unnamed Some JObj by (simp add: named_object_def)
    next
      case nm: (Some y)
      show ?thesis
      proof (cases y)
        case (JStr n)
        then show ?thesis using named[of kvs n] Some JObj nm by (simp add: named_object_def)
      qed (use unnamed Some JObj nm in \<open>simp_all add: named_object_def\<close>)
    qed
  qed (use unnamed Some in \<open>simp_all add: named_object_def\<close>)
qed

lemma named_object_None:
  assumes "named_object v = None"
  shows "(case v of
            Some (JObj kvs) \<Rightarrow> (case map_of kvs ''name'' of Some (JStr n) \<Rightarrow> f n kvs | _ \<Rightarrow> d)
          | _ \<Rightarrow> d) = d"
proof (cases v)
  case None
  then show ?thesis by simp
next
  case (Some x)
  show ?thesis
  proof (cases x)
    case (JObj kvs)
    show ?thesis
    proof (cases "map_of kvs ''name''")
      case None
      then show ?thesis using Some JObj by simp
    next
      case nm: (Some y)
      show ?thesis
      proof (cases y)
        case (JStr n)
        then show ?thesis using assms Some JObj nm by (simp add: named_object_def)
      qed (use Some JObj nm in simp_all)
    qed
  qed (use Some in simp_all)
qed

lemma claude_functionCall_named:
  "claude_functionCall uuid part w =
     (case named_object (field ''functionCall'' part) of
        None \<Rightarrow> (part, w)
      | Some (name, functionCall) \<Rightarrow>
          if \<not> truthy (map_of functionCall ''id'') then
            (set_field ''functionCall''
               (JObj (AList.update ''id'' (JStr (name @ ''-'' @ uuid (w_uuid w))) functionCall)) part,
             w\<lparr> w_queues := (w_queues w)(name := w_queues w name @ [JStr (name @ ''-'' @ uuid (w_uuid w))]),
                w_uuid := w_uuid w + 1,
                w_toolsTransformed := True \<rparr>)
          else
            (part, w\<lparr> w_queues := (w_queues w)(name := w_queues w name @ [the (map_of functionCall ''id'')]) \<rparr>))"
proof (cases "field ''functionCall'' part" rule: named_object_cases)
  case unnamed
  show ?thesis
    unfolding claude_functionCall_def unnamed option.case
    by (rule named_object_None[OF unnamed])
next
  case (named n kvs)
  show ?thesis
  proof (cases "map_of kvs ''id''")
    case None
    then show ?thesis using named by (simp add: claude_functionCall_def Let_def)
  next
    case (Some i)
    then show ?thesis using named by (simp add: claude_functionCall_def Let_def)
  qed
qed

lemma claude_functionResponse_named:
  "claude_functionResponse part w =
     (case named_object (field ''functionResponse'' part) of
        None \<Rightarrow> (part, w)
      | Some (name, functionResponse) \<Rightarrow>
          if \<not> truthy (map_of functionResponse ''id'') then
            (case w_queues w name of
               [] \<Rightarrow> (part, w)
             | callId # rest \<Rightarrow>
                 (set_field ''functionResponse''
                    (JObj (AList.update ''id'' callId functionResponse)) part,
                  w\<lparr> w_queues := (w_queues w)(name := rest) \<rparr>))
          else (part, w))"
proof (cases "field ''functionResponse'' part" rule: named_object_cases)
  case unnamed
  show ?thesis
    unfolding claude_functionResponse_def unnamed option.case
    by (rule named_object_None[OF unnamed])
next
  case (named n kvs)
  then show ?thesis by (simp add: claude_functionResponse_def)
qed

lemma claude_functionCall_queue:
  assumes "claude_functionCall uuid part w = (p', w')"
  shows "w_uuid w \<le> w_uuid w'"
    and "field ''functionResponse'' p' = field ''functionResponse'' part"
    and "\<exists>ext. w_queues w' name = w_queues w name @ ext"
    and "\<not> calls_name name part \<Longrightarrow> w_queues w' name = w_queues w name"
  using assms
  by (auto simp add: claude_functionCall_named calls_name_def field_set_field_other
        split: option.splits prod.splits if_splits)

lemma claude_functionResponse_queue:
  assumes "claude_functionResponse part w = (p', w')"
  shows "w_uuid w' = w_uuid w"
    and "\<not> responds_without_id name part \<Longrightarrow> w_queues w' name = w_queues w name"
  using assms
  by (auto simp add: claude_functionResponse_named responds_without_id_def
        split: option.splits prod.splits if_splits list.splits)

lemma claude_calls_queue:
  assumes "claude_calls uuid part w = (p', w')"
  shows "w_uuid w \<le> w_uuid w'"
    and "\<not> responds_without_id name part \<Longrightarrow> \<exists>ext. w_queues w' name = w_queues w name @ ext"
    and "\<not> responds_without_id name part \<Longrightarrow> \<not> calls_name name part
           \<Longrightarrow> w_queues w' name = w_queues w name"
proof -
  obtain p1 w1 where fc: "claude_functionCall uuid part w = (p1, w1)"
    by (cases "claude_functionCall uuid part w")
  have fr: "claude_functionResponse p1 w1 = (p', w')"
    using assms fc by (simp add: claude_calls_def)
  note c = claude_functionCall_queue[OF fc]
  note r = claude_functionResponse_queue[OF fr]
  have same: "responds_without_id name p1 = responds_without_id name part"
    using c(2) by (simp add: responds_without_id_def)
  show "w_uuid w \<le> w_uuid w'" using c(1) r(1) by simp
  show "\<exists>ext. w_queues w' name = w_queues w name @ ext" if "\<not> responds_without_id name part"
    using that same c(3)[of name] r(2)[of name] by simp
  show "w_queues w' name = w_queues w name"
    if "\<not> responds_without_id name part" "\<not> calls_name name part"
    using that same c(4)[of name] r(2)[of name] by simp
qed


lemma claude_thought_frame:
  assumes "claude_thought ctx part w = (r, w')"
  shows "w_queues w' = w_queues w" and "w_uuid w' = w_uuid w"
    and "r = Some p \<Longrightarrow> part \<noteq> JNull \<Longrightarrow>
           p \<noteq> JNull \<and> field ''functionCall'' p = field ''functionCall'' part
           \<and> field ''functionResponse'' p = field ''functionResponse'' part"
proof -
  define restored where "restored =
     (if signature_missing_or_short (field ''thoughtSignature'' part) then
        (case field ''text'' part of
           Some (JStr t) \<Rightarrow>
             (case call_getCachedSignature (ctx_family ctx) (ctx_sessionId ctx) t (w_cache w) of
                Some cached \<Rightarrow> if cached \<noteq> [] then Some cached else None
              | None \<Rightarrow> None)
         | _ \<Rightarrow> None)
      else None)"
  define signature' where "signature' =
     (case restored of Some cached \<Rightarrow> Some (JStr cached) | None \<Rightarrow> field ''thoughtSignature'' part)"
  define part' where "part' =
     (case restored of Some cached \<Rightarrow> set_field ''thoughtSignature'' (JStr cached) part | None \<Rightarrow> part)"
  define w1 where "w1 =
     (case field ''text'' part of
        Some (JStr t) \<Rightarrow>
          if ctx_sessionId ctx \<noteq> []
          then w\<lparr> w_cache := call_cacheSignature (ctx_family ctx) (ctx_sessionId ctx) t
                   (case signature' of Some (JStr s) \<Rightarrow> s | _ \<Rightarrow> []) (w_cache w) \<rparr>
          else w
      | _ \<Rightarrow> w)"
  have w1: "w_queues w1 = w_queues w \<and> w_uuid w1 = w_uuid w"
    unfolding w1_def by (simp split: option.splits json.splits)
  have eq: "claude_thought ctx part w =
     (case signature' of
        Some (JStr s) \<Rightarrow> if length s > 50 then (Some part', w1) else (None, w\<lparr> w_removed := w_removed w + 1 \<rparr>)
      | _ \<Rightarrow> (None, w\<lparr> w_removed := w_removed w + 1 \<rparr>))"
    unfolding claude_thought_def Let_def restored_def[symmetric] signature'_def[symmetric]
      part'_def[symmetric] w1_def
    by (simp split: option.splits json.splits)
  have cases: "(r, w') = (Some part', w1) \<or> (r, w') = (None, w\<lparr> w_removed := w_removed w + 1 \<rparr>)"
    using assms unfolding eq by (simp split: option.splits json.splits if_splits)
  have p': "part \<noteq> JNull \<Longrightarrow> part' \<noteq> JNull \<and> field ''functionCall'' part' = field ''functionCall'' part
           \<and> field ''functionResponse'' part' = field ''functionResponse'' part"
    unfolding part'_def by (cases part) (simp_all add: update_conv' split: option.splits)
  show "w_queues w' = w_queues w" using cases w1 by auto
  show "w_uuid w' = w_uuid w" using cases w1 by auto
  show "p \<noteq> JNull \<and> field ''functionCall'' p = field ''functionCall'' part
           \<and> field ''functionResponse'' p = field ''functionResponse'' part"
    if "r = Some p" "part \<noteq> JNull"
    using that cases p' by auto
qed


lemma claude_part_queue:
  assumes nn: "part \<noteq> JNull"
  shows "\<exists>r w'. claude_part uuid ctx part w = Inr (r, w') \<and> w_uuid w \<le> w_uuid w'
           \<and> (\<not> responds_without_id name part \<longrightarrow>
                 (\<exists>ext. w_queues w' name = w_queues w name @ ext)
                 \<and> (\<not> calls_name name part \<longrightarrow> w_queues w' name = w_queues w name))"
proof (cases "field ''thought'' part = Some (JBool True)")
  case False
  obtain p w' where c: "claude_calls uuid part w = (p, w')" by (cases "claude_calls uuid part w")
  have step: "claude_part uuid ctx part w = Inr (Some p, w')"
    using nn False c by (simp add: claude_part_def)
  show ?thesis
    using step claude_calls_queue(1)[OF c] claude_calls_queue(2,3)[OF c, of name] by simp
next
  case True
  obtain r w1 where t: "claude_thought ctx part w = (r, w1)" by (cases "claude_thought ctx part w")
  note f = claude_thought_frame[OF t]
  show ?thesis
  proof (cases r)
    case None
    have step: "claude_part uuid ctx part w = Inr (None, w1)"
      using nn True t None by (simp add: claude_part_def)
    show ?thesis using step f(1,2) by simp
  next
    case (Some part')
    obtain p w' where c: "claude_calls uuid part' w1 = (p, w')" by (cases "claude_calls uuid part' w1")
    have step: "claude_part uuid ctx part w = Inr (Some p, w')"
      using nn True t Some c by (simp add: claude_part_def)
    have same: "responds_without_id name part' = responds_without_id name part"
               "calls_name name part' = calls_name name part"
      using f(3)[OF Some nn] by (simp_all add: responds_without_id_def calls_name_def)
    show ?thesis
      using step claude_calls_queue(1)[OF c] claude_calls_queue(2,3)[OF c, of name] same f(1,2) by simp
  qed
qed

lemma claude_parts_append:
  "claude_parts uuid ctx (xs @ ys) w =
     (case claude_parts uuid ctx xs w of
        Inl e \<Rightarrow> Inl e
      | Inr (fx, w') \<Rightarrow>
          (case claude_parts uuid ctx ys w' of
             Inl e \<Rightarrow> Inl e
           | Inr (fy, w'') \<Rightarrow> Inr (fx @ fy, w'')))"
proof (induction xs arbitrary: w)
  case Nil
  show ?case
  proof (cases "claude_parts uuid ctx ys w")
    case (Inl e)
    then show ?thesis by simp
  next
    case (Inr r)
    then show ?thesis by (cases r) simp
  qed
next
  case (Cons x xs)
  show ?case
  proof (cases "claude_part uuid ctx x w")
    case (Inl e)
    then show ?thesis by simp
  next
    case (Inr rw)
    obtain r w1 where rw: "rw = (r, w1)" by (cases rw)
    note ih = Cons.IH[of w1]
    show ?thesis
    proof (cases "claude_parts uuid ctx xs w1")
      case (Inl e)
      then show ?thesis using Inr rw ih by simp
    next
      case xs_ok: (Inr fxw)
      obtain fx w2 where fxw: "fxw = (fx, w2)" by (cases fxw)
      show ?thesis
      proof (cases "claude_parts uuid ctx ys w2")
        case (Inl e)
        then show ?thesis using Inr rw ih xs_ok fxw by simp
      next
        case ys_ok: (Inr fyw)
        obtain fy w3 where fyw: "fyw = (fy, w3)" by (cases fyw)
        show ?thesis using Inr rw ih xs_ok fxw ys_ok fyw by (cases r) simp_all
      qed
    qed
  qed
qed

lemma parts_cons_result:
  assumes "claude_part uuid ctx part w = Inr (r, w1)"
    and "claude_parts uuid ctx rest w1 = Inr (rs, w2)"
  shows "claude_parts uuid ctx (part # rest) w
           = Inr ((case r of None \<Rightarrow> rs | Some p \<Rightarrow> p # rs), w2)"
  using assms by simp

lemma parts_append_result:
  assumes "claude_parts uuid ctx xs w = Inr (a, w1)"
    and "claude_parts uuid ctx ys w1 = Inr (b, w2)"
  shows "claude_parts uuid ctx (xs @ ys) w = Inr (a @ b, w2)"
  using assms by (simp add: claude_parts_append)

lemma claude_parts_total:
  "JNull \<notin> set ps \<Longrightarrow> \<exists>ps' w'. claude_parts uuid ctx ps w = Inr (ps', w')"
proof (induction ps arbitrary: w)
  case Nil
  show ?case by simp
next
  case (Cons part ps)
  then have nn: "part \<noteq> JNull" and rest: "JNull \<notin> set ps" by auto
  from claude_part_queue[OF nn, of uuid ctx w "[]"]
  obtain r w1 where s: "claude_part uuid ctx part w = Inr (r, w1)" by blast
  from Cons.IH[OF rest, of w1] obtain rs w2 where t: "claude_parts uuid ctx ps w1 = Inr (rs, w2)"
    by blast
  show ?case using parts_cons_result[OF s t] by blast
qed

lemma claude_parts_takes_nothing:
  "list_all (takes_nothing name) ps \<Longrightarrow>
     \<exists>ps' w' ext. claude_parts uuid ctx ps w = Inr (ps', w') \<and> w_queues w' name = w_queues w name @ ext"
proof (induction ps arbitrary: w)
  case Nil
  show ?case by simp
next
  case (Cons part ps)
  from Cons.prems have rest: "list_all (takes_nothing name) ps" and tn: "takes_nothing name part"
    by simp_all
  from tn have nn: "part \<noteq> JNull" and nr: "\<not> responds_without_id name part"
    by (simp_all add: takes_nothing_def)
  from claude_part_queue[OF nn, of uuid ctx w name] nr
  obtain r w1 ext1 where s: "claude_part uuid ctx part w = Inr (r, w1)"
    and q1: "w_queues w1 name = w_queues w name @ ext1" by blast
  from Cons.IH[OF rest, of w1] obtain rs w2 ext2 where t: "claude_parts uuid ctx ps w1 = Inr (rs, w2)"
    and q2: "w_queues w2 name = w_queues w1 name @ ext2" by blast
  have "w_queues w2 name = w_queues w name @ (ext1 @ ext2)" using q1 q2 by simp
  then show ?case using parts_cons_result[OF s t] by blast
qed

lemma claude_parts_leaves_queue:
  "list_all (leaves_queue name) ps \<Longrightarrow>
     \<exists>ps' w'. claude_parts uuid ctx ps w = Inr (ps', w') \<and> w_queues w' name = w_queues w name
        \<and> w_uuid w \<le> w_uuid w'"
proof (induction ps arbitrary: w)
  case Nil
  show ?case by simp
next
  case (Cons part ps)
  from Cons.prems have rest: "list_all (leaves_queue name) ps" and lq: "leaves_queue name part"
    by simp_all
  from lq have nn: "part \<noteq> JNull" and nr: "\<not> responds_without_id name part"
    and nc: "\<not> calls_name name part"
    by (simp_all add: leaves_queue_def)
  from claude_part_queue[OF nn, of uuid ctx w name] nr nc
  obtain r w1 where s: "claude_part uuid ctx part w = Inr (r, w1)"
    and q1: "w_queues w1 name = w_queues w name" and u1: "w_uuid w \<le> w_uuid w1" by blast
  from Cons.IH[OF rest, of w1] obtain rs w2 where t: "claude_parts uuid ctx ps w1 = Inr (rs, w2)"
    and q2: "w_queues w2 name = w_queues w1 name" and u2: "w_uuid w1 \<le> w_uuid w2" by blast
  have "w_queues w2 name = w_queues w name \<and> w_uuid w \<le> w_uuid w2" using q1 q2 u1 u2 by simp
  then show ?case using parts_cons_result[OF s t] by blast
qed

lemma claude_functionResponse_empty_queue:
  assumes "claude_functionResponse part w = (p', w')" and "w_queues w name = []"
  shows "w_queues w' name = []"
  using assms
  by (auto simp add: claude_functionResponse_named
        split: option.splits prod.splits if_splits list.splits)

lemma claude_part_empty_queue:
  assumes nn: "part \<noteq> JNull" and nc: "\<not> calls_name name part" and e: "w_queues w name = []"
  shows "\<exists>r w'. claude_part uuid ctx part w = Inr (r, w') \<and> w_queues w' name = []"
proof -
  have calls: "w_queues w2 name = []"
    if c: "claude_calls uuid p w1 = (p2, w2)" and e1: "w_queues w1 name = []"
      and nc1: "\<not> calls_name name p" for p w1 p2 w2
  proof -
    obtain p1 wa where fc: "claude_functionCall uuid p w1 = (p1, wa)"
      by (cases "claude_functionCall uuid p w1")
    have fr: "claude_functionResponse p1 wa = (p2, w2)" using c fc by (simp add: claude_calls_def)
    have "w_queues wa name = []" using claude_functionCall_queue(4)[OF fc nc1] e1 by simp
    then show ?thesis by (rule claude_functionResponse_empty_queue[OF fr])
  qed
  show ?thesis
  proof (cases "field ''thought'' part = Some (JBool True)")
    case False
    obtain p w' where c: "claude_calls uuid part w = (p, w')" by (cases "claude_calls uuid part w")
    have "claude_part uuid ctx part w = Inr (Some p, w')"
      using nn False c by (simp add: claude_part_def)
    then show ?thesis using calls[OF c e nc] by simp
  next
    case True
    obtain r w1 where t: "claude_thought ctx part w = (r, w1)" by (cases "claude_thought ctx part w")
    note f = claude_thought_frame[OF t]
    show ?thesis
    proof (cases r)
      case None
      have "claude_part uuid ctx part w = Inr (None, w1)"
        using nn True t None by (simp add: claude_part_def)
      then show ?thesis using f(1) e by simp
    next
      case (Some part')
      obtain p w' where c: "claude_calls uuid part' w1 = (p, w')" by (cases "claude_calls uuid part' w1")
      have step: "claude_part uuid ctx part w = Inr (Some p, w')"
        using nn True t Some c by (simp add: claude_part_def)
      have nc': "\<not> calls_name name part'"
        using f(3)[OF Some nn] nc by (simp add: calls_name_def)
      have e1: "w_queues w1 name = []" using f(1) e by simp
      show ?thesis using step calls[OF c e1 nc'] by simp
    qed
  qed
qed

text \<open>
  When no earlier part is a function call of \<open>name\<close>, no identifier is pending for
  \<open>name\<close>: the walk over such parts returns and leaves the queue of \<open>name\<close> empty.
\<close>

lemma nothing_pending_without_earlier_call:
  "JNull \<notin> set ps \<Longrightarrow> list_all (\<lambda>part. \<not> calls_name name part) ps \<Longrightarrow> w_queues w name = [] \<Longrightarrow>
     \<exists>ps' w'. claude_parts uuid ctx ps w = Inr (ps', w') \<and> w_queues w' name = []"
proof (induction ps arbitrary: w)
  case Nil
  then show ?case by simp
next
  case (Cons part ps)
  from Cons.prems have nn: "part \<noteq> JNull" and rest: "JNull \<notin> set ps"
    and nc: "\<not> calls_name name part" and ncs: "list_all (\<lambda>part. \<not> calls_name name part) ps"
    by auto
  from claude_part_empty_queue[OF nn nc Cons.prems(3), of uuid ctx]
  obtain r w1 where s: "claude_part uuid ctx part w = Inr (r, w1)" and e1: "w_queues w1 name = []"
    by blast
  from Cons.IH[OF rest ncs e1] obtain rs w2 where t: "claude_parts uuid ctx ps w1 = Inr (rs, w2)"
    and e2: "w_queues w2 name = []" by blast
  show ?case using parts_cons_result[OF s t] e2 by blast
qed

lemma same_turn_refl: "same_turn c c"
proof (cases "field ''parts'' c")
  case None
  then show ?thesis by (simp add: same_turn_def)
next
  case (Some v)
  then obtain kvs where c: "c = JObj kvs" by (cases c) simp_all
  have "AList.update ''parts'' v kvs = kvs" using Some c by (simp add: update_triv)
  then show ?thesis using Some c by (cases v) (simp_all add: same_turn_def)
qed

lemma claude_content_flat:
  assumes nn: "content \<noteq> JNull"
    and ps: "claude_parts uuid ctx (turn_parts content) w = Inr (ps', w')"
  shows "\<exists>content'. claude_content uuid ctx content w = Inr (content', w')
           \<and> turn_parts content' = ps' \<and> same_turn content content'"
proof (cases "\<exists>ps. field ''parts'' content = Some (JArr ps)")
  case True
  then obtain ps where f: "field ''parts'' content = Some (JArr ps)" by blast
  then obtain kvs where c: "content = JObj kvs" by (cases content) simp_all
  have tp: "turn_parts content = ps" using f by (simp add: turn_parts_def)
  let ?c' = "set_field ''parts'' (JArr ps') content"
  have step: "claude_content uuid ctx content w = Inr (?c', w')"
    using nn f ps tp by (simp add: claude_content_def)
  have f': "field ''parts'' ?c' = Some (JArr ps')" using c by (simp add: update_conv')
  have "turn_parts ?c' = ps'" using f' by (simp add: turn_parts_def)
  moreover have "same_turn content ?c'" using f' by (simp add: same_turn_def)
  ultimately show ?thesis using step by blast
next
  case False
  have tp: "turn_parts content = []"
  proof (cases "field ''parts'' content")
    case None
    then show ?thesis by (simp add: turn_parts_def)
  next
    case (Some v)
    then show ?thesis using False by (cases v) (simp_all add: turn_parts_def)
  qed
  have step: "claude_content uuid ctx content w = Inr (content, w)"
  proof (cases "field ''parts'' content")
    case None
    then show ?thesis using nn by (simp add: claude_content_def)
  next
    case (Some v)
    then show ?thesis using nn False by (cases v) (simp_all add: claude_content_def)
  qed
  show ?thesis using step tp ps same_turn_refl by simp
qed

lemma claude_content_list_flat:
  "JNull \<notin> set cs \<Longrightarrow> claude_parts uuid ctx (conversation_parts cs) w = Inr (ps', w') \<Longrightarrow>
     \<exists>cs'. claude_content_list uuid ctx cs w = Inr (cs', w')
        \<and> conversation_parts cs' = ps' \<and> list_all2 same_turn cs cs'"
proof (induction cs arbitrary: w ps')
  case Nil
  then show ?case by (simp add: conversation_parts_def)
next
  case (Cons c cs)
  then have nn: "c \<noteq> JNull" and rest: "JNull \<notin> set cs" by auto
  have app: "claude_parts uuid ctx (turn_parts c @ conversation_parts cs) w = Inr (ps', w')"
    using Cons.prems(2) by (simp add: conversation_parts_def)
  obtain a w1 where a: "claude_parts uuid ctx (turn_parts c) w = Inr (a, w1)"
    using app by (cases "claude_parts uuid ctx (turn_parts c) w") (auto simp add: claude_parts_append)
  obtain b where b: "claude_parts uuid ctx (conversation_parts cs) w1 = Inr (b, w')" and eq: "ps' = a @ b"
    using app a by (cases "claude_parts uuid ctx (conversation_parts cs) w1")
      (auto simp add: claude_parts_append)
  from claude_content_flat[OF nn a] obtain c' where
    c': "claude_content uuid ctx c w = Inr (c', w1)" and tp: "turn_parts c' = a" and st: "same_turn c c'"
    by blast
  from Cons.IH[OF rest b] obtain cs' where
    cs': "claude_content_list uuid ctx cs w1 = Inr (cs', w')" and fl: "conversation_parts cs' = b"
    and l2: "list_all2 same_turn cs cs'" by blast
  have "claude_content_list uuid ctx (c # cs) w = Inr (c' # cs', w')" using c' cs' by simp
  moreover have "conversation_parts (c' # cs') = ps'" using tp fl eq by (simp add: conversation_parts_def)
  moreover have "list_all2 same_turn (c # cs) (c' # cs')" using st l2 by simp
  ultimately show ?case by blast
qed

lemma call_step:
  assumes "is_call_without_id name part"
  shows "claude_part uuid ctx part w =
    Inr (Some (with_call_id (JStr (name @ ''-'' @ uuid (w_uuid w))) part),
         w\<lparr> w_queues := (w_queues w)(name := w_queues w name @ [JStr (name @ ''-'' @ uuid (w_uuid w))]),
            w_uuid := w_uuid w + 1, w_toolsTransformed := True \<rparr>)"
proof -
  from assms obtain fc where fc: "field ''functionCall'' part = Some (JObj fc)"
    and nm: "map_of fc ''name'' = Some (JStr name)" and noid: "\<not> truthy (map_of fc ''id'')"
    and nt: "field ''thought'' part \<noteq> Some (JBool True)" and nr: "field ''functionResponse'' part = None"
    by (auto simp add: is_call_without_id_def split: option.splits json.splits)
  have nn: "part \<noteq> JNull" using fc by auto
  let ?id = "JStr (name @ ''-'' @ uuid (w_uuid w))"
  let ?p = "set_field ''functionCall'' (JObj (AList.update ''id'' ?id fc)) part"
  let ?w = "w\<lparr> w_queues := (w_queues w)(name := w_queues w name @ [?id]),
            w_uuid := w_uuid w + 1, w_toolsTransformed := True \<rparr>"
  have a: "claude_functionCall uuid part w = (?p, ?w)"
    using fc nm noid by (simp add: claude_functionCall_def Let_def)
  have b: "claude_functionResponse ?p ?w = (?p, ?w)"
    using nr by (simp add: claude_functionResponse_def field_set_field_other)
  have c: "with_call_id ?id part = ?p" using fc by (simp add: with_call_id_def)
  show ?thesis
    by (simp only: claude_part_def claude_calls_def a b c nn nt if_False prod.case)
qed

lemma response_step:
  assumes "is_response_without_id name part" and "w_queues w name = callId # rest"
  shows "claude_part uuid ctx part w =
    Inr (Some (with_response_id callId part), w\<lparr> w_queues := (w_queues w)(name := rest) \<rparr>)"
proof -
  from assms obtain fr where fr: "field ''functionResponse'' part = Some (JObj fr)"
    and nm: "map_of fr ''name'' = Some (JStr name)" and noid: "\<not> truthy (map_of fr ''id'')"
    and nt: "field ''thought'' part \<noteq> Some (JBool True)" and nc: "field ''functionCall'' part = None"
    by (auto simp add: is_response_without_id_def split: option.splits json.splits)
  have nn: "part \<noteq> JNull" using fr by auto
  have a: "claude_functionCall uuid part w = (part, w)"
    using nc by (simp add: claude_functionCall_def)
  have b: "claude_functionResponse part w =
     (set_field ''functionResponse'' (JObj (AList.update ''id'' callId fr)) part,
      w\<lparr> w_queues := (w_queues w)(name := rest) \<rparr>)"
    using fr nm noid assms(2) by (simp add: claude_functionResponse_def)
  have c: "with_response_id callId part = set_field ''functionResponse'' (JObj (AList.update ''id'' callId fr)) part"
    using fr by (simp add: with_response_id_def)
  show ?thesis
    by (simp only: claude_part_def claude_calls_def a b c nn nt if_False prod.case)
qed


text \<open>
  Claim C6, amended. A conversation without a \<^verbatim>\<open>null\<close> turn or part, whose parts in the
  order of the walk are: any parts \<open>pre\<close> the walk gets through, a function call named
  \<^verbatim>\<open>search\<close> without identifier, parts \<open>mid1\<close> that leave the queue of \<^verbatim>\<open>search\<close>
  alone, a second such call, then a function response named \<^verbatim>\<open>search\<close> without
  identifier and a second one, with only parts before and between them (\<open>mid2\<close>,
  \<open>mid3\<close>) that take nothing off that queue, and any parts \<open>post\<close>. The other parts may
  be reasoning parts, text, and calls and responses of other tools or with identifiers; the
  four parts may lie in any turns. Transformed for the proxied (claude) family, the first
  call gets the identifier \<^verbatim>\<open>search-\<close> followed by the next generated UUID and the second
  call \<^verbatim>\<open>search-\<close> followed by a UUID generated later. With \<open>q\<close> the identifiers pending
  in the queue of \<^verbatim>\<open>search\<close> when the first call is reached, the two responses get the
  first and the second element of \<open>q\<close> followed by the two new identifiers: when none is
  pending, the first response gets the identifier of the first call and the second response
  that of the second call. Every output turn is the input turn with at most its parts
  replaced.
\<close>

theorem function_call_response_pairing:
  assumes c1: "is_call_without_id ''search'' c1" and c2: "is_call_without_id ''search'' c2"
    and r1: "is_response_without_id ''search'' r1" and r2: "is_response_without_id ''search'' r2"
    and conv: "conversation_parts cs = pre @ c1 # mid1 @ c2 # mid2 @ r1 # mid3 @ r2 # post"
    and turns: "JNull \<notin> set cs"
    and before: "claude_parts uuid ctx pre (claude_walk_start cache tt) = Inr (pre', w)"
    and pending: "w_queues w ''search'' = q"
    and m1: "list_all (leaves_queue ''search'') mid1"
    and m23: "list_all (takes_nothing ''search'') (mid2 @ mid3)"
    and post: "JNull \<notin> set post"
  shows "\<exists>cs' w' mid1' mid2' mid3' post' n.
      transformClaudeRequest_contents uuid ctx cache tt (Some (JArr cs)) = Inr (Some (JArr cs'), w')
    \<and> list_all2 same_turn cs cs'
    \<and> w_uuid w < n
    \<and> conversation_parts cs' =
        pre' @ with_call_id (JStr (''search-'' @ uuid (w_uuid w))) c1
        # mid1' @ with_call_id (JStr (''search-'' @ uuid n)) c2
        # mid2' @ with_response_id
                   ((q @ [JStr (''search-'' @ uuid (w_uuid w)), JStr (''search-'' @ uuid n)]) ! 0) r1
        # mid3' @ with_response_id
                   ((q @ [JStr (''search-'' @ uuid (w_uuid w)), JStr (''search-'' @ uuid n)]) ! 1) r2
        # post'"
proof -
  let ?w0 = "claude_walk_start cache tt"
  let ?id1 = "JStr (''search'' @ ''-'' @ uuid (w_uuid w))"
  let ?w1 = "w\<lparr> w_queues := (w_queues w)(''search'' := w_queues w ''search'' @ [?id1]),
            w_uuid := w_uuid w + 1, w_toolsTransformed := True \<rparr>"
  have s1: "claude_part uuid ctx c1 w = Inr (Some (with_call_id ?id1 c1), ?w1)"
    by (rule call_step[OF c1])
  have q1: "w_queues ?w1 ''search'' = q @ [?id1]" and u1: "w_uuid w < w_uuid ?w1"
    using pending by simp_all
  from claude_parts_leaves_queue[OF m1, of uuid ctx ?w1]
  obtain mid1' w2 where p2: "claude_parts uuid ctx mid1 ?w1 = Inr (mid1', w2)"
    and q2: "w_queues w2 ''search'' = w_queues ?w1 ''search''" and u2: "w_uuid ?w1 \<le> w_uuid w2"
    by blast
  let ?n = "w_uuid w2"
  let ?id2 = "JStr (''search'' @ ''-'' @ uuid ?n)"
  let ?w3 = "w2\<lparr> w_queues := (w_queues w2)(''search'' := w_queues w2 ''search'' @ [?id2]),
            w_uuid := w_uuid w2 + 1, w_toolsTransformed := True \<rparr>"
  have n: "w_uuid w < ?n" using u1 u2 by simp
  have s3: "claude_part uuid ctx c2 w2 = Inr (Some (with_call_id ?id2 c2), ?w3)"
    by (rule call_step[OF c2])
  obtain a b rest where ids: "q @ [?id1, ?id2] = a # b # rest"
    by (cases q; cases "tl q") auto
  have q3: "w_queues ?w3 ''search'' = a # b # rest"
    using q2 q1 ids by simp
  have m2: "list_all (takes_nothing ''search'') mid2" and m3: "list_all (takes_nothing ''search'') mid3"
    using m23 by simp_all
  from claude_parts_takes_nothing[OF m2, of uuid ctx ?w3]
  obtain mid2' w4 ext where p4: "claude_parts uuid ctx mid2 ?w3 = Inr (mid2', w4)"
    and q4: "w_queues w4 ''search'' = w_queues ?w3 ''search'' @ ext"
    by blast
  have q4': "w_queues w4 ''search'' = a # (b # rest @ ext)" using q4 q3 by simp
  let ?w5 = "w4\<lparr> w_queues := (w_queues w4)(''search'' := b # rest @ ext) \<rparr>"
  have s5: "claude_part uuid ctx r1 w4 = Inr (Some (with_response_id a r1), ?w5)"
    by (rule response_step[OF r1 q4'])
  from claude_parts_takes_nothing[OF m3, of uuid ctx ?w5]
  obtain mid3' w6 ext' where p6: "claude_parts uuid ctx mid3 ?w5 = Inr (mid3', w6)"
    and q6: "w_queues w6 ''search'' = w_queues ?w5 ''search'' @ ext'"
    by blast
  have q6': "w_queues w6 ''search'' = b # (rest @ ext @ ext')" using q6 by simp
  let ?w7 = "w6\<lparr> w_queues := (w_queues w6)(''search'' := rest @ ext @ ext') \<rparr>"
  have s7: "claude_part uuid ctx r2 w6 = Inr (Some (with_response_id b r2), ?w7)"
    by (rule response_step[OF r2 q6'])
  from claude_parts_total[OF post, of uuid ctx ?w7]
  obtain post' w8 where p8: "claude_parts uuid ctx post ?w7 = Inr (post', w8)" by blast
  have t7: "claude_parts uuid ctx (r2 # post) w6 = Inr (with_response_id b r2 # post', w8)"
    using parts_cons_result[OF s7 p8] by simp
  have t6: "claude_parts uuid ctx (mid3 @ r2 # post) ?w5 = Inr (mid3' @ with_response_id b r2 # post', w8)"
    by (rule parts_append_result[OF p6 t7])
  have t5: "claude_parts uuid ctx (r1 # mid3 @ r2 # post) w4
     = Inr (with_response_id a r1 # mid3' @ with_response_id b r2 # post', w8)"
    using parts_cons_result[OF s5 t6] by simp
  have t4: "claude_parts uuid ctx (mid2 @ r1 # mid3 @ r2 # post) ?w3
     = Inr (mid2' @ with_response_id a r1 # mid3' @ with_response_id b r2 # post', w8)"
    by (rule parts_append_result[OF p4 t5])
  have t3: "claude_parts uuid ctx (c2 # mid2 @ r1 # mid3 @ r2 # post) w2
     = Inr (with_call_id ?id2 c2 # mid2' @ with_response_id a r1 # mid3' @ with_response_id b r2 # post', w8)"
    using parts_cons_result[OF s3 t4] by simp
  have t2: "claude_parts uuid ctx (mid1 @ c2 # mid2 @ r1 # mid3 @ r2 # post) ?w1
     = Inr (mid1' @ with_call_id ?id2 c2 # mid2' @ with_response_id a r1
              # mid3' @ with_response_id b r2 # post', w8)"
    by (rule parts_append_result[OF p2 t3])
  have t1: "claude_parts uuid ctx (c1 # mid1 @ c2 # mid2 @ r1 # mid3 @ r2 # post) w
     = Inr (with_call_id ?id1 c1 # mid1' @ with_call_id ?id2 c2 # mid2' @ with_response_id a r1
              # mid3' @ with_response_id b r2 # post', w8)"
    using parts_cons_result[OF s1 t2] by simp
  have t0: "claude_parts uuid ctx (conversation_parts cs) ?w0
     = Inr (pre' @ with_call_id ?id1 c1 # mid1' @ with_call_id ?id2 c2 # mid2' @ with_response_id a r1
              # mid3' @ with_response_id b r2 # post', w8)"
    unfolding conv by (rule parts_append_result[OF before t1])
  from claude_content_list_flat[OF turns t0]
  obtain cs' where l: "claude_content_list uuid ctx cs ?w0 = Inr (cs', w8)"
    and fl: "conversation_parts cs' = pre' @ with_call_id ?id1 c1 # mid1' @ with_call_id ?id2 c2
              # mid2' @ with_response_id a r1 # mid3' @ with_response_id b r2 # post'"
    and st: "list_all2 same_turn cs cs'"
    by blast
  have tr: "transformClaudeRequest_contents uuid ctx cache tt (Some (JArr cs)) = Inr (Some (JArr cs'), w8)"
    using l by (simp add: transformClaudeRequest_contents_def)
  have a: "(q @ [JStr (''search-'' @ uuid (w_uuid w)), JStr (''search-'' @ uuid ?n)]) ! 0 = a"
    and b: "(q @ [JStr (''search-'' @ uuid (w_uuid w)), JStr (''search-'' @ uuid ?n)]) ! 1 = b"
    using ids by simp_all
  have fl': "conversation_parts cs' =
        pre' @ with_call_id (JStr (''search-'' @ uuid (w_uuid w))) c1
        # mid1' @ with_call_id (JStr (''search-'' @ uuid ?n)) c2
        # mid2' @ with_response_id
                   ((q @ [JStr (''search-'' @ uuid (w_uuid w)), JStr (''search-'' @ uuid ?n)]) ! 0) r1
        # mid3' @ with_response_id
                   ((q @ [JStr (''search-'' @ uuid (w_uuid w)), JStr (''search-'' @ uuid ?n)]) ! 1) r2
        # post'"
    unfolding a b using fl by simp
  show ?thesis
    by (rule exI[of _ cs'], rule exI[of _ w8], rule exI[of _ mid1'], rule exI[of _ mid2'],
        rule exI[of _ mid3'], rule exI[of _ post'], rule exI[of _ ?n])
       (intro conjI tr st n fl')
qed


theorem function_call_response_pairing_witness:
  "\<exists>cs' w' mid1' mid2' mid3' post' n.
      transformClaudeRequest_contents example_uuid claude_ctx Map.empty False
        (Some (JArr two_tools_conversation)) = Inr (Some (JArr cs'), w')
    \<and> list_all2 same_turn two_tools_conversation cs'
    \<and> 0 < n
    \<and> conversation_parts cs' =
        [text_part ''find a and b'', signed_thought]
        @ with_call_id (JStr ''search-0a1b'') (search_call ''a'')
        # mid1' @ with_call_id (JStr (''search-'' @ example_uuid n)) (search_call ''b'')
        # mid2' @ with_response_id (JStr ''search-0a1b'') (search_response ''ra'')
        # mid3' @ with_response_id (JStr (''search-'' @ example_uuid n)) (search_response ''rb'')
        # post'"
proof -
  have c1: "is_call_without_id ''search'' (search_call ''a'')"
    and c2: "is_call_without_id ''search'' (search_call ''b'')"
    and r1: "is_response_without_id ''search'' (search_response ''ra'')"
    and r2: "is_response_without_id ''search'' (search_response ''rb'')"
    by (simp_all add: is_call_without_id_def is_response_without_id_def search_call_def search_response_def)
  have conv: "conversation_parts two_tools_conversation
     = [text_part ''find a and b'', signed_thought] @ search_call ''a'' # [read_call] @ search_call ''b''
       # [] @ search_response ''ra'' # [read_response] @ search_response ''rb'' # []"
    by (simp add: conversation_parts_def two_tools_conversation_def turn_parts_def turn_with_def)
  have turns: "JNull \<notin> set two_tools_conversation"
    by (simp add: two_tools_conversation_def turn_with_def)
  have before: "claude_parts example_uuid claude_ctx [text_part ''find a and b'', signed_thought]
        (claude_walk_start Map.empty False)
      = Inr ([text_part ''find a and b'', signed_thought], walk_after_thought)"
    by (simp add: claude_part_def claude_thought_def claude_calls_def claude_functionCall_def
          claude_functionResponse_def signature_missing_or_short_def text_part_def signed_thought_def
          VALID_SIGNATURE_def claude_ctx_def walk_after_thought_def call_cacheSignature_def
          claude_walk_start_def Let_def)
  have pending: "w_queues walk_after_thought ''search'' = []"
    by (simp add: walk_after_thought_def claude_walk_start_def)
  have m1: "list_all (leaves_queue ''search'') [read_call]"
    by (simp add: leaves_queue_def calls_name_def responds_without_id_def named_object_def read_call_def)
  have m23: "list_all (takes_nothing ''search'') ([] @ [read_response])"
    by (simp add: takes_nothing_def responds_without_id_def named_object_def read_response_def)
  have post: "JNull \<notin> set []" by simp
  have u: "w_uuid walk_after_thought = 0"
    by (simp add: walk_after_thought_def claude_walk_start_def)
  from function_call_response_pairing[OF c1 c2 r1 r2 conv turns before pending m1 m23 post]
  show ?thesis unfolding u by (simp add: example_uuid_def)
qed

text \<open>
  An earlier \<^verbatim>\<open>search\<close> call that carries an identifier is queued as well, and its
  response, which carries the identifier too, takes nothing off the queue. The first of the
  two responses without identifier then gets the earlier identifier, and the second one the
  identifier of the first call.
\<close>

theorem pairing_after_earlier_pair_counterexample:
  "map_sum id fst (transformClaudeRequest_contents example_uuid claude_ctx Map.empty False
      (Some (JArr earlier_pair_conversation)))
   = Inr (Some (JArr
      [turn_with ''model'' [old_call],
       turn_with ''user'' [old_response],
       turn_with ''model'' [with_call_id (JStr ''search-0a1b'') (search_call ''a''),
                           with_call_id (JStr ''search-2c3d'') (search_call ''b'')],
       turn_with ''user'' [with_response_id (JStr ''OLD'') (search_response ''ra''),
                          with_response_id (JStr ''search-0a1b'') (search_response ''rb'')]]))
   \<and> with_response_id (JStr ''OLD'') (search_response ''ra'')
       \<noteq> with_response_id (JStr ''search-0a1b'') (search_response ''ra'')
   \<and> with_response_id (JStr ''search-0a1b'') (search_response ''rb'')
       \<noteq> with_response_id (JStr ''search-2c3d'') (search_response ''rb'')"
  by (simp add: transformClaudeRequest_contents_def claude_content_def claude_part_def
      claude_calls_def claude_functionCall_def claude_functionResponse_def
      earlier_pair_conversation_def turn_with_def old_call_def old_response_def
      search_call_def search_response_def with_call_id_def with_response_id_def
      example_uuid_def claude_walk_start_def Let_def)

text \<open>The conversation of the reasoning model with two tools, as it comes out of the walk.\<close>

lemma two_tools_conversation_transformed:
  "map_sum id fst (transformClaudeRequest_contents example_uuid claude_ctx Map.empty False
      (Some (JArr two_tools_conversation)))
   = Inr (Some (JArr
      [turn_with ''user'' [text_part ''find a and b''],
       turn_with ''model'' [signed_thought,
                           with_call_id (JStr ''search-0a1b'') (search_call ''a''),
                           with_call_id (JStr ''read-2c3d'') read_call,
                           with_call_id (JStr ''search-4e5f'') (search_call ''b'')],
       turn_with ''user'' [with_response_id (JStr ''search-0a1b'') (search_response ''ra''),
                          with_response_id (JStr ''read-2c3d'') read_response,
                          with_response_id (JStr ''search-4e5f'') (search_response ''rb'')]]))"
  by (simp add: transformClaudeRequest_contents_def claude_content_def claude_part_def
      claude_thought_def signature_missing_or_short_def signed_thought_def VALID_SIGNATURE_def
      claude_calls_def claude_functionCall_def claude_functionResponse_def
      two_tools_conversation_def turn_with_def read_call_def read_response_def text_part_def
      search_call_def search_response_def with_call_id_def with_response_id_def
      example_uuid_def claude_walk_start_def claude_ctx_def Let_def)

subsection \<open>Reasoning budget and output-token ceiling\<close>

lemma thinking_model: "str_includes ''claude-opus-4-5-thinking'' ''-thinking''"
  by simp

text \<open>
  Claim C8 says that the output-token ceiling of a thinking model always ends strictly above
  the reasoning budget. With a budget of 64000 and no ceiling the transformer stores the
  ceiling 64000, equal to the budget; with a budget of 100000 and a ceiling of 80000 it
  stores 64000, below both.
\<close>

theorem thinking_budget_reaches_max_output:
  "transformClaudeRequest_generationConfig ''claude-opus-4-5-thinking'' (Some budget_64000_request)
     = Some \<lparr> thinkingConfig = Some (JObj [(''include_thoughts'', JBool True),
                                             (''thinking_budget'', JNum 64000)]),
              maxOutputTokens = Some 64000, max_output_tokens = None, gc_other = [] \<rparr>
   \<and> transformClaudeRequest_generationConfig ''claude-opus-4-5-thinking'' (Some budget_over_max_request)
     = Some \<lparr> thinkingConfig = Some (JObj [(''include_thoughts'', JBool True),
                                             (''thinking_budget'', JNum 100000)]),
              maxOutputTokens = Some 64000, max_output_tokens = None, gc_other = [] \<rparr>"
  by (simp add: transformClaudeRequest_generationConfig_def budget_64000_request_def
      budget_over_max_request_def normalizeThinkingConfig_def nullish_or_def thinking_defaults_def
      finalThinkingConfig_def truthy_number_def Let_def)

theorem thinking_budget_reaches_max_output_witness:
  "map_option effective_max_output_tokens
     (transformClaudeRequest_generationConfig ''claude-opus-4-5-thinking'' (Some budget_64000_request))
   = Some (Some 64000)
   \<and> map_option effective_max_output_tokens
     (transformClaudeRequest_generationConfig ''claude-opus-4-5-thinking'' (Some budget_over_max_request))
   = Some (Some 64000)"
  using thinking_budget_reaches_max_output by (simp add: effective_max_output_tokens_def)

text \<open>
  For every thinking model the transformer stores \<^verbatim>\<open>include_thoughts = true\<close> and a
  budget that is not zero, and the ceiling is above the budget whenever the budget is below
  64000.
\<close>

lemma thinking_defaults_budget:
  "\<exists>b. thinkingBudget (thinking_defaults nt) = Some b \<and> b \<noteq> 0
       \<and> include_thoughts (thinking_defaults nt) \<noteq> None
       \<and> (nt = None \<longrightarrow> b = 16384)
       \<and> (\<forall>t. nt = Some t \<longrightarrow> b = (case thinkingBudget t of None \<Rightarrow> 16384 | Some v \<Rightarrow> if v = 0 then 16384 else v))"
  by (cases nt) (auto simp add: thinking_defaults_def Let_def split: option.splits)

lemma normalize_include_thoughts:
  "normalizeThinkingConfig c = Some t \<Longrightarrow> include_thoughts t = None"
  by (auto simp add: normalizeThinkingConfig_def Let_def split: option.splits json.splits if_splits)

lemma thinking_defaults_include:
  "(\<forall>t. nt = Some t \<longrightarrow> include_thoughts t = None) \<Longrightarrow> include_thoughts (thinking_defaults nt) = Some True"
  by (cases nt) (auto simp add: thinking_defaults_def Let_def)

lemma thinking_model_generationConfig:
  assumes thinking: "str_includes model ''-thinking''"
  shows "\<exists>g b. transformClaudeRequest_generationConfig model raw = Some g
           \<and> thinkingConfig g = Some (JObj [(''include_thoughts'', JBool True), (''thinking_budget'', JNum b)])
           \<and> b \<noteq> 0
           \<and> (\<exists>mx. effective_max_output_tokens g = Some mx \<and> (b < 64000 \<longrightarrow> b < mx))"
proof -
  let ?nt = "normalizeThinkingConfig (case raw of Some g \<Rightarrow> thinkingConfig g | None \<Rightarrow> None)"
  let ?t = "thinking_defaults ?nt"
  have ne: "model \<noteq> ''gemini-claude-sonnet-4-5''"
    using thinking by auto
  obtain b where b: "thinkingBudget ?t = Some b" "b \<noteq> 0"
    using thinking_defaults_budget[of ?nt] by blast
  have inc: "include_thoughts ?t = Some True"
    by (rule thinking_defaults_include) (simp add: normalize_include_thoughts)
  have fin: "finalThinkingConfig ?t = JObj [(''include_thoughts'', JBool True), (''thinking_budget'', JNum b)]"
    using b inc by (simp add: finalThinkingConfig_def)
  show ?thesis
  proof (cases raw)
    case None
    then show ?thesis using thinking ne b fin
      by (simp add: transformClaudeRequest_generationConfig_def Let_def truthy_number_def
            effective_max_output_tokens_def)
  next
    case (Some g)
    then show ?thesis using thinking ne b fin
      by (auto simp add: transformClaudeRequest_generationConfig_def Let_def truthy_number_def
            effective_max_output_tokens_def split: option.splits)
  qed
qed

subsection \<open>Usage headers\<close>

lemma field_update_other: "k \<noteq> k' \<Longrightarrow> field k (JObj (AList.update k' v kvs)) = map_of kvs k"
  by (simp add: update_conv')

lemma usage_preview_patch:
  "rewriteGeminiPreviewAccessError (JObj body) st rm = Some p \<Longrightarrow>
     extractUsageMetadata p = extractUsageMetadata (JObj body)"
  by (auto simp add: rewriteGeminiPreviewAccessError_def extractUsageMetadata_def Let_def
        update_conv' split: if_splits)

lemma usage_rate_limit_patch:
  "rewriteGeminiRateLimitError (JObj body) = Some p \<Longrightarrow>
     extractUsageMetadata p = extractUsageMetadata (JObj body)"
  by (auto simp add: rewriteGeminiRateLimitError_def extractUsageMetadata_def Let_def
        update_conv' split: if_splits)

lemma usage_headers_lookup:
  "map_of (usage_headers (Some u) hs) ''x-gemini-cached-content-token-count''
     = count_header (cachedContentTokenCount u) (cachedContentTokenCount u)
         (map_of hs ''x-gemini-cached-content-token-count'')"
  "map_of (usage_headers (Some u) hs) ''x-gemini-total-token-count''
     = count_header (cachedContentTokenCount u) (totalTokenCount u)
         (map_of hs ''x-gemini-total-token-count'')"
  "map_of (usage_headers (Some u) hs) ''x-gemini-prompt-token-count''
     = count_header (cachedContentTokenCount u) (promptTokenCount u)
         (map_of hs ''x-gemini-prompt-token-count'')"
  "map_of (usage_headers (Some u) hs) ''x-gemini-candidates-token-count''
     = count_header (cachedContentTokenCount u) (candidatesTokenCount u)
         (map_of hs ''x-gemini-candidates-token-count'')"
  by (simp_all add: usage_headers_def set_header_def count_header_def update_conv'
        split: option.splits)

text \<open>
  Claim C9, amended. For a buffered (non-streaming) JSON response whose body parses to an
  object with usage metadata under \<^verbatim>\<open>response.usageMetadata\<close>, when the normalizer
  completes its buffered path (the walk over the candidates does not throw and the toast
  does not fail): the header \<^verbatim>\<open>x-gemini-cached-content-token-count\<close> is set when the
  cached-content count is a number, and each of \<^verbatim>\<open>x-gemini-total-token-count\<close>,
  \<^verbatim>\<open>x-gemini-prompt-token-count\<close> and \<^verbatim>\<open>x-gemini-candidates-token-count\<close> is set when
  the cached-content count and its own count are numbers; otherwise the header is as the
  response came.
\<close>

theorem usage_headers_surfaced:
  assumes ct: "map_of (resp_headers response) ''content-type'' = Some contentType"
    and js: "str_includes contentType ''application/json''"
    and parsed: "parse (resp_text response) = Some (JObj body)"
    and resp: "map_of body ''response'' = Some (JObj r)"
    and usage: "map_of r ''usageMetadata'' = Some (JObj u)"
    and nothrow: "sessionId = None \<or> \<not> caching_throws (JObj body)"
    and toast: "\<not> toast_fails"
  shows "out_headers (transformAntigravityResponse parse toast_fails response False requestedModel sessionId)
           = usage_headers (Some (usage_of_object u)) (resp_headers response)
       \<and> map_of (out_headers (transformAntigravityResponse parse toast_fails response False requestedModel sessionId))
             ''x-gemini-cached-content-token-count''
           = count_header (toNumber (map_of u ''cachedContentTokenCount''))
               (toNumber (map_of u ''cachedContentTokenCount''))
               (map_of (resp_headers response) ''x-gemini-cached-content-token-count'')
       \<and> map_of (out_headers (transformAntigravityResponse parse toast_fails response False requestedModel sessionId))
             ''x-gemini-total-token-count''
           = count_header (toNumber (map_of u ''cachedContentTokenCount''))
               (toNumber (map_of u ''totalTokenCount''))
               (map_of (resp_headers response) ''x-gemini-total-token-count'')
       \<and> map_of (out_headers (transformAntigravityResponse parse toast_fails response False requestedModel sessionId))
             ''x-gemini-prompt-token-count''
           = count_header (toNumber (map_of u ''cachedContentTokenCount''))
               (toNumber (map_of u ''promptTokenCount''))
               (map_of (resp_headers response) ''x-gemini-prompt-token-count'')
       \<and> map_of (out_headers (transformAntigravityResponse parse toast_fails response False requestedModel sessionId))
             ''x-gemini-candidates-token-count''
           = count_header (toNumber (map_of u ''cachedContentTokenCount''))
               (toNumber (map_of u ''candidatesTokenCount''))
               (map_of (resp_headers response) ''x-gemini-candidates-token-count'')"
proof -
  let ?out = "transformAntigravityResponse parse toast_fails response False requestedModel sessionId"
  have pb: "parseGeminiApiBody parse (resp_text response) = Some (JObj body)"
    using parsed by (simp add: parseGeminiApiBody_def)
  have eu: "extractUsageMetadata (JObj body) = Some (usage_of_object u)"
    using resp usage by (simp add: extractUsageMetadata_def usage_of_object_def)
  let ?pre = "rewriteGeminiPreviewAccessError (JObj body) (resp_status response) requestedModel"
  have nt: "((case sessionId of Some sid \<Rightarrow> sid \<noteq> [] | None \<Rightarrow> False) \<and> caching_throws (JObj body)) = False"
    using nothrow by (auto split: option.splits)
  have h: "out_headers ?out = usage_headers (Some (usage_of_object u)) (resp_headers response)"
  proof (cases ?pre)
    case (Some p)
    then have "extractUsageMetadata p = Some (usage_of_object u)"
      using usage_preview_patch eu by simp
    then show ?thesis using Some
      by (simp add: transformAntigravityResponse_def Let_def passthrough_def ct js pb toast nt)
  next
    case None
    show ?thesis
    proof (cases "rewriteGeminiRateLimitError (JObj body)")
      case (Some p)
      then have "extractUsageMetadata p = Some (usage_of_object u)"
        using usage_rate_limit_patch eu by simp
      then show ?thesis using None Some
        by (simp add: transformAntigravityResponse_def Let_def passthrough_def ct js pb toast nt)
    next
      case rl: None
      show ?thesis using None rl eu
        by (simp add: transformAntigravityResponse_def Let_def passthrough_def ct js pb toast nt)
    qed
  qed
  show ?thesis
    unfolding h usage_headers_lookup by (simp add: usage_of_object_def)
qed

text \<open>
  A JSON response with total, prompt and candidates counts and no cached-content count
  comes back with the headers it had.
\<close>

theorem usage_headers_counterexample:
  "extractUsageMetadata usage_without_cached
     = Some \<lparr> totalTokenCount = Some 10, promptTokenCount = Some 4,
              candidatesTokenCount = Some 6, cachedContentTokenCount = None \<rparr>
   \<and> out_headers (transformAntigravityResponse example_parse False
          (json_response ''body without cached count'') False None (Some ''-1''))
     = [(''content-type'', ''application/json'')]"
  by code_simp

theorem usage_headers_surfaced_witness:
  "map_of (out_headers (transformAntigravityResponse example_parse False
             (json_response ''body with cached count'') False None (Some ''-1'')))
          ''x-gemini-cached-content-token-count'' = Some ''3''
   \<and> map_of (out_headers (transformAntigravityResponse example_parse False
             (json_response ''body with cached count'') False None (Some ''-1'')))
          ''x-gemini-total-token-count'' = Some ''10''
   \<and> map_of (out_headers (transformAntigravityResponse example_parse False
             (json_response ''body with cached count'') False None (Some ''-1'')))
          ''x-gemini-prompt-token-count'' = None"
proof -
  let ?body = "[(''response'', JObj [(''usageMetadata'',
      JObj [(''totalTokenCount'', JNum 10), (''cachedContentTokenCount'', JNum 3)])])]"
  let ?r = "[(''usageMetadata'',
      JObj [(''totalTokenCount'', JNum 10), (''cachedContentTokenCount'', JNum 3)])]"
  let ?u = "[(''totalTokenCount'', JNum 10), (''cachedContentTokenCount'', JNum 3)]"
  have ct: "map_of (resp_headers (json_response ''body with cached count'')) ''content-type''
              = Some ''application/json''"
    by (simp add: json_response_def)
  have js: "str_includes ''application/json'' ''application/json''" by simp
  have parsed: "example_parse (resp_text (json_response ''body with cached count'')) = Some (JObj ?body)"
    by (simp add: json_response_def example_parse_def usage_with_cached_def)
  have resp: "map_of ?body ''response'' = Some (JObj ?r)" by simp
  have usage: "map_of ?r ''usageMetadata'' = Some (JObj ?u)" by simp
  have nothrow: "Some ''-1'' = None \<or> \<not> caching_throws (JObj ?body)"
    by (simp add: caching_throws_def nullish_or_def)
  have toast: "\<not> False" by simp
  have s3: "String_of_number 3 = ''3''" and s10: "String_of_number 10 = ''10''" by code_simp+
  from usage_headers_surfaced[where parse = example_parse
         and response = "json_response ''body with cached count''"
         and contentType = "''application/json''" and body = ?body and r = ?r and u = ?u
         and sessionId = "Some ''-1''" and toast_fails = False and requestedModel = None,
         OF ct js parsed resp usage nothrow toast, THEN conjunct2]
  show ?thesis
    by (simp add: count_header_def toNumber_def s3 s10 json_response_def)
qed

subsection \<open>Orchestrator\<close>

lemma backoff_waits_sum: "sum_list (backoff_waits r i) = max 0 r"
proof (induction r i rule: backoff_waits.induct)
  case (1 remainingMs stepIndex)
  show ?case
  proof (cases "remainingMs > 0")
    case True
    let ?stepMs = "if stepIndex < length stepsMs then stepsMs ! stepIndex else 30000"
    let ?waitMs = "min remainingMs ?stepMs"
    have ih: "sum_list (backoff_waits (remainingMs - ?waitMs) (stepIndex + 1)) = max 0 (remainingMs - ?waitMs)"
      using "1.IH"[OF True refl refl] .
    have le: "?waitMs \<le> remainingMs" by simp
    have "sum_list (backoff_waits remainingMs stepIndex)
            = ?waitMs + sum_list (backoff_waits (remainingMs - ?waitMs) (stepIndex + 1))"
      using True by (subst backoff_waits.simps) (simp add: Let_def)
    also have "\<dots> = ?waitMs + (remainingMs - ?waitMs)" using ih le by simp
    finally show ?thesis using True by simp
  next
    case False
    then show ?thesis by (subst backoff_waits.simps) simp
  qed
qed

lemma fold_sleep:
  "clock (fold sleep ws w) = clock w + sum_list ws"
  "sleeps (fold sleep ws w) = sleeps w @ ws"
  "attempts (fold sleep ws w) = attempts w"
  "refreshes (fold sleep ws w) = refreshes w"
  by (induction ws arbitrary: w) (simp_all add: sleep_def)

lemma sleepWithBackoff_world:
  "clock (sleepWithBackoff t w) = clock w + max 0 t"
  "sleeps (sleepWithBackoff t w) = sleeps w @ backoff_waits (max 0 t) 0"
  "attempts (sleepWithBackoff t w) = attempts w"
  by (simp_all add: sleepWithBackoff_def fold_sleep backoff_waits_sum)

lemma js_rem_bound: "0 < n \<Longrightarrow> 0 \<le> js_rem c n \<Longrightarrow> js_rem c n < n"
proof -
  assume n: "0 < n" and k: "0 \<le> js_rem c n"
  have m: "\<bar>c\<bar> mod \<bar>n\<bar> < n" using n by simp
  have m0: "0 \<le> \<bar>c\<bar> mod \<bar>n\<bar>" using n by simp
  show ?thesis
  proof (cases "c < 0")
    case True
    then have "js_rem c n = - (\<bar>c\<bar> mod \<bar>n\<bar>)" by (simp add: js_rem_def)
    then show ?thesis using m0 n by linarith
  next
    case False
    then have "js_rem c n = \<bar>c\<bar> mod \<bar>n\<bar> \<or> js_rem c n = 0"
      by (cases "c = 0") (simp_all add: js_rem_def)
    then show ?thesis using m n by auto
  qed
qed

lemma getNext_available:
  assumes "getNext now m = (Some q, m')"
  shows "q < length (accounts m) \<and> \<not> isRateLimited (clear_expired now (accounts m ! q))"
proof -
  let ?as = "map (clear_expired now) (accounts m)"
  let ?av = "available_positions ?as"
  let ?k = "js_rem (currentIndex m) (int (length ?av))"
  from assms have ne: "length ?av \<noteq> 0" and k0: "\<not> ?k < 0" and q: "q = ?av ! nat ?k"
    by (auto simp add: getNext_def Let_def split: if_splits)
  have "?k < int (length ?av)" using js_rem_bound[of "int (length ?av)" "currentIndex m"] ne k0 by simp
  then have "nat ?k < length ?av" using k0 by simp
  then have "q \<in> set ?av" using q by simp
  then have "q < length ?as \<and> \<not> isRateLimited (?as ! q)"
    by (auto simp add: available_positions_def)
  then show ?thesis by auto
qed

lemma getCurrentOrNext_sticky:
  assumes "getCurrentAccount m = Some p" and "\<not> isRateLimited (accounts m ! p)"
  shows "fst (getCurrentOrNext now m) = Some p"
  using assms by (simp add: getCurrentOrNext_def)

lemma getCurrentOrNext_limited:
  assumes cur: "getCurrentAccount m = Some p"
    and lim: "isRateLimited (accounts m ! p)"
    and notyet: "now \<le> rateLimitResetTime (accounts m ! p)"
  shows "fst (getCurrentOrNext now m) \<noteq> Some p"
proof
  assume eq: "fst (getCurrentOrNext now m) = Some p"
  obtain r m' where g: "getNext now m = (r, m')" by (cases "getNext now m")
  have "fst (getCurrentOrNext now m) = r"
    using cur lim notyet g by (cases r) (simp_all add: getCurrentOrNext_def)
  with eq have "getNext now m = (Some p, m')" using g by simp
  from getNext_available[OF this] have "\<not> isRateLimited (clear_expired now (accounts m ! p))" by simp
  then show False using lim notyet by (simp add: clear_expired_def)
qed

lemma select_account_fst: "fst (select_account m w) = fst (getCurrentOrNext (clock w) m)"
  by (auto simp add: select_account_def Let_def split: prod.splits option.splits)

lemma getCurrentAccount_markRateLimited:
  "getCurrentAccount (markRateLimited now p r m) = getCurrentAccount m"
  by (simp add: getCurrentAccount_def markRateLimited_def)

lemma markRateLimited_account:
  "p < length (accounts m) \<Longrightarrow>
     isRateLimited (accounts (markRateLimited now p r m) ! p)
     \<and> rateLimitResetTime (accounts (markRateLimited now p r m) ! p) = now + r"
  by (simp add: markRateLimited_def)

lemma getCurrentAccount_bound: "getCurrentAccount m = Some p \<Longrightarrow> p < length (accounts m)"
  by (auto simp add: getCurrentAccount_def split: if_splits)

lemma tryEndpoints_429:
  assumes "currentEndpoint \<noteq> []"
    and "env_net e (length (attempts w)) currentEndpoint = Responded response"
    and "resp_status response = 429"
  shows "tryEndpoints e (currentEndpoint # rest) p accountCount lastResponse lastAttemptInfo m w
           = Inr (handleRateLimit response p m accountCount
                    (w\<lparr> attempts := attempts w @ [currentEndpoint] \<rparr>))"
  using assms by (simp add: Let_def)

lemma tryEndpoints_next:
  assumes "currentEndpoint \<noteq> []" and "rest \<noteq> []"
    and "env_net e (length (attempts w)) currentEndpoint = Responded response"
    and "resp_status response = 403 \<or> resp_status response = 404
         \<or> (500 \<le> resp_status response \<and> resp_status response \<le> 599)"
  shows "tryEndpoints e (currentEndpoint # rest) p accountCount lastResponse lastAttemptInfo m w
           = tryEndpoints e rest p accountCount (Some response) (Some currentEndpoint) m
               (w\<lparr> attempts := attempts w @ [currentEndpoint] \<rparr>)"
  using assms by (auto simp add: Let_def shouldRetryEndpoint_def)

lemma tryEndpoints_success:
  assumes "currentEndpoint \<noteq> []"
    and "env_net e (length (attempts w)) currentEndpoint = Responded response"
    and "resp_status response = 200"
  shows "tryEndpoints e (currentEndpoint # rest) p accountCount lastResponse lastAttemptInfo m w
           = Inr (Success response currentEndpoint, m, w\<lparr> attempts := attempts w @ [currentEndpoint] \<rparr>)"
  using assms by (simp add: Let_def shouldRetryEndpoint_def)

lemma fetch_loop_dispatch:
  assumes sel: "select_account m0 w0 = (Some p, m)"
    and tok: "\<not> env_token_expired e (accounts m ! p) (clock w0)"
    and acc: "access (accounts m ! p) = Some t" and t: "t \<noteq> []"
    and res: "tryEndpointFallbacks e p accountCount m w0 = Inr (result, m', w')"
  shows "result = RetrySoon \<Longrightarrow>
           fetch_loop e accountCount (Suc fuel) m0 w0 = fetch_loop e accountCount fuel m' w'"
    and "result = RateLimit r \<Longrightarrow> accountCount \<noteq> 1 \<Longrightarrow>
           fetch_loop e accountCount (Suc fuel) m0 w0 = fetch_loop e accountCount fuel m' w'"
    and "result = Success response info \<Longrightarrow>
           fetch_loop e accountCount (Suc fuel) m0 w0 = Returned response m' w'"
  using sel tok acc t res by (simp_all add: Let_def)

text \<open>
  Claim C2. The endpoints are tried one after the other in the order of the list. A response
  with status 403, 404 or 5xx from an endpoint that is not the last makes the loop go on with
  the next endpoint, with the account pool as it was. With three endpoints, a 404 from the
  first two and a 200 from the third, the attempt returns the third response as a success
  after exactly these three fetches, in order, and the call returns that response (it is the
  one handed to the normalizer).
\<close>

theorem endpoint_fallback_order:
  "(currentEndpoint \<noteq> [] \<and> rest \<noteq> []
      \<and> env_net e (length (attempts w)) currentEndpoint = Responded response
      \<and> (resp_status response = 403 \<or> resp_status response = 404
           \<or> (500 \<le> resp_status response \<and> resp_status response \<le> 599))
    \<longrightarrow> tryEndpoints e (currentEndpoint # rest) p accountCount lastResponse lastAttemptInfo m w
          = tryEndpoints e rest p accountCount (Some response) (Some currentEndpoint) m
              (w\<lparr> attempts := attempts w @ [currentEndpoint] \<rparr>))
   \<and> (e1 \<noteq> [] \<and> e2 \<noteq> [] \<and> e3 \<noteq> []
      \<and> env_net e (length (attempts w)) e1 = Responded r1 \<and> resp_status r1 = 404
      \<and> env_net e (length (attempts w) + 1) e2 = Responded r2 \<and> resp_status r2 = 404
      \<and> env_net e (length (attempts w) + 2) e3 = Responded r3 \<and> resp_status r3 = 200
    \<longrightarrow> tryEndpoints e [e1, e2, e3] p accountCount None None m w
          = Inr (Success r3 e3, m, w\<lparr> attempts := attempts w @ [e1, e2, e3] \<rparr>)
        \<and> (CODE_ASSIST_ENDPOINT_FALLBACKS = [e1, e2, e3]
             \<and> select_account m0 w = (Some p, m)
             \<and> \<not> env_token_expired e (accounts m ! p) (clock w)
             \<and> access (accounts m ! p) = Some t \<and> t \<noteq> []
           \<longrightarrow> fetch_loop e accountCount (Suc fuel) m0 w
                 = Returned r3 m (w\<lparr> attempts := attempts w @ [e1, e2, e3] \<rparr>)))"
proof (intro conjI impI)
  assume a: "currentEndpoint \<noteq> [] \<and> rest \<noteq> []
      \<and> env_net e (length (attempts w)) currentEndpoint = Responded response
      \<and> (resp_status response = 403 \<or> resp_status response = 404
           \<or> (500 \<le> resp_status response \<and> resp_status response \<le> 599))"
  then show "tryEndpoints e (currentEndpoint # rest) p accountCount lastResponse lastAttemptInfo m w
          = tryEndpoints e rest p accountCount (Some response) (Some currentEndpoint) m
              (w\<lparr> attempts := attempts w @ [currentEndpoint] \<rparr>)"
    using tryEndpoints_next by blast
next
  assume b: "e1 \<noteq> [] \<and> e2 \<noteq> [] \<and> e3 \<noteq> []
      \<and> env_net e (length (attempts w)) e1 = Responded r1 \<and> resp_status r1 = 404
      \<and> env_net e (length (attempts w) + 1) e2 = Responded r2 \<and> resp_status r2 = 404
      \<and> env_net e (length (attempts w) + 2) e3 = Responded r3 \<and> resp_status r3 = 200"
  let ?w1 = "w\<lparr> attempts := attempts w @ [e1] \<rparr>"
  let ?w2 = "?w1\<lparr> attempts := attempts ?w1 @ [e2] \<rparr>"
  let ?w3 = "?w2\<lparr> attempts := attempts ?w2 @ [e3] \<rparr>"
  have n2: "env_net e (length (attempts ?w1)) e2 = Responded r2" using b by simp
  have n3: "env_net e (length (attempts ?w2)) e3 = Responded r3" using b by simp
  have s1: "tryEndpoints e [e1, e2, e3] p accountCount None None m w
              = tryEndpoints e [e2, e3] p accountCount (Some r1) (Some e1) m ?w1"
    using b by (intro tryEndpoints_next) simp_all
  have s2: "tryEndpoints e [e2, e3] p accountCount (Some r1) (Some e1) m ?w1
              = tryEndpoints e [e3] p accountCount (Some r2) (Some e2) m ?w2"
    using b n2 by (intro tryEndpoints_next) simp_all
  have s3: "tryEndpoints e [e3] p accountCount (Some r2) (Some e2) m ?w2
              = Inr (Success r3 e3, m, ?w3)"
    using b n3 by (intro tryEndpoints_success) simp_all
  have w3: "?w3 = w\<lparr> attempts := attempts w @ [e1, e2, e3] \<rparr>" by simp
  show r: "tryEndpoints e [e1, e2, e3] p accountCount None None m w
          = Inr (Success r3 e3, m, w\<lparr> attempts := attempts w @ [e1, e2, e3] \<rparr>)"
    using s1 s2 s3 w3 by simp
  assume c: "CODE_ASSIST_ENDPOINT_FALLBACKS = [e1, e2, e3]
             \<and> select_account m0 w = (Some p, m)
             \<and> \<not> env_token_expired e (accounts m ! p) (clock w)
             \<and> access (accounts m ! p) = Some t \<and> t \<noteq> []"
  have res: "tryEndpointFallbacks e p accountCount m w
          = Inr (Success r3 e3, m, w\<lparr> attempts := attempts w @ [e1, e2, e3] \<rparr>)"
    using r c by (simp add: tryEndpointFallbacks_def)
  show "fetch_loop e accountCount (Suc fuel) m0 w
                 = Returned r3 m (w\<lparr> attempts := attempts w @ [e1, e2, e3] \<rparr>)"
    using fetch_loop_dispatch(3)[OF _ _ _ _ res refl] c by blast
qed

theorem endpoint_fallback_order_witness:
  "outcome_response (fetch_loop env_404_404_200 2 (Suc 0) pool_ab start_world)
     = Some (status_response 200 [])
   \<and> map_option attempts (outcome_world (fetch_loop env_404_404_200 2 (Suc 0) pool_ab start_world))
     = Some CODE_ASSIST_ENDPOINT_FALLBACKS"
proof -
  let ?e1 = "''https://daily-cloudcode-pa.sandbox.googleapis.com''"
  let ?e2 = "''https://autopush-cloudcode-pa.sandbox.googleapis.com''"
  let ?e3 = "''https://cloudcode-pa.googleapis.com''"
  have sel1: "fst (select_account pool_ab start_world) = Some 0" by code_simp
  have sel: "select_account pool_ab start_world = (Some 0, selected_pool)"
    using sel1 by (simp add: selected_pool_def prod_eq_iff)
  have acc: "access (accounts selected_pool ! 0) = Some ''tok''" by code_simp
  have h: "?e1 \<noteq> [] \<and> ?e2 \<noteq> [] \<and> ?e3 \<noteq> []
      \<and> env_net env_404_404_200 (length (attempts start_world)) ?e1 = Responded (status_response 404 [])
      \<and> resp_status (status_response 404 []) = 404
      \<and> env_net env_404_404_200 (length (attempts start_world) + 1) ?e2 = Responded (status_response 404 [])
      \<and> resp_status (status_response 404 []) = 404
      \<and> env_net env_404_404_200 (length (attempts start_world) + 2) ?e3 = Responded (status_response 200 [])
      \<and> resp_status (status_response 200 []) = 200"
    by (simp add: env_404_404_200_def start_world_def status_response_def)
  have c: "CODE_ASSIST_ENDPOINT_FALLBACKS = [?e1, ?e2, ?e3]
             \<and> select_account pool_ab start_world = (Some 0, selected_pool)
             \<and> \<not> env_token_expired env_404_404_200 (accounts selected_pool ! 0) (clock start_world)
             \<and> access (accounts selected_pool ! 0) = Some ''tok'' \<and> ''tok'' \<noteq> []"
    using sel acc by (simp add: CODE_ASSIST_ENDPOINT_FALLBACKS_def env_404_404_200_def)
  from endpoint_fallback_order[where e = env_404_404_200 and w = start_world
         and ?e1.0 = ?e1 and ?e2.0 = ?e2 and ?e3.0 = ?e3
         and ?r1.0 = "status_response 404 []" and ?r2.0 = "status_response 404 []"
         and ?r3.0 = "status_response 200 []" and ?m0.0 = pool_ab and m = selected_pool
         and p = 0 and t = "''tok''" and accountCount = 2 and fuel = 0,
         THEN conjunct2, rule_format, OF h, THEN conjunct2, rule_format, OF c]
  show ?thesis
    by (simp add: CODE_ASSIST_ENDPOINT_FALLBACKS_def start_world_def)
qed

text \<open>
  Claim C1, amended. The account count is not one and an attempt returns status 429. If the
  parsed retry-after duration is at most 5000 ms, the attempt sleeps for that duration (not
  at all when it is not positive), leaves the pool unchanged and returns
  \<^verbatim>\<open>retry-soon\<close>; the account, when it is current and not rate-limited, is selected
  again. If the duration exceeds 5000 ms, the account is marked rate-limited until the
  clock reading plus the duration and \<^verbatim>\<open>rate-limit\<close> is returned; a selection made
  before that time does not return the account. After either result the loop goes on with a
  new iteration, without sleeping: a new selection and the endpoint list from its first
  endpoint.
\<close>

theorem rate_limit_several_accounts:
  assumes several: "accountCount \<noteq> 1"
    and ep: "currentEndpoint \<noteq> []"
    and net429: "env_net e (length (attempts w)) currentEndpoint = Responded response"
    and st: "resp_status response = 429"
  shows "(parseRetryAfterMs response \<le> 5000 \<longrightarrow>
           (\<exists>w'. tryEndpoints e (currentEndpoint # rest) p accountCount lastResponse lastAttemptInfo m w
                    = Inr (RetrySoon, m, w')
                \<and> clock w' = clock w + max 0 (parseRetryAfterMs response)
                \<and> sleeps w' = sleeps w @ backoff_waits (max 0 (parseRetryAfterMs response)) 0
                \<and> sum_list (backoff_waits (max 0 (parseRetryAfterMs response)) 0)
                     = max 0 (parseRetryAfterMs response)
                \<and> attempts w' = attempts w @ [currentEndpoint])
           \<and> (getCurrentAccount m = Some p \<and> \<not> isRateLimited (accounts m ! p) \<longrightarrow>
                (\<forall>w''. fst (select_account m w'') = Some p)))
       \<and> (parseRetryAfterMs response > 5000 \<longrightarrow>
           tryEndpoints e (currentEndpoint # rest) p accountCount lastResponse lastAttemptInfo m w
             = Inr (RateLimit (parseRetryAfterMs response),
                    markRateLimited (clock w) p (parseRetryAfterMs response) m,
                    w\<lparr> attempts := attempts w @ [currentEndpoint] \<rparr>)
           \<and> (getCurrentAccount m = Some p \<longrightarrow>
                isRateLimited (accounts (markRateLimited (clock w) p (parseRetryAfterMs response) m) ! p)
                \<and> rateLimitResetTime (accounts (markRateLimited (clock w) p (parseRetryAfterMs response) m) ! p)
                     = clock w + parseRetryAfterMs response
                \<and> (\<forall>w''. clock w'' \<le> clock w + parseRetryAfterMs response \<longrightarrow>
                      fst (select_account (markRateLimited (clock w) p (parseRetryAfterMs response) m) w'')
                        \<noteq> Some p)))
       \<and> (\<forall>m0 w0 t result m' w' fuel.
             select_account m0 w0 = (Some p, m)
             \<and> \<not> env_token_expired e (accounts m ! p) (clock w0)
             \<and> access (accounts m ! p) = Some t \<and> t \<noteq> []
             \<and> tryEndpointFallbacks e p accountCount m w0 = Inr (result, m', w')
             \<and> (result = RetrySoon \<or> (\<exists>r. result = RateLimit r))
             \<longrightarrow> fetch_loop e accountCount (Suc fuel) m0 w0 = fetch_loop e accountCount fuel m' w')"
proof (intro conjI impI allI)
  let ?r = "parseRetryAfterMs response"
  let ?w1 = "w\<lparr> attempts := attempts w @ [currentEndpoint] \<rparr>"
  have t: "tryEndpoints e (currentEndpoint # rest) p accountCount lastResponse lastAttemptInfo m w
           = Inr (handleRateLimit response p m accountCount ?w1)"
    using ep net429 st by (rule tryEndpoints_429)
  {
    assume le: "?r \<le> 5000"
    have h: "handleRateLimit response p m accountCount ?w1 = (RetrySoon, m, sleepWithBackoff ?r ?w1)"
      using several le by (simp add: handleRateLimit_def switchThresholdMs_def Let_def)
    show "\<exists>w'. tryEndpoints e (currentEndpoint # rest) p accountCount lastResponse lastAttemptInfo m w
                    = Inr (RetrySoon, m, w')
                \<and> clock w' = clock w + max 0 ?r
                \<and> sleeps w' = sleeps w @ backoff_waits (max 0 ?r) 0
                \<and> sum_list (backoff_waits (max 0 ?r) 0) = max 0 ?r
                \<and> attempts w' = attempts w @ [currentEndpoint]"
      by (rule exI[of _ "sleepWithBackoff ?r ?w1"])
         (simp only: t h, simp add: sleepWithBackoff_world backoff_waits_sum)
  }
  {
    fix w'' :: world
    assume "getCurrentAccount m = Some p \<and> \<not> isRateLimited (accounts m ! p)"
    then show "fst (select_account m w'') = Some p"
      by (simp add: select_account_fst getCurrentOrNext_sticky)
  }
  {
    assume gt: "?r > 5000"
    have h: "handleRateLimit response p m accountCount ?w1
               = (RateLimit ?r, markRateLimited (clock w) p ?r m, ?w1)"
      using several gt by (simp add: handleRateLimit_def switchThresholdMs_def Let_def)
    show "tryEndpoints e (currentEndpoint # rest) p accountCount lastResponse lastAttemptInfo m w
             = Inr (RateLimit ?r, markRateLimited (clock w) p ?r m, ?w1)"
      by (simp only: t h)
  }
  {
    assume cur: "getCurrentAccount m = Some p"
    then have b: "p < length (accounts m)" by (rule getCurrentAccount_bound)
    note mk = markRateLimited_account[OF b, of "clock w" ?r]
    show "isRateLimited (accounts (markRateLimited (clock w) p ?r m) ! p)" using mk by simp
    show "rateLimitResetTime (accounts (markRateLimited (clock w) p ?r m) ! p) = clock w + ?r"
      using mk by simp
    fix w'' :: world
    assume "clock w'' \<le> clock w + ?r"
    then have ny: "clock w'' \<le> rateLimitResetTime (accounts (markRateLimited (clock w) p ?r m) ! p)"
      using mk by simp
    have cur': "getCurrentAccount (markRateLimited (clock w) p ?r m) = Some p"
      using cur by (simp add: getCurrentAccount_markRateLimited)
    show "fst (select_account (markRateLimited (clock w) p ?r m) w'') \<noteq> Some p"
      unfolding select_account_fst
      using cur' mk ny by (intro getCurrentOrNext_limited) simp_all
  }
  {
    fix m0 w0 t result m' w' fuel
    assume a: "select_account m0 w0 = (Some p, m)
             \<and> \<not> env_token_expired e (accounts m ! p) (clock w0)
             \<and> access (accounts m ! p) = Some t \<and> t \<noteq> []
             \<and> tryEndpointFallbacks e p accountCount m w0 = Inr (result, m', w')
             \<and> (result = RetrySoon \<or> (\<exists>r. result = RateLimit r))"
    then have sel: "select_account m0 w0 = (Some p, m)"
      and tok: "\<not> env_token_expired e (accounts m ! p) (clock w0)"
      and acc: "access (accounts m ! p) = Some t" and tn: "t \<noteq> []"
      and res: "tryEndpointFallbacks e p accountCount m w0 = Inr (result, m', w')"
      and cases: "result = RetrySoon \<or> (\<exists>r. result = RateLimit r)"
      by simp_all
    from cases show "fetch_loop e accountCount (Suc fuel) m0 w0 = fetch_loop e accountCount fuel m' w'"
    proof
      assume "result = RetrySoon"
      then show ?thesis using fetch_loop_dispatch(1)[OF sel tok acc tn res] by simp
    next
      assume "\<exists>r. result = RateLimit r"
      then obtain r where "result = RateLimit r" by blast
      then show ?thesis using fetch_loop_dispatch(2)[OF sel tok acc tn res _ several] by simp
    qed
  }
qed

text \<open>
  Two accounts; the first endpoint answers 404 and the second 429 with a retry-after of one
  second. The orchestrator sleeps one second and its next fetch goes to the first endpoint,
  not to the one that answered 429.
\<close>

theorem retry_soon_restarts_endpoints_counterexample:
  "map_option attempts (outcome_world (fetch_loop env_404_429_200 2 2 pool_ab start_world))
     = Some [''https://daily-cloudcode-pa.sandbox.googleapis.com'',
             ''https://autopush-cloudcode-pa.sandbox.googleapis.com'',
             ''https://daily-cloudcode-pa.sandbox.googleapis.com'']
   \<and> map_option sleeps (outcome_world (fetch_loop env_404_429_200 2 2 pool_ab start_world)) = Some [1000]
   \<and> outcome_response (fetch_loop env_404_429_200 2 2 pool_ab start_world) = Some (status_response 200 [])"
  by code_simp

theorem rate_limit_several_accounts_witness:
  "tryEndpoints env_429_long CODE_ASSIST_ENDPOINT_FALLBACKS 0 2 None None selected_pool start_world
     = Inr (RateLimit 120000, markRateLimited 1000 0 120000 selected_pool,
            start_world\<lparr> attempts := [''https://daily-cloudcode-pa.sandbox.googleapis.com''] \<rparr>)
   \<and> fst (select_account (markRateLimited 1000 0 120000 selected_pool) start_world) \<noteq> Some 0
   \<and> (\<exists>w'. tryEndpoints env_404_429_200
               [''https://autopush-cloudcode-pa.sandbox.googleapis.com'',
                ''https://cloudcode-pa.googleapis.com''] 0 2 None None selected_pool
               (start_world\<lparr> attempts := [''https://daily-cloudcode-pa.sandbox.googleapis.com''] \<rparr>)
             = Inr (RetrySoon, selected_pool, w')
           \<and> clock w' = 2000 \<and> sleeps w' = [1000])
   \<and> fst (select_account selected_pool start_world) = Some 0"
proof -
  let ?daily = "''https://daily-cloudcode-pa.sandbox.googleapis.com''"
  let ?autopush = "''https://autopush-cloudcode-pa.sandbox.googleapis.com''"
  let ?prod = "''https://cloudcode-pa.googleapis.com''"
  let ?long = "status_response 429 [(''retry-after'', ''120'')]"
  let ?short = "status_response 429 [(''retry-after-ms'', ''1000'')]"
  let ?w1 = "start_world\<lparr> attempts := [?daily] \<rparr>"
  have rl: "parseRetryAfterMs ?long = 120000" and rs: "parseRetryAfterMs ?short = 1000"
    by code_simp+
  have bw: "backoff_waits 1000 0 = [1000]" by code_simp
  have cur: "getCurrentAccount selected_pool = Some 0"
    and nl: "\<not> isRateLimited (accounts selected_pool ! 0)" by code_simp+
  have two: "(2::int) \<noteq> 1" by simp
  have d: "?daily \<noteq> []" and a: "?autopush \<noteq> []" by simp_all
  have n0: "env_net env_429_long (length (attempts start_world)) ?daily = Responded ?long"
    by (simp add: env_429_long_def start_world_def)
  have n1: "env_net env_404_429_200 (length (attempts ?w1)) ?autopush = Responded ?short"
    by (simp add: env_404_429_200_def start_world_def)
  have s429: "resp_status ?long = 429" "resp_status ?short = 429"
    by (simp_all add: status_response_def)
  note L = rate_limit_several_accounts[where e = env_429_long and w = start_world
             and currentEndpoint = ?daily and response = ?long and accountCount = 2
             and rest = "[?autopush, ?prod]" and p = 0 and m = selected_pool
             and lastResponse = None and lastAttemptInfo = None,
             OF two d n0 s429(1), THEN conjunct2, THEN conjunct1, rule_format]
  note S = rate_limit_several_accounts[where e = env_404_429_200 and w = ?w1
             and currentEndpoint = ?autopush and response = ?short and accountCount = 2
             and rest = "[?prod]" and p = 0 and m = selected_pool
             and lastResponse = None and lastAttemptInfo = None,
             OF two a n1 s429(2), THEN conjunct1, rule_format]
  have gt: "parseRetryAfterMs ?long > 5000" and le: "parseRetryAfterMs ?short \<le> 5000"
    using rl rs by simp_all
  have A: "tryEndpoints env_429_long CODE_ASSIST_ENDPOINT_FALLBACKS 0 2 None None selected_pool start_world
     = Inr (RateLimit 120000, markRateLimited 1000 0 120000 selected_pool,
            start_world\<lparr> attempts := [?daily] \<rparr>)"
    using L[OF gt, THEN conjunct1]
    by (simp add: rl CODE_ASSIST_ENDPOINT_FALLBACKS_def start_world_def)
  have B: "fst (select_account (markRateLimited 1000 0 120000 selected_pool) start_world) \<noteq> Some 0"
    using L[OF gt, THEN conjunct2, rule_format, OF cur, THEN conjunct2, THEN conjunct2,
            rule_format, of start_world]
    by (simp add: rl start_world_def)
  have C: "\<exists>w'. tryEndpoints env_404_429_200 [?autopush, ?prod] 0 2 None None selected_pool ?w1
             = Inr (RetrySoon, selected_pool, w')
           \<and> clock w' = 2000 \<and> sleeps w' = [1000]"
    using S[OF le, THEN conjunct1]
    by (auto simp add: rs bw start_world_def)
  have D: "fst (select_account selected_pool start_world) = Some 0"
    using S[OF le, THEN conjunct2, rule_format, of start_world] cur nl by simp
  show ?thesis using A B C D by blast
qed

end
